(* ===== verification/Prelude.thy ===== *)
theory Prelude
  imports Main "HOL-Library.Word" "HOL-Library.Multiset" "HOL-Library.Sublist"
begin

text \<open>
  Shared vocabulary of the development: the machine integers the crate uses, byte strings,
  the collections of proof hints, and the big-endian byte image of a word that every
  integer field of the wire format goes through (\<open>#[brw(big)]\<close>).
\<close>

unbundle bit_operations_syntax

subsection \<open>Machine integers and byte strings\<close>

type_synonym u8 = "8 word"
type_synonym u16 = "16 word"
type_synonym u32 = "32 word"
type_synonym u64 = "64 word"
type_synonym i64 = "64 word"   \<comment> \<open>read with \<open>sint\<close>\<close>
type_synonym i32 = "32 word"   \<comment> \<open>read with \<open>sint\<close>\<close>
type_synonym bytes = "u8 list"

text \<open>
  A path and a file name are byte strings on Unix (\<open>OsStr\<close>, \<open>Path\<close>). A Rust \<open>String\<close>
  is its UTF-8 image.
\<close>

type_synonym path = bytes
type_synonym ustring = bytes

text \<open>The bytes of an ASCII literal of the source.\<close>

definition ascii :: "string \<Rightarrow> bytes" where
  "ascii s = map of_char s"

subsection \<open>Collections of proof hints\<close>

named_theorems wire_simps \<open>reading back what was written, field by field\<close>
named_theorems streaming_intros \<open>readers whose verdict is stable when more bytes arrive\<close>

subsection \<open>Big-endian images of words\<close>

fun to_be :: "nat \<Rightarrow> 'a::len word \<Rightarrow> bytes" where
  "to_be 0 w = []"
| "to_be (Suc n) w = ucast (drop_bit (8 * n) w) # to_be n w"

definition from_be :: "bytes \<Rightarrow> 'a::len word" where
  "from_be bs = foldl (\<lambda>acc b. acc * 256 + ucast b) 0 bs"

lemma length_to_be [simp]: "length (to_be n w) = n"
  by (induction n) auto

definition be_nat :: "bytes \<Rightarrow> nat" where
  "be_nat bs = foldl (\<lambda>acc b. acc * 256 + unat b) 0 bs"

lemma be_nat_foldl:
  "foldl (\<lambda>acc b. acc * 256 + unat (b::u8)) a bs = a * 256 ^ length bs + be_nat bs"
proof (induction bs arbitrary: a)
  case Nil
  show ?case by (simp add: be_nat_def)
next
  case (Cons b bs)
  have "be_nat (b # bs) = unat b * 256 ^ length bs + be_nat bs"
    using Cons.IH [of "unat b"] by (simp add: be_nat_def)
  with Cons.IH [of "a * 256 + unat b"] show ?case
    by (simp add: algebra_simps)
qed

lemma be_nat_Nil [simp]: "be_nat [] = 0"
  by (simp add: be_nat_def)

lemma be_nat_Cons [simp]: "be_nat (b # bs) = unat b * 256 ^ length bs + be_nat bs"
  using be_nat_foldl [of "unat b" bs] by (simp add: be_nat_def)

lemma from_be_eq: "from_be bs = (of_nat (be_nat bs) :: 'a::len word)"
proof -
  have "foldl (\<lambda>acc b. acc * 256 + ucast b) (of_nat a) bs
      = (of_nat (foldl (\<lambda>acc b. acc * 256 + unat b) a bs) :: 'a word)" for a
  proof (induction bs arbitrary: a)
    case (Cons b bs)
    have "of_nat a * 256 + ucast b = (of_nat (a * 256 + unat b) :: 'a word)"
      by simp
    then show ?case by (simp only: foldl_Cons Cons.IH)
  qed simp
  from this [of 0] show ?thesis by (simp add: from_be_def be_nat_def)
qed

lemma be_nat_to_be: "be_nat (to_be n w) = unat w mod 256 ^ n"
proof (induction n)
  case (Suc n)
  have "unat (ucast (drop_bit (8 * n) w) :: u8) = unat w div 256 ^ n mod 256"
    by (simp add: unsigned_ucast_eq unsigned_drop_bit_eq)
      (simp add: drop_bit_eq_div take_bit_eq_mod power_mult)
  then show ?case
    using Suc by (simp add: mult.commute [of 256] mult.commute [of 8] mod_mult2_eq)
qed simp

lemma from_be_to_be:
  assumes "LENGTH('a) \<le> 8 * n"
  shows "from_be (to_be n w) = (w :: 'a::len word)"
proof -
  have "unat w < 2 ^ LENGTH('a)" by (rule unsigned_less)
  also have "\<dots> \<le> 2 ^ (8 * n)" using assms by (intro power_increasing) auto
  also have "\<dots> = 256 ^ n" by (simp add: power_mult)
  finally show ?thesis by (simp add: from_be_eq be_nat_to_be)
qed

lemma be_nat_less: "be_nat bs < 256 ^ length bs"
proof (induction bs)
  case (Cons b bs)
  have "unat b < 256" using unsigned_less [of b] by simp
  then have "unat b * 256 ^ length bs + 256 ^ length bs \<le> 256 * 256 ^ length bs"
    by (metis Suc_leI add.commute mult_Suc mult_le_mono1)
  moreover have "be_nat bs < 256 ^ length bs" by (rule Cons.IH)
  ultimately show ?case by (simp only: be_nat_Cons list.size power_add power_Suc add_0_right add_Suc_right)
qed simp

lemma unat_from_be:
  assumes "8 * length bs \<le> LENGTH('a)"
  shows "unat (from_be bs :: 'a::len word) = be_nat bs"
proof -
  have "be_nat bs < 256 ^ length bs" by (rule be_nat_less)
  also have "\<dots> = 2 ^ (8 * length bs)" by (simp add: power_mult)
  also have "\<dots> \<le> 2 ^ LENGTH('a)" using assms by (intro power_increasing) auto
  finally show ?thesis by (simp add: from_be_eq unat_of_nat)
qed

end
