(* ===== verification/Rust_Std.thy ===== *)
theory Rust_Std
  imports Prelude
begin

text \<open>
  The part of the Rust standard library the crate is written against: \<open>std::io::Error\<close> with
  its kinds, \<open>Result\<close> with the \<open>?\<close> operator, panics, \<open>SystemTime\<close>, \<open>String::from_utf8\<close>,
  and the \<open>Path\<close> operations \<open>push\<close> and \<open>parent\<close> as Unix has them.
\<close>

subsection \<open>Errors\<close>

text \<open>The stable variants of \<open>std::io::ErrorKind\<close>.\<close>

datatype error_kind =
    KNotFound | KPermissionDenied | KConnectionRefused | KConnectionReset | KHostUnreachable
  | KNetworkUnreachable | KConnectionAborted | KNotConnected | KAddrInUse | KAddrNotAvailable
  | KNetworkDown | KBrokenPipe | KAlreadyExists | KWouldBlock | KNotADirectory | KIsADirectory
  | KDirectoryNotEmpty | KReadOnlyFilesystem | KStaleNetworkFileHandle | KInvalidInput
  | KInvalidData | KTimedOut | KWriteZero | KStorageFull | KNotSeekable | KQuotaExceeded
  | KFileTooLarge | KResourceBusy | KExecutableFileBusy | KDeadlock | KCrossesDevices
  | KTooManyLinks | KInvalidFilename | KArgumentListTooLong | KInterrupted | KUnsupported
  | KUnexpectedEof | KOutOfMemory | KOther | KUncategorized

text \<open>\<open>io::Error\<close>: its \<open>kind()\<close> and what \<open>to_string()\<close> gives.\<close>

record io_error =
  err_kind :: error_kind
  err_text :: ustring

definition io_error_new :: "error_kind \<Rightarrow> ustring \<Rightarrow> io_error" where
  "io_error_new k t = \<lparr>err_kind = k, err_text = t\<rparr>"

text \<open>\<open>io::Error::other\<close>\<close>

definition io_error_other :: "ustring \<Rightarrow> io_error" where
  "io_error_other t = io_error_new KOther t"

lemma err_kind_new [simp]: "err_kind (io_error_new k t) = k"
  by (simp add: io_error_new_def)

lemma err_text_new [simp]: "err_text (io_error_new k t) = t"
  by (simp add: io_error_new_def)

lemma io_error_new_eq [simp]: "io_error_new (err_kind e) (err_text e) = e"
  by (simp add: io_error_new_def)

lemma io_error_new_inject [simp]: "io_error_new k t = io_error_new k' t' \<longleftrightarrow> k = k' \<and> t = t'"
  by (simp add: io_error_new_def)

subsection \<open>Results and effects\<close>

text \<open>
  The outcome of awaiting a fallible operation: \<open>Ok\<close> and \<open>Err\<close> are Rust's; \<open>Panics\<close> is an
  unwinding panic and \<open>Hangs\<close> an \<open>await\<close> that is never woken. Only the first two continue.
\<close>

datatype 'a io_result = Ok 'a | Err io_error | Panics | Hangs

type_synonym ('s, 'a) io = "'s \<Rightarrow> 'a io_result \<times> 's"

definition io_return :: "'a \<Rightarrow> ('s, 'a) io" where
  "io_return x s = (Ok x, s)"

definition io_fail :: "io_error \<Rightarrow> ('s, 'a) io" where
  "io_fail e s = (Err e, s)"

definition io_panic :: "('s, 'a) io" where
  "io_panic s = (Panics, s)"

text \<open>Sequencing with \<open>?\<close>: the first outcome that is not \<open>Ok\<close> ends the function.\<close>

definition io_bind :: "('s, 'a) io \<Rightarrow> ('a \<Rightarrow> ('s, 'b) io) \<Rightarrow> ('s, 'b) io" where
  "io_bind m f s = (case m s of
      (Ok x, s') \<Rightarrow> f x s'
    | (Err e, s') \<Rightarrow> (Err e, s')
    | (Panics, s') \<Rightarrow> (Panics, s')
    | (Hangs, s') \<Rightarrow> (Hangs, s'))"

text \<open>A value computed without touching the state.\<close>

definition io_lift :: "'a io_result \<Rightarrow> ('s, 'a) io" where
  "io_lift r s = (r, s)"

lemma io_bind_Ok [simp]: "m s = (Ok x, s') \<Longrightarrow> io_bind m f s = f x s'"
  by (simp add: io_bind_def)

lemma io_bind_Err [simp]: "m s = (Err e, s') \<Longrightarrow> io_bind m f s = (Err e, s')"
  by (simp add: io_bind_def)

lemma io_bind_Panics [simp]: "m s = (Panics, s') \<Longrightarrow> io_bind m f s = (Panics, s')"
  by (simp add: io_bind_def)

lemma io_bind_Hangs [simp]: "m s = (Hangs, s') \<Longrightarrow> io_bind m f s = (Hangs, s')"
  by (simp add: io_bind_def)

lemma io_return_app [simp]: "io_return x s = (Ok x, s)"
  by (simp add: io_return_def)

lemma io_fail_app [simp]: "io_fail e s = (Err e, s)"
  by (simp add: io_fail_def)

lemma io_panic_app [simp]: "io_panic s = (Panics, s)"
  by (simp add: io_panic_def)

lemma io_lift_app [simp]: "io_lift r s = (r, s)"
  by (simp add: io_lift_def)

lemma io_bind_cases:
  assumes "io_bind m f s = (r, t)"
  obtains (Ok) x s' where "m s = (Ok x, s')" and "f x s' = (r, t)"
    | (Err) e where "m s = (Err e, t)" and "r = Err e"
    | (Panics) "m s = (Panics, t)" and "r = Panics"
    | (Hangs) "m s = (Hangs, t)" and "r = Hangs"
  using assms by (auto simp: io_bind_def split: prod.splits io_result.splits)

lemma io_bind_OkE:
  assumes "io_bind m f s = (Ok y, t)"
  obtains x s' where "m s = (Ok x, s')" and "f x s' = (Ok y, t)"
  using assms by (rule io_bind_cases) auto

lemma io_bind_assoc: "io_bind (io_bind m f) g = io_bind m (\<lambda>x. io_bind (f x) g)"
  by (rule ext) (simp add: io_bind_def split: prod.splits io_result.splits)

subsection \<open>Time\<close>

text \<open>
  \<open>SystemTime\<close> on Unix: nanoseconds since the epoch, seconds within \<open>i64\<close>.
  \<open>UNIX_EPOCH + Duration\<close> panics when the sum leaves that range.
\<close>

type_synonym system_time = int

definition nanos_per_sec :: int where
  "nanos_per_sec = 1000000000"

definition epoch_plus_secs :: "u64 \<Rightarrow> system_time option" where
  "epoch_plus_secs s = (if unat s < 2 ^ 63 then Some (uint s * nanos_per_sec) else None)"

text \<open>\<open>t.duration_since(UNIX_EPOCH)\<close> in seconds, \<open>None\<close> for a time before the epoch.\<close>

definition secs_since_epoch :: "system_time \<Rightarrow> u64 option" where
  "secs_since_epoch t = (if t < 0 then None else Some (word_of_int (t div nanos_per_sec)))"

definition valid_time :: "system_time \<Rightarrow> bool" where
  "valid_time t \<longleftrightarrow> - (2 ^ 63) \<le> t div nanos_per_sec \<and> t div nanos_per_sec < 2 ^ 63"

subsection \<open>UTF-8\<close>

definition utf8_cont :: "u8 \<Rightarrow> bool" where
  "utf8_cont b \<longleftrightarrow> 0x80 \<le> b \<and> b \<le> 0xBF"

text \<open>The second byte a three- or four-byte sequence may have after its first byte.\<close>

definition utf8_lead3 :: "u8 \<Rightarrow> u8 \<Rightarrow> bool" where
  "utf8_lead3 a b \<longleftrightarrow>
     (a = 0xE0 \<and> 0xA0 \<le> b \<and> b \<le> 0xBF) \<or> (0xE1 \<le> a \<and> a \<le> 0xEC \<and> utf8_cont b)
   \<or> (a = 0xED \<and> 0x80 \<le> b \<and> b \<le> 0x9F) \<or> (0xEE \<le> a \<and> a \<le> 0xEF \<and> utf8_cont b)"

definition utf8_lead4 :: "u8 \<Rightarrow> u8 \<Rightarrow> bool" where
  "utf8_lead4 a b \<longleftrightarrow>
     (a = 0xF0 \<and> 0x90 \<le> b \<and> b \<le> 0xBF) \<or> (0xF1 \<le> a \<and> a \<le> 0xF3 \<and> utf8_cont b)
   \<or> (a = 0xF4 \<and> 0x80 \<le> b \<and> b \<le> 0x8F)"

fun utf8_valid :: "bytes \<Rightarrow> bool" where
  "utf8_valid [] = True"
| "utf8_valid (a # bs) =
     (if a < 0x80 then utf8_valid bs
      else case bs of [] \<Rightarrow> False
      | b # cs \<Rightarrow>
        if 0xC2 \<le> a \<and> a \<le> 0xDF then utf8_cont b \<and> utf8_valid cs
        else case cs of [] \<Rightarrow> False
        | c # ds \<Rightarrow>
          if utf8_lead3 a b then utf8_cont c \<and> utf8_valid ds
          else case ds of [] \<Rightarrow> False
          | d # es \<Rightarrow> utf8_lead4 a b \<and> utf8_cont c \<and> utf8_cont d \<and> utf8_valid es)"

lemma utf8_valid_ascii: "\<forall>b \<in> set bs. b < 0x80 \<Longrightarrow> utf8_valid bs"
  by (induction bs) auto

subsection \<open>Paths\<close>

definition slash :: u8 where
  "slash = 0x2F"

definition dot :: u8 where
  "dot = 0x2E"

definition is_absolute :: "path \<Rightarrow> bool" where
  "is_absolute p \<longleftrightarrow> (case p of [] \<Rightarrow> False | c # _ \<Rightarrow> c = slash)"

text \<open>
  \<open>PathBuf::push\<close>: an absolute argument replaces the path; otherwise a separator is put in
  between unless the path is empty or already ends with one.
\<close>

definition path_push :: "path \<Rightarrow> path \<Rightarrow> path" where
  "path_push p q =
     (if is_absolute q then q
      else if p \<noteq> [] \<and> last p \<noteq> slash then p @ [slash] @ q
      else p @ q)"

text \<open>
  \<open>Path::parent\<close> works on components. \<open>path_before p\<close> counts the bytes of the root or of a
  leading current-directory component; \<open>last_comp\<close> is the component that ends the body and
  \<open>last_comp_size\<close> what removing it removes (its separator included). Empty components and
  inner dots are not components.
\<close>

definition cur_dir_first :: "path \<Rightarrow> bool" where
  "cur_dir_first p \<longleftrightarrow> p = [dot] \<or> take 2 p = [dot, slash]"

definition path_before :: "path \<Rightarrow> nat" where
  "path_before p = (if is_absolute p \<or> cur_dir_first p then 1 else 0)"

definition last_comp :: "path \<Rightarrow> bytes" where
  "last_comp p = rev (takeWhile (\<lambda>c. c \<noteq> slash) (rev (drop (path_before p) p)))"

definition last_comp_size :: "path \<Rightarrow> nat" where
  "last_comp_size p =
     length (last_comp p) + (if slash \<in> set (drop (path_before p) p) then 1 else 0)"

lemma last_comp_size_pos: "path_before p < length p \<Longrightarrow> 0 < last_comp_size p"
proof -
  assume "path_before p < length p"
  then obtain c cs where "drop (path_before p) p = cs @ [c]"
    by (metis drop_eq_Nil leD rev_exhaust)
  then show ?thesis
    by (auto simp: last_comp_size_def last_comp_def)
qed

function path_trim_right :: "path \<Rightarrow> path" where
  "path_trim_right p =
     (if path_before p < length p \<and> last_comp p \<in> {[], [dot]}
      then path_trim_right (take (length p - last_comp_size p) p)
      else p)"
  by pat_completeness auto
termination
  by (relation "measure length") (auto intro!: diff_less last_comp_size_pos)

declare path_trim_right.simps [simp del]

definition path_parent :: "path \<Rightarrow> path option" where
  "path_parent p =
     (let q = path_trim_right p in
      if path_before q < length q
        then Some (path_trim_right (take (length q - last_comp_size q) q))
      else if is_absolute q then None
      else if cur_dir_first q then Some []
      else None)"

end
