(* ===== verification/Binrw.thy ===== *)
theory Binrw
  imports Rust_Std
begin

text \<open>
  The reading and writing primitives that the derive attributes of the wire types name
  (\<open>#[binrw]\<close>, \<open>big\<close>, \<open>magic\<close>, \<open>count\<close>, \<open>map\<close>, \<open>try_map\<close>, \<open>if\<close>, \<open>temp\<close>, \<open>calc\<close>), and the
  classification of their errors by \<open>is_eof\<close> of \<open>protocol/codec.rs\<close>. A reader takes the
  bytes from the cursor on and gives a value with the bytes that are left.

  The main notion is \<open>streaming\<close>: the verdict of a reader, unless it is that input ran out,
  does not change when more bytes arrive. It is what makes decoding from a buffer that
  fills in arbitrary pieces well defined.
\<close>

subsection \<open>Errors of the wire library and their classification\<close>

text \<open>
  The variants of \<open>binrw::Error\<close> that reading these types can give; positions are left out,
  no code of the crate reads them. \<open>Custom\<close> is a failed \<open>try_map\<close>.
\<close>

datatype bin_error =
    Io error_kind
  | BadMagic
  | NoVariantMatch
  | Custom
  | Backtrace bin_error
  | EnumErrors "(string \<times> bin_error) list"

fun is_eof :: "bin_error \<Rightarrow> bool" where
  "is_eof (Io k) = (k = KUnexpectedEof)"
| "is_eof (Backtrace e) = is_eof e"
| "is_eof (EnumErrors vs) = list_ex (\<lambda>v. is_eof (snd v)) vs"
| "is_eof _ = False"

subsection \<open>Readers\<close>

type_synonym 'a reader = "bytes \<Rightarrow> bin_error + 'a \<times> bytes"

definition read_return :: "'a \<Rightarrow> 'a reader" where
  "read_return x bs = Inr (x, bs)"

definition read_bind :: "'a reader \<Rightarrow> ('a \<Rightarrow> 'b reader) \<Rightarrow> 'b reader" where
  "read_bind r f bs = (case r bs of Inl e \<Rightarrow> Inl e | Inr (x, rest) \<Rightarrow> f x rest)"

text \<open>An error in a field of a struct or variant is wrapped with where it happened.\<close>

definition read_context :: "'a reader \<Rightarrow> 'a reader" where
  "read_context r bs = (case r bs of Inl e \<Rightarrow> Inl (Backtrace e) | Inr v \<Rightarrow> Inr v)"

text \<open>Read one field, then go on with its value.\<close>

definition field :: "'a reader \<Rightarrow> ('a \<Rightarrow> 'b reader) \<Rightarrow> 'b reader" where
  "field r f = read_bind (read_context r) f"

text \<open>\<open>count = n\<close> on a \<open>Vec<u8>\<close>, also the raw access below every integer.\<close>

definition read_bytes :: "nat \<Rightarrow> bytes reader" where
  "read_bytes n bs =
     (if length bs < n then Inl (Io KUnexpectedEof) else Inr (take n bs, drop n bs))"

definition read_int :: "nat \<Rightarrow> 'a::len word reader" where
  "read_int n = read_bind (read_bytes n) (\<lambda>bs. read_return (from_be bs))"

definition read_u8 :: "u8 reader" where "read_u8 = read_int 1"
definition read_u16 :: "u16 reader" where "read_u16 = read_int 2"
definition read_u32 :: "u32 reader" where "read_u32 = read_int 4"
definition read_u64 :: "u64 reader" where "read_u64 = read_int 8"

text \<open>\<open>map\<close> and \<open>try_map\<close>\<close>

definition read_map :: "('a \<Rightarrow> 'b) \<Rightarrow> 'a reader \<Rightarrow> 'b reader" where
  "read_map f r = read_bind r (\<lambda>x. read_return (f x))"

definition read_try_map :: "('a \<Rightarrow> 'e + 'b) \<Rightarrow> 'a reader \<Rightarrow> 'b reader" where
  "read_try_map f r =
     read_bind r (\<lambda>x. case f x of Inl _ \<Rightarrow> (\<lambda>_. Inl Custom) | Inr y \<Rightarrow> read_return y)"

text \<open>\<open>repr = u8\<close> on a unit-only enum: no matching discriminant is \<open>NoVariantMatch\<close>.\<close>

definition read_repr :: "(u8 \<Rightarrow> 'a option) \<Rightarrow> 'a reader" where
  "read_repr f =
     read_bind read_u8 (\<lambda>b. case f b of None \<Rightarrow> (\<lambda>_. Inl NoVariantMatch) | Some y \<Rightarrow> read_return y)"

text \<open>\<open>if(c)\<close> on an \<open>Option\<close> field: present when the condition holds, \<open>None\<close> otherwise.\<close>

definition read_if :: "bool \<Rightarrow> 'a reader \<Rightarrow> 'a option reader" where
  "read_if c r = (if c then read_map Some r else read_return None)"

definition read_magic :: "u8 \<Rightarrow> unit reader" where
  "read_magic m = read_bind read_u8 (\<lambda>b. if b = m then read_return () else (\<lambda>_. Inl BadMagic))"

text \<open>
  A data enum tries its variants in order, each from the start of the input; when none
  reads, the error collects the error of every variant.
\<close>

type_synonym 'a variant = "string \<times> u8 \<times> 'a reader"

definition read_variant :: "'a variant \<Rightarrow> 'a reader" where
  "read_variant v = read_bind (read_magic (fst (snd v))) (\<lambda>_. snd (snd v))"

fun try_variants :: "'a variant list \<Rightarrow> (string \<times> bin_error) list \<Rightarrow> 'a reader" where
  "try_variants [] errs bs = Inl (EnumErrors errs)"
| "try_variants (v # vs) errs bs =
     (case read_variant v bs of
        Inr r \<Rightarrow> Inr r
      | Inl e \<Rightarrow> try_variants vs (errs @ [(fst v, e)]) bs)"

definition read_enum :: "'a variant list \<Rightarrow> 'a reader" where
  "read_enum vs = try_variants vs []"

subsection \<open>Writers\<close>

definition write_u8 :: "u8 \<Rightarrow> bytes" where "write_u8 w = to_be 1 w"
definition write_u16 :: "u16 \<Rightarrow> bytes" where "write_u16 w = to_be 2 w"
definition write_u32 :: "u32 \<Rightarrow> bytes" where "write_u32 w = to_be 4 w"
definition write_u64 :: "u64 \<Rightarrow> bytes" where "write_u64 w = to_be 8 w"

definition is_some :: "'a option \<Rightarrow> bool" where
  "is_some v \<longleftrightarrow> (case v of None \<Rightarrow> False | Some _ \<Rightarrow> True)"

fun write_opt :: "('a \<Rightarrow> bytes) \<Rightarrow> 'a option \<Rightarrow> bytes" where
  "write_opt w None = []"
| "write_opt w (Some x) = w x"

lemma length_write [simp]:
  "length (write_u8 a) = 1" "length (write_u16 b) = 2"
  "length (write_u32 c) = 4" "length (write_u64 d) = 8"
  by (simp_all add: write_u8_def write_u16_def write_u32_def write_u64_def)

lemma write_u8_eq [simp]: "write_u8 b = [b]"
  by (simp add: write_u8_def)

subsection \<open>Reading back what was written\<close>

lemma read_bind_Inr [wire_simps]: "r bs = Inr (x, rest) \<Longrightarrow> read_bind r f bs = f x rest"
  by (simp add: read_bind_def)

lemma read_return_app [wire_simps]: "read_return x bs = Inr (x, bs)"
  by (simp add: read_return_def)

lemma field_Inr [wire_simps]: "r bs = Inr (x, rest) \<Longrightarrow> field r f bs = f x rest"
  by (simp add: field_def read_context_def read_bind_def)

lemma read_bytes_append [wire_simps]: "length xs = n \<Longrightarrow> read_bytes n (xs @ rest) = Inr (xs, rest)"
  by (simp add: read_bytes_def)

lemma read_int_to_be:
  "LENGTH('a) = 8 * n \<Longrightarrow> read_int n (to_be n w @ rest) = Inr (w :: 'a::len word, rest)"
  by (simp add: read_int_def wire_simps from_be_to_be)

lemma read_u16_write [wire_simps]: "read_u16 (write_u16 w @ rest) = Inr (w, rest)"
  by (simp add: read_u16_def write_u16_def read_int_to_be)

lemma read_u32_write [wire_simps]: "read_u32 (write_u32 w @ rest) = Inr (w, rest)"
  by (simp add: read_u32_def write_u32_def read_int_to_be)

lemma read_u64_write [wire_simps]: "read_u64 (write_u64 w @ rest) = Inr (w, rest)"
  by (simp add: read_u64_def write_u64_def read_int_to_be)

lemma read_u8_Cons [wire_simps]: "read_u8 (b # rest) = Inr (b, rest)"
  using read_int_to_be [of 1 b rest] by (simp add: read_u8_def)

lemma read_u8_Nil: "read_u8 [] = Inl (Io KUnexpectedEof)"
  by (simp add: read_u8_def read_int_def read_bind_def read_bytes_def)

lemma read_map_Inr [wire_simps]: "r bs = Inr (x, rest) \<Longrightarrow> read_map f r bs = Inr (f x, rest)"
  by (simp add: read_map_def wire_simps)

lemma read_try_map_Inr [wire_simps]:
  "r bs = Inr (x, rest) \<Longrightarrow> f x = Inr y \<Longrightarrow> read_try_map f r bs = Inr (y, rest)"
  by (simp add: read_try_map_def wire_simps)

lemma read_repr_Cons [wire_simps]: "f b = Some y \<Longrightarrow> read_repr f (b # rest) = Inr (y, rest)"
  by (simp add: read_repr_def wire_simps)

lemma read_if_write [wire_simps]:
  assumes "\<And>x rest. r (w x @ rest) = Inr (x, rest)"
  shows "read_if (is_some v) r (write_opt w v @ rest) = Inr (v, rest)"
  using assms by (cases v) (simp_all add: read_if_def is_some_def wire_simps)

subsection \<open>Stability under more input\<close>

definition append_rest :: "bytes \<Rightarrow> bin_error + 'a \<times> bytes \<Rightarrow> bin_error + 'a \<times> bytes" where
  "append_rest ext v = (case v of Inl e \<Rightarrow> Inl e | Inr (x, rest) \<Rightarrow> Inr (x, rest @ ext))"

definition wants_more :: "bin_error + 'a \<Rightarrow> bool" where
  "wants_more v = (case v of Inl e \<Rightarrow> is_eof e | Inr _ \<Rightarrow> False)"

text \<open>
  A reader is streaming when it only takes bytes off the front and when, unless it ran out of
  input, its verdict on a longer input is the same verdict.
\<close>

definition streaming :: "'a reader \<Rightarrow> bool" where
  "streaming r \<longleftrightarrow>
     (\<forall>bs x rest. r bs = Inr (x, rest) \<longrightarrow> suffix rest bs)
   \<and> (\<forall>bs ext. \<not> wants_more (r bs) \<longrightarrow> r (bs @ ext) = append_rest ext (r bs))"

lemma append_rest_simps [simp]:
  "append_rest ext (Inl e) = Inl e" "append_rest ext (Inr (x, rest)) = Inr (x, rest @ ext)"
  by (simp_all add: append_rest_def)

lemma wants_more_simps [simp]: "wants_more (Inl e) = is_eof e" "wants_more (Inr v) = False"
  by (simp_all add: wants_more_def)

lemma streamingI:
  assumes "\<And>bs x rest. r bs = Inr (x, rest) \<Longrightarrow> suffix rest bs"
    and "\<And>bs x rest ext. r bs = Inr (x, rest) \<Longrightarrow> r (bs @ ext) = Inr (x, rest @ ext)"
    and "\<And>bs e ext. r bs = Inl e \<Longrightarrow> \<not> is_eof e \<Longrightarrow> r (bs @ ext) = Inl e"
  shows "streaming r"
  unfolding streaming_def
proof (intro conjI allI impI)
  fix bs ext assume "\<not> wants_more (r bs)"
  with assms(2,3) show "r (bs @ ext) = append_rest ext (r bs)"
    by (cases "r bs") auto
qed (rule assms(1))

lemma streaming_suffix: "streaming r \<Longrightarrow> r bs = Inr (x, rest) \<Longrightarrow> suffix rest bs"
  by (auto simp: streaming_def)

lemma streaming_Inr: "streaming r \<Longrightarrow> r bs = Inr (x, rest) \<Longrightarrow> r (bs @ ext) = Inr (x, rest @ ext)"
  unfolding streaming_def by (metis append_rest_simps(2) wants_more_simps(2))

lemma streaming_Inl: "streaming r \<Longrightarrow> r bs = Inl e \<Longrightarrow> \<not> is_eof e \<Longrightarrow> r (bs @ ext) = Inl e"
  unfolding streaming_def by (metis append_rest_simps(1) wants_more_simps(1))

text \<open>
  Consequently an input cut off inside the part a successful read consumes is reported as
  running out of input, never as a value and never as malformed.
\<close>

lemma streaming_cut:
  assumes "streaming r" and "r (used @ rest) = Inr (x, rest)" and "strict_prefix p used"
  shows "wants_more (r p)"
proof (rule ccontr)
  assume more: "\<not> wants_more (r p)"
  from assms(3) obtain c cs where used: "used = p @ c # cs"
    by (meson strict_prefixE')
  have ext: "r (p @ (c # cs @ rest)) = append_rest (c # cs @ rest) (r p)"
    using assms(1) more by (auto simp: streaming_def)
  show False
  proof (cases "r p")
    case (Inl e)
    with ext assms(2) used show False by simp
  next
    case (Inr v)
    with ext assms(2) used have "rest = snd v @ c # cs @ rest"
      by (cases v) simp
    then have "length rest = length (snd v @ c # cs @ rest)" by simp
    then show False by simp
  qed
qed

lemma streaming_return [streaming_intros]: "streaming (read_return x)"
  by (rule streamingI) (auto simp: read_return_def)

lemma streaming_fail [streaming_intros]: "streaming (\<lambda>_. Inl e)"
  by (rule streamingI) auto

lemma streaming_bind [streaming_intros]:
  assumes "streaming r" and "\<And>x. streaming (f x)"
  shows "streaming (read_bind r f)"
proof (rule streamingI)
  fix bs y rest assume "read_bind r f bs = Inr (y, rest)"
  then obtain x mid where r: "r bs = Inr (x, mid)" and f: "f x mid = Inr (y, rest)"
    by (auto simp: read_bind_def split: sum.splits prod.splits)
  from streaming_suffix [OF assms(2) f] streaming_suffix [OF assms(1) r]
  show "suffix rest bs" by (rule suffix_order.trans)
  fix ext show "read_bind r f (bs @ ext) = Inr (y, rest @ ext)"
    using streaming_Inr [OF assms(1) r, of ext] streaming_Inr [OF assms(2) f, of ext]
    by (simp add: read_bind_def)
next
  fix bs e ext assume b: "read_bind r f bs = Inl e" and e: "\<not> is_eof e"
  show "read_bind r f (bs @ ext) = Inl e"
  proof (cases "r bs")
    case (Inl e')
    with b e have "r (bs @ ext) = Inl e"
      by (auto simp: read_bind_def dest: streaming_Inl [OF assms(1)])
    then show ?thesis by (simp add: read_bind_def)
  next
    case (Inr v)
    then obtain x mid where r: "r bs = Inr (x, mid)" by (cases v) simp
    with b have "f x mid = Inl e" by (simp add: read_bind_def)
    from streaming_Inl [OF assms(2) this e] streaming_Inr [OF assms(1) r, of ext]
    show ?thesis by (simp add: read_bind_def)
  qed
qed

lemma streaming_context [streaming_intros]:
  assumes "streaming r" shows "streaming (read_context r)"
proof (rule streamingI)
  fix bs x rest assume "read_context r bs = Inr (x, rest)"
  then have r: "r bs = Inr (x, rest)" by (auto simp: read_context_def split: sum.splits)
  show "suffix rest bs" using assms r by (rule streaming_suffix)
  fix ext show "read_context r (bs @ ext) = Inr (x, rest @ ext)"
    using streaming_Inr [OF assms r] by (simp add: read_context_def)
next
  fix bs e ext assume "read_context r bs = Inl e" and "\<not> is_eof e"
  then obtain e' where "r bs = Inl e'" and "e = Backtrace e'" and "\<not> is_eof e'"
    by (auto simp: read_context_def split: sum.splits)
  then show "read_context r (bs @ ext) = Inl e"
    using streaming_Inl [OF assms] by (simp add: read_context_def)
qed

lemma streaming_field [streaming_intros]:
  "streaming r \<Longrightarrow> (\<And>x. streaming (f x)) \<Longrightarrow> streaming (field r f)"
  unfolding field_def by (intro streaming_intros)

lemma streaming_bytes [streaming_intros]: "streaming (read_bytes n)"
  by (rule streamingI) (auto simp: read_bytes_def suffix_drop split: if_splits)

lemma streaming_int [streaming_intros]: "streaming (read_int n)"
  unfolding read_int_def by (intro streaming_intros)

lemma streaming_fixed [streaming_intros]:
  "streaming read_u8" "streaming read_u16" "streaming read_u32" "streaming read_u64"
  unfolding read_u8_def read_u16_def read_u32_def read_u64_def by (rule streaming_int)+

lemma streaming_map [streaming_intros]: "streaming r \<Longrightarrow> streaming (read_map f r)"
  unfolding read_map_def by (intro streaming_intros)

lemma streaming_try_map [streaming_intros]: "streaming r \<Longrightarrow> streaming (read_try_map f r)"
  unfolding read_try_map_def
  by (rule streaming_bind) (auto split: sum.split intro: streaming_intros)

lemma streaming_repr [streaming_intros]: "streaming (read_repr f)"
  unfolding read_repr_def
  by (rule streaming_bind) (auto split: option.split intro: streaming_intros)

lemma streaming_if [streaming_intros]: "streaming r \<Longrightarrow> streaming (read_if c r)"
  unfolding read_if_def by (auto intro: streaming_intros)

subsection \<open>Enums: the variant tried is the one the magic byte names\<close>

lemma read_variant_Cons [simp]:
  "read_variant (n, m, r) (b # bs) = (if b = m then r bs else Inl BadMagic)"
  by (simp add: read_variant_def read_magic_def read_bind_def read_return_def wire_simps)

lemma read_variant_Nil [simp]: "read_variant v [] = Inl (Io KUnexpectedEof)"
  by (simp add: read_variant_def read_magic_def read_bind_def read_u8_Nil)

definition variant_of :: "u8 \<Rightarrow> 'a variant list \<Rightarrow> 'a reader option" where
  "variant_of b vs = map_of (map snd vs) b"

lemma try_variants_Nil_eof:
  "vs \<noteq> [] \<or> list_ex (\<lambda>v. is_eof (snd v)) errs
   \<Longrightarrow> \<exists>e. try_variants vs errs [] = Inl e \<and> is_eof e"
proof (induction vs arbitrary: errs)
  case (Cons v vs)
  show ?case using Cons.IH [of "errs @ [(fst v, Io KUnexpectedEof)]"] by simp
qed simp

lemma read_enum_Nil: "vs \<noteq> [] \<Longrightarrow> \<exists>e. read_enum vs [] = Inl e \<and> is_eof e"
  unfolding read_enum_def by (intro try_variants_Nil_eof) simp

text \<open>The list of errors when no variant reads, each variant tried in order.\<close>

fun variant_errors :: "'a variant list \<Rightarrow> bytes \<Rightarrow> (string \<times> bin_error) list" where
  "variant_errors [] bs = []"
| "variant_errors (v # vs) bs =
     (case read_variant v bs of Inr _ \<Rightarrow> [] | Inl e \<Rightarrow> (fst v, e) # variant_errors vs bs)"

lemma try_variants_Cons:
  assumes "distinct (map (\<lambda>v. fst (snd v)) vs)"
  shows "try_variants vs errs (b # bs) =
    (case variant_of b vs of
       Some r \<Rightarrow> (case r bs of Inr v \<Rightarrow> Inr v
                  | Inl e \<Rightarrow> Inl (EnumErrors (errs @ variant_errors vs (b # bs))))
     | None \<Rightarrow> Inl (EnumErrors (errs @ variant_errors vs (b # bs))))"
  using assms
proof (induction vs arbitrary: errs)
  case Nil
  show ?case by (simp add: variant_of_def)
next
  case (Cons v vs)
  obtain n m r where v: "v = (n, m, r)" by (cases v) auto
  show ?case
  proof (cases "b = m")
    case True
    with Cons.prems v have none: "variant_of b vs = None"
      by (auto simp: variant_of_def map_of_eq_None_iff image_iff)
    have IH: "try_variants vs es (b # bs) = Inl (EnumErrors (es @ variant_errors vs (b # bs)))" for es
      using Cons.IH [of es] Cons.prems none by simp
    show ?thesis
      unfolding v using True by (cases "r bs") (simp_all add: variant_of_def IH [unfolded True])
  next
    case False
    have "try_variants (v # vs) errs (b # bs) = try_variants vs (errs @ [(n, BadMagic)]) (b # bs)"
      unfolding v using False by simp
    moreover have "variant_of b (v # vs) = variant_of b vs"
      unfolding v using False by (simp add: variant_of_def)
    moreover have "variant_errors (v # vs) (b # bs) = (n, BadMagic) # variant_errors vs (b # bs)"
      unfolding v using False by simp
    moreover have "distinct (map (\<lambda>v. fst (snd v)) vs)" using Cons.prems by simp
    ultimately show ?thesis using Cons.IH [of "errs @ [(n, BadMagic)]"]
      by (simp del: try_variants.simps variant_errors.simps split: option.split sum.split)
  qed
qed

lemma variant_errors_eof:
  assumes "distinct (map (\<lambda>v. fst (snd v)) vs)"
    and "\<And>r. variant_of b vs = Some r \<Longrightarrow> r bs = Inl e"
  shows "list_ex (\<lambda>v. is_eof (snd v)) (variant_errors vs (b # bs))
     \<longleftrightarrow> variant_of b vs \<noteq> None \<and> is_eof e"
  using assms
proof (induction vs)
  case Nil
  show ?case by (simp add: variant_of_def)
next
  case (Cons v vs)
  obtain n m r where v: "v = (n, m, r)" by (cases v) auto
  show ?case
  proof (cases "b = m")
    case True
    have none: "variant_of b vs = None"
      using Cons.prems(1) v True by (auto simp: variant_of_def map_of_eq_None_iff image_iff)
    have "r bs = Inl e" using Cons.prems(2) v True by (simp add: variant_of_def)
    moreover have "\<not> list_ex (\<lambda>v. is_eof (snd v)) (variant_errors vs (b # bs))"
      using Cons.IH Cons.prems(1) none by simp
    ultimately show ?thesis using v True by (simp add: variant_of_def)
  next
    case False
    have same: "variant_of b (v # vs) = variant_of b vs"
      unfolding v using False by (simp add: variant_of_def)
    have "variant_errors (v # vs) (b # bs) = (n, BadMagic) # variant_errors vs (b # bs)"
      unfolding v using False by simp
    moreover have "distinct (map (\<lambda>v. fst (snd v)) vs)" using Cons.prems by simp
    moreover have "variant_of b vs = Some r \<Longrightarrow> r bs = Inl e" for r
      using Cons.prems(2) same by simp
    ultimately show ?thesis using Cons.IH same by (simp del: variant_errors.simps)
  qed
qed

lemma variant_errors_stable:
  assumes "distinct (map (\<lambda>v. fst (snd v)) vs)"
    and "\<And>r. variant_of b vs = Some r \<Longrightarrow> r bs = Inl e \<and> r bs' = Inl e"
  shows "variant_errors vs (b # bs) = variant_errors vs (b # bs')"
  using assms
proof (induction vs)
  case (Cons v vs)
  obtain n m r where v: "v = (n, m, r)" by (cases v) auto
  have dist: "distinct (map (\<lambda>v. fst (snd v)) vs)" using Cons.prems by simp
  show ?case
  proof (cases "b = m")
    case True
    have none: "variant_of b vs = None"
      using Cons.prems(1) v True by (auto simp: variant_of_def map_of_eq_None_iff image_iff)
    have "r bs = Inl e \<and> r bs' = Inl e" using Cons.prems(2) v True by (simp add: variant_of_def)
    moreover have "variant_errors vs (b # bs) = variant_errors vs (b # bs')"
      using Cons.IH dist none by simp
    ultimately show ?thesis using v True by simp
  next
    case False
    have same: "variant_of b (v # vs) = variant_of b vs"
      unfolding v using False by (simp add: variant_of_def)
    have "variant_errors vs (b # bs) = variant_errors vs (b # bs')"
      by (rule Cons.IH [OF dist]) (use Cons.prems(2) same in simp)
    then show ?thesis using v False by simp
  qed
qed simp

lemma read_enum_Cons:
  assumes "distinct (map (\<lambda>v. fst (snd v)) vs)"
  shows "read_enum vs (b # bs) =
    (case variant_of b vs of
       Some r \<Rightarrow> (case r bs of Inr v \<Rightarrow> Inr v | Inl e \<Rightarrow> Inl (EnumErrors (variant_errors vs (b # bs))))
     | None \<Rightarrow> Inl (EnumErrors (variant_errors vs (b # bs))))"
  using try_variants_Cons [OF assms, of "[]"] by (simp only: read_enum_def append_Nil)

lemma variant_of_in: "variant_of b vs = Some r \<Longrightarrow> \<exists>n. (n, b, r) \<in> set vs"
  unfolding variant_of_def by (drule map_of_SomeD) force

text \<open>An enum with distinct magic bytes and streaming variants is a streaming reader.\<close>

lemma streaming_enum:
  assumes dist: "distinct (map (\<lambda>v. fst (snd v)) vs)" and "vs \<noteq> []"
    and str: "\<And>n m r. (n, m, r) \<in> set vs \<Longrightarrow> streaming r"
  shows "streaming (read_enum vs)"
proof (rule streamingI)
  fix bs x rest assume r: "read_enum vs bs = Inr (x, rest)"
  then obtain b cs v where "bs = b # cs" and "variant_of b vs = Some v" and "v cs = Inr (x, rest)"
    using read_enum_Nil [OF assms(2)]
    by (cases bs) (auto simp: read_enum_Cons [OF dist] split: option.splits sum.splits)
  moreover from this have v: "streaming v" using str by (blast dest: variant_of_in)
  ultimately show "suffix rest bs"
    by (auto intro: suffix_ConsI dest: streaming_suffix)
  fix ext show "read_enum vs (bs @ ext) = Inr (x, rest @ ext)"
    using \<open>bs = b # cs\<close> \<open>variant_of b vs = Some v\<close> streaming_Inr [OF v \<open>v cs = Inr (x, rest)\<close>]
    by (simp add: read_enum_Cons [OF dist])
next
  fix bs e ext assume r: "read_enum vs bs = Inl e" and e: "\<not> is_eof e"
  then obtain b cs where bs: "bs = b # cs"
    using read_enum_Nil [OF assms(2)] by (cases bs) auto
  have err: "e = EnumErrors (variant_errors vs (b # cs))"
    using r bs by (auto simp: read_enum_Cons [OF dist] split: option.splits sum.splits)
  show "read_enum vs (bs @ ext) = Inl e"
  proof (cases "variant_of b vs")
    case None
    then have "variant_errors vs (b # cs) = variant_errors vs (b # cs @ ext)"
      by (intro variant_errors_stable [OF dist]) simp
    with None bs err show ?thesis by (simp add: read_enum_Cons [OF dist])
  next
    case (Some v)
    then have v: "streaming v" using str by (blast dest: variant_of_in)
    obtain e' where e': "v cs = Inl e'"
      using r bs Some by (auto simp: read_enum_Cons [OF dist] split: sum.splits)
    then have "list_ex (\<lambda>v. is_eof (snd v)) (variant_errors vs (b # cs)) \<longleftrightarrow> is_eof e'"
      using Some by (subst variant_errors_eof [OF dist, of b cs e']) auto
    with e err have "\<not> is_eof e'" by simp
    with e' v have ext: "v (cs @ ext) = Inl e'" by (blast intro: streaming_Inl)
    with Some e' have "variant_errors vs (b # cs) = variant_errors vs (b # cs @ ext)"
      by (intro variant_errors_stable [OF dist, where e = e']) simp
    with Some bs err ext show ?thesis by (simp add: read_enum_Cons [OF dist])
  qed
qed

end
