(* ===== verification/Fs_Types.thy ===== *)
theory Fs_Types
  imports Binrw
begin

text \<open>
  The data of \<open>fs/mod.rs\<close>: file types with their one-byte codes, directory entries with their
  packed form, file attributes, filesystem statistics, and the conversion between
  \<open>SystemTime\<close> and Unix seconds.
\<close>

subsection \<open>File types\<close>

datatype file_type =
    Pipe | CharDevice | BlockDevice | Directory | RegularFile | Symlink | Socket

text \<open>\<open>ft as u8\<close>\<close>

fun file_type_code :: "file_type \<Rightarrow> u8" where
  "file_type_code Pipe = 0"
| "file_type_code CharDevice = 1"
| "file_type_code BlockDevice = 2"
| "file_type_code Directory = 3"
| "file_type_code RegularFile = 4"
| "file_type_code Symlink = 5"
| "file_type_code Socket = 6"

definition file_type_try_from :: "u8 \<Rightarrow> bin_error + file_type" where
  "file_type_try_from value =
     (if value = 0 then Inr Pipe
      else if value = 1 then Inr CharDevice
      else if value = 2 then Inr BlockDevice
      else if value = 3 then Inr Directory
      else if value = 4 then Inr RegularFile
      else if value = 5 then Inr Symlink
      else if value = 6 then Inr Socket
      else Inl NoVariantMatch)"

lemma file_type_try_from_code [simp]: "file_type_try_from (file_type_code t) = Inr t"
  by (cases t) (simp_all add: file_type_try_from_def)

lemma file_type_try_from_Inr:
  "file_type_try_from b = Inr t \<Longrightarrow> b = file_type_code t"
  by (auto simp: file_type_try_from_def split: if_splits)

text \<open>
  \<open>std::fs::FileType\<close> is the type field of \<open>st_mode\<close>; its predicates compare the bits under
  \<open>S_IFMT\<close>. The conversion panics on a type it does not know.
\<close>

definition S_IFMT :: u32 where "S_IFMT = 0xF000"
definition S_IFIFO :: u32 where "S_IFIFO = 0x1000"
definition S_IFCHR :: u32 where "S_IFCHR = 0x2000"
definition S_IFDIR :: u32 where "S_IFDIR = 0x4000"
definition S_IFBLK :: u32 where "S_IFBLK = 0x6000"
definition S_IFREG :: u32 where "S_IFREG = 0x8000"
definition S_IFLNK :: u32 where "S_IFLNK = 0xA000"
definition S_IFSOCK :: u32 where "S_IFSOCK = 0xC000"

lemmas mode_defs = S_IFMT_def S_IFIFO_def S_IFCHR_def S_IFDIR_def S_IFBLK_def S_IFREG_def
  S_IFLNK_def S_IFSOCK_def

definition mode_is :: "u32 \<Rightarrow> u32 \<Rightarrow> bool" where
  "mode_is t mode \<longleftrightarrow> mode AND S_IFMT = t"

definition file_type_from_std :: "u32 \<Rightarrow> file_type option" where
  "file_type_from_std mode =
     (if mode_is S_IFIFO mode then Some Pipe
      else if mode_is S_IFCHR mode then Some CharDevice
      else if mode_is S_IFBLK mode then Some BlockDevice
      else if mode_is S_IFDIR mode then Some Directory
      else if mode_is S_IFREG mode then Some RegularFile
      else if mode_is S_IFLNK mode then Some Symlink
      else if mode_is S_IFSOCK mode then Some Socket
      else None)"

lemma file_type_from_std_dir:
  "file_type_from_std mode = Some Directory \<longleftrightarrow> mode_is S_IFDIR mode"
  by (auto simp: file_type_from_std_def mode_is_def mode_defs)

subsection \<open>Unix seconds\<close>

text \<open>
  \<open>to_unix\<close> clamps times before the epoch to 0 (\<open>unwrap_or_default\<close>) and drops the
  nanoseconds; \<open>from_unix\<close> panics (\<open>None\<close>) on seconds that do not fit \<open>SystemTime\<close>.
\<close>

definition to_unix :: "system_time \<Rightarrow> u64" where
  "to_unix t = (case secs_since_epoch t of None \<Rightarrow> 0 | Some s \<Rightarrow> s)"

definition from_unix :: "u64 \<Rightarrow> system_time option" where
  "from_unix secs = epoch_plus_secs secs"

text \<open>What a time becomes on its way over the wire.\<close>

definition wire_time :: "system_time \<Rightarrow> system_time" where
  "wire_time t = (if t < 0 then 0 else t div nanos_per_sec * nanos_per_sec)"

lemma to_unix_small:
  assumes "valid_time t" shows "unat (to_unix t) < 2 ^ 63"
proof (cases "t < 0")
  case True
  then show ?thesis by (simp add: to_unix_def secs_since_epoch_def)
next
  case False
  then have nonneg: "0 \<le> t div nanos_per_sec"
    by (simp add: nanos_per_sec_def)
  with assms have "uint (word_of_int (t div nanos_per_sec) :: u64) = t div nanos_per_sec"
    by (simp add: valid_time_def uint_word_of_int_eq take_bit_int_eq_self)
  with False nonneg assms show ?thesis
    by (simp add: to_unix_def secs_since_epoch_def valid_time_def unat_eq_nat_uint nat_less_iff)
qed

lemma from_unix_to_unix:
  assumes "valid_time t" shows "from_unix (to_unix t) = Some (wire_time t)"
proof (cases "t < 0")
  case True
  then show ?thesis
    by (simp add: to_unix_def secs_since_epoch_def from_unix_def epoch_plus_secs_def wire_time_def)
next
  case False
  then have nonneg: "0 \<le> t div nanos_per_sec"
    by (simp add: nanos_per_sec_def)
  with assms have "uint (word_of_int (t div nanos_per_sec) :: u64) = t div nanos_per_sec"
    by (simp add: valid_time_def uint_word_of_int_eq take_bit_int_eq_self)
  with False to_unix_small [OF assms] show ?thesis
    by (simp add: to_unix_def secs_since_epoch_def from_unix_def epoch_plus_secs_def wire_time_def)
qed

lemma to_unix_from_unix:
  assumes "from_unix s = Some t" shows "to_unix t = s"
  using assms
  by (auto simp: from_unix_def epoch_plus_secs_def to_unix_def secs_since_epoch_def
      nanos_per_sec_def mult_less_0_iff split: if_splits)

subsection \<open>Directory entries\<close>

record dir_entry =
  de_inode :: u64
  de_file_type :: file_type
  de_filename :: bytes

definition read_dir_entry :: "dir_entry reader" where
  "read_dir_entry =
     field read_u64 (\<lambda>inode.
     field (read_try_map file_type_try_from read_u8) (\<lambda>file_type.
     field read_u8 (\<lambda>filename_len.
     field (read_bytes (unat filename_len)) (\<lambda>filename.
     read_return \<lparr>de_inode = inode, de_file_type = file_type, de_filename = filename\<rparr>))))"

definition write_dir_entry :: "dir_entry \<Rightarrow> bytes" where
  "write_dir_entry e =
     write_u64 (de_inode e)
   @ write_u8 (file_type_code (de_file_type e))
   @ write_u8 (of_nat (length (de_filename e)))
   @ de_filename e"

text \<open>The entry survives its one-byte length field.\<close>

definition wf_dir_entry :: "dir_entry \<Rightarrow> bool" where
  "wf_dir_entry e \<longleftrightarrow> length (de_filename e) < 256"

lemma unat_of_nat_u8: "n < 256 \<Longrightarrow> unat (of_nat n :: u8) = n"
  by (simp add: unat_of_nat take_bit_nat_eq_self)

lemma read_dir_entry_write:
  "wf_dir_entry e \<Longrightarrow> read_dir_entry (write_dir_entry e @ rest) = Inr (e, rest)"
  by (simp add: read_dir_entry_def write_dir_entry_def wf_dir_entry_def wire_simps unat_of_nat_u8)

lemma streaming_dir_entry: "streaming read_dir_entry"
  unfolding read_dir_entry_def by (intro streaming_intros)

subsection \<open>Attributes and statistics\<close>

record file_attr =
  fa_file_type :: file_type
  fa_size :: u64
  fa_blocks :: u64
  fa_access_time :: system_time
  fa_modification_time :: system_time
  fa_change_time :: system_time
  fa_permissions :: u16
  fa_n_hard_links :: u32
  fa_uid :: u32
  fa_gid :: u32
  fa_rdev :: u32
  fa_block_size :: u32

record fs_stats =
  st_block_size :: u32
  st_total_blocks :: u64
  st_free_blocks :: u64
  st_avail_blocks :: u64
  st_total_inodes :: u64
  st_free_inodes :: u64
  st_max_filename_len :: u32
  st_fragment_size :: u32

end
