(* ===== verification/Wire.thy ===== *)
theory Wire
  imports Messages
begin

text \<open>
  The wire layout of the messages, as the attributes of \<open>protocol/messages.rs\<close> declare it:
  a magic byte, then the fields big-endian in source order. Every \<open>temp\<close>/\<open>calc\<close> length is
  the truncated length the writer computes (\<open>as u8\<close>, \<open>as u16\<close>, \<open>as u32\<close>).
\<close>

subsection \<open>Packed flags\<close>

text \<open>A flag in the top bit: \<open>(b as u8) << 7\<close> and \<open>b >> 7 != 0\<close>.\<close>

definition pack_flag :: "bool \<Rightarrow> u8" where
  "pack_flag b = push_bit 7 (if b then 1 else 0)"

definition unpack_flag :: "u8 \<Rightarrow> bool" where
  "unpack_flag b \<longleftrightarrow> drop_bit 7 b \<noteq> 0"

text \<open>The field mask of \<open>SET_ATTR_REQ\<close>: bit \<open>k\<close> for the \<open>k\<close>-th optional field, in the top six bits.\<close>

definition mask_bit :: "nat \<Rightarrow> bool \<Rightarrow> u8" where
  "mask_bit k present = (if present then push_bit k 1 else 0)"

definition set_attr_mask :: "bool \<Rightarrow> bool \<Rightarrow> bool \<Rightarrow> bool \<Rightarrow> bool \<Rightarrow> bool \<Rightarrow> u8" where
  "set_attr_mask sz at mt pm ui gi =
     push_bit 2 (((((mask_bit 0 sz OR mask_bit 1 at) OR mask_bit 2 mt) OR mask_bit 3 pm)
       OR mask_bit 4 ui) OR mask_bit 5 gi)"

definition mask_has :: "u8 \<Rightarrow> nat \<Rightarrow> bool" where
  "mask_has m k \<longleftrightarrow> m AND push_bit k 1 \<noteq> 0"

lemma unpack_pack_flag [simp]: "unpack_flag (pack_flag b) = b"
  by (cases b) (simp_all add: unpack_flag_def pack_flag_def)

lemma set_attr_mask_bits [simp]:
  "mask_has (drop_bit 2 (set_attr_mask sz at mt pm ui gi)) 0 = sz"
  "mask_has (drop_bit 2 (set_attr_mask sz at mt pm ui gi)) (Suc 0) = at"
  "mask_has (drop_bit 2 (set_attr_mask sz at mt pm ui gi)) 2 = mt"
  "mask_has (drop_bit 2 (set_attr_mask sz at mt pm ui gi)) 3 = pm"
  "mask_has (drop_bit 2 (set_attr_mask sz at mt pm ui gi)) 4 = ui"
  "mask_has (drop_bit 2 (set_attr_mask sz at mt pm ui gi)) 5 = gi"
  by (cases sz; cases at; cases mt; cases pm; cases ui; cases gi;
      simp add: set_attr_mask_def mask_bit_def mask_has_def)+

subsection \<open>Readers\<close>

definition read_error_msg :: "message reader" where
  "read_error_msg =
     field read_u32 (\<lambda>request_id.
     field (read_repr error_code_of_repr) (\<lambda>error_code.
     field read_u16 (\<lambda>message_len.
     field (read_try_map (\<lambda>v. if utf8_valid v then Inr v else Inl ()) (read_bytes (unat message_len))) (\<lambda>msg.
     read_return (Error request_id error_code msg)))))"

definition read_init_req :: "message reader" where
  "read_init_req =
     field read_u32 (\<lambda>request_id.
     field (read_map (drop_bit 4) read_u8) (\<lambda>version.
     read_return (InitReq request_id version)))"

definition read_init_res :: "message reader" where
  "read_init_res =
     field read_u32 (\<lambda>request_id.
     field (read_map unpack_flag read_u8) (\<lambda>accepted.
     read_return (InitRes request_id accepted)))"

definition read_lookup_req :: "message reader" where
  "read_lookup_req =
     field read_u32 (\<lambda>request_id.
     field read_u64 (\<lambda>dir_inode.
     field read_u8 (\<lambda>filename_len.
     field (read_bytes (unat filename_len)) (\<lambda>filename.
     read_return (LookupReq request_id dir_inode filename)))))"

definition read_lookup_res :: "message reader" where
  "read_lookup_res =
     field read_u32 (\<lambda>request_id. field read_u64 (\<lambda>inode. read_return (LookupRes request_id inode)))"

definition read_get_attr_req :: "message reader" where
  "read_get_attr_req =
     field read_u32 (\<lambda>request_id. field read_u64 (\<lambda>inode. read_return (GetAttrReq request_id inode)))"

definition read_file_attr_res :: "message reader" where
  "read_file_attr_res =
     field read_u32 (\<lambda>request_id.
     field (read_try_map (\<lambda>b. file_type_try_from (drop_bit 5 b)) read_u8) (\<lambda>file_type.
     field read_u64 (\<lambda>size.
     field read_u64 (\<lambda>blocks.
     field read_u64 (\<lambda>atime.
     field read_u64 (\<lambda>mtime.
     field read_u64 (\<lambda>ctime.
     field read_u16 (\<lambda>permissions.
     field read_u32 (\<lambda>nlinks.
     field read_u32 (\<lambda>uid.
     field read_u32 (\<lambda>gid.
     field read_u32 (\<lambda>rdev.
     field read_u32 (\<lambda>blksize.
     read_return (FileAttrRes request_id file_type size blocks atime mtime ctime permissions
       nlinks uid gid rdev blksize))))))))))))))"

definition read_set_attr_req :: "message reader" where
  "read_set_attr_req =
     field read_u32 (\<lambda>request_id.
     field read_u64 (\<lambda>inode.
     field (read_map (drop_bit 2) read_u8) (\<lambda>field_mask.
     field (read_if (mask_has field_mask 0) read_u64) (\<lambda>size.
     field (read_if (mask_has field_mask 1) read_u64) (\<lambda>atime.
     field (read_if (mask_has field_mask 2) read_u64) (\<lambda>mtime.
     field (read_if (mask_has field_mask 3) read_u16) (\<lambda>permissions.
     field (read_if (mask_has field_mask 4) read_u32) (\<lambda>uid.
     field (read_if (mask_has field_mask 5) read_u32) (\<lambda>gid.
     read_return (SetAttrReq request_id inode size atime mtime permissions uid gid))))))))))"

definition read_success_res :: "message reader" where
  "read_success_res = field read_u32 (\<lambda>request_id. read_return (SuccessRes request_id))"

definition read_stats_req :: "message reader" where
  "read_stats_req = field read_u32 (\<lambda>request_id. read_return (StatsReq request_id))"

definition read_stats_res :: "message reader" where
  "read_stats_res =
     field read_u32 (\<lambda>request_id.
     field read_u32 (\<lambda>blksize.
     field read_u64 (\<lambda>blocks.
     field read_u64 (\<lambda>free_blocks.
     field read_u64 (\<lambda>avail_blocks.
     field read_u64 (\<lambda>total_inodes.
     field read_u64 (\<lambda>free_inodes.
     field read_u32 (\<lambda>max_filename_len.
     field read_u32 (\<lambda>fragment_size.
     read_return (StatsRes request_id blksize blocks free_blocks avail_blocks total_inodes
       free_inodes max_filename_len fragment_size))))))))))"

definition read_create_req :: "message reader" where
  "read_create_req =
     field read_u32 (\<lambda>request_id.
     field read_u64 (\<lambda>dir_inode.
     field read_u16 (\<lambda>permissions.
     field read_u32 (\<lambda>unix_flags.
     field (read_map unpack_flag read_u8) (\<lambda>is_directory.
     field read_u8 (\<lambda>filename_len.
     field (read_bytes (unat filename_len)) (\<lambda>filename.
     read_return (CreateReq request_id dir_inode permissions unix_flags is_directory filename))))))))"

definition read_read_req :: "message reader" where
  "read_read_req =
     field read_u32 (\<lambda>request_id.
     field read_u64 (\<lambda>inode.
     field read_u64 (\<lambda>offset.
     field read_u64 (\<lambda>len.
     read_return (ReadReq request_id inode offset len)))))"

definition read_read_res :: "message reader" where
  "read_read_res =
     field read_u32 (\<lambda>request_id.
     field read_u64 (\<lambda>total_length.
     field read_u16 (\<lambda>chunk_length.
     field read_u64 (\<lambda>chunk_offset.
     field (read_bytes (unat chunk_length)) (\<lambda>data.
     read_return (ReadRes request_id total_length chunk_offset data))))))"

definition read_write_req :: "message reader" where
  "read_write_req =
     field read_u32 (\<lambda>request_id.
     field read_u64 (\<lambda>inode.
     field read_u64 (\<lambda>offset.
     field read_u32 (\<lambda>len.
     field (read_bytes (unat len)) (\<lambda>data.
     read_return (WriteReq request_id inode offset data))))))"

definition read_readdir_req :: "message reader" where
  "read_readdir_req =
     field read_u32 (\<lambda>request_id. field read_u64 (\<lambda>inode. read_return (ReaddirReq request_id inode)))"

definition read_rm_req :: "message reader" where
  "read_rm_req =
     field read_u32 (\<lambda>request_id. field read_u64 (\<lambda>inode. read_return (RmReq request_id inode)))"

definition read_move_req :: "message reader" where
  "read_move_req =
     field read_u32 (\<lambda>request_id.
     field read_u64 (\<lambda>inode.
     field read_u64 (\<lambda>dest_dir_inode.
     field read_u8 (\<lambda>dest_filename_len.
     field (read_bytes (unat dest_filename_len)) (\<lambda>dest_filename.
     read_return (MoveReq request_id inode dest_dir_inode dest_filename))))))"

definition message_variants :: "message variant list" where
  "message_variants =
    [(''Error'', 0x00, read_error_msg), (''InitReq'', 0x01, read_init_req),
     (''InitRes'', 0x02, read_init_res), (''LookupReq'', 0x03, read_lookup_req),
     (''LookupRes'', 0x04, read_lookup_res), (''GetAttrReq'', 0x05, read_get_attr_req),
     (''FileAttrRes'', 0x06, read_file_attr_res), (''SetAttrReq'', 0x07, read_set_attr_req),
     (''SuccessRes'', 0x08, read_success_res), (''StatsReq'', 0x09, read_stats_req),
     (''StatsRes'', 0x0A, read_stats_res), (''CreateReq'', 0x0B, read_create_req),
     (''ReadReq'', 0x0C, read_read_req), (''ReadRes'', 0x0D, read_read_res),
     (''WriteReq'', 0x0E, read_write_req), (''ReaddirReq'', 0x0F, read_readdir_req),
     (''RmReq'', 0x10, read_rm_req), (''MoveReq'', 0x11, read_move_req)]"

definition read_message :: "message reader" where
  "read_message = read_enum message_variants"

lemmas read_variant_defs =
  read_error_msg_def read_init_req_def read_init_res_def read_lookup_req_def read_lookup_res_def
  read_get_attr_req_def read_file_attr_res_def read_set_attr_req_def read_success_res_def
  read_stats_req_def read_stats_res_def read_create_req_def read_read_req_def read_read_res_def
  read_write_req_def read_readdir_req_def read_rm_req_def read_move_req_def

subsection \<open>Writer\<close>

fun write_message :: "message \<Rightarrow> bytes" where
  "write_message (Error rid code msg) =
     0x00 # write_u32 rid @ write_u8 (error_code_repr code) @ write_u16 (of_nat (length msg)) @ msg"
| "write_message (InitReq rid version) = 0x01 # write_u32 rid @ write_u8 (push_bit 4 version)"
| "write_message (InitRes rid accepted) = 0x02 # write_u32 rid @ write_u8 (pack_flag accepted)"
| "write_message (LookupReq rid dir filename) =
     0x03 # write_u32 rid @ write_u64 dir @ write_u8 (of_nat (length filename)) @ filename"
| "write_message (LookupRes rid inode) = 0x04 # write_u32 rid @ write_u64 inode"
| "write_message (GetAttrReq rid inode) = 0x05 # write_u32 rid @ write_u64 inode"
| "write_message (FileAttrRes rid ft sz blocks atime mtime ctime perms nlinks uid gid rdev blksize) =
     0x06 # write_u32 rid @ write_u8 (push_bit 5 (file_type_code ft)) @ write_u64 sz
     @ write_u64 blocks @ write_u64 atime @ write_u64 mtime @ write_u64 ctime @ write_u16 perms
     @ write_u32 nlinks @ write_u32 uid @ write_u32 gid @ write_u32 rdev @ write_u32 blksize"
| "write_message (SetAttrReq rid inode sz atime mtime perms uid gid) =
     0x07 # write_u32 rid @ write_u64 inode
     @ write_u8 (set_attr_mask (is_some sz) (is_some atime) (is_some mtime) (is_some perms)
         (is_some uid) (is_some gid))
     @ write_opt write_u64 sz @ write_opt write_u64 atime @ write_opt write_u64 mtime
     @ write_opt write_u16 perms @ write_opt write_u32 uid @ write_opt write_u32 gid"
| "write_message (SuccessRes rid) = 0x08 # write_u32 rid"
| "write_message (StatsReq rid) = 0x09 # write_u32 rid"
| "write_message (StatsRes rid blksize blocks free avail inodes ifree name frag) =
     0x0A # write_u32 rid @ write_u32 blksize @ write_u64 blocks @ write_u64 free @ write_u64 avail
     @ write_u64 inodes @ write_u64 ifree @ write_u32 name @ write_u32 frag"
| "write_message (CreateReq rid dir perms flags isdir filename) =
     0x0B # write_u32 rid @ write_u64 dir @ write_u16 perms @ write_u32 flags
     @ write_u8 (pack_flag isdir) @ write_u8 (of_nat (length filename)) @ filename"
| "write_message (ReadReq rid inode offset len) =
     0x0C # write_u32 rid @ write_u64 inode @ write_u64 offset @ write_u64 len"
| "write_message (ReadRes rid total_len offset data) =
     0x0D # write_u32 rid @ write_u64 total_len @ write_u16 (of_nat (length data)) @ write_u64 offset @ data"
| "write_message (WriteReq rid inode offset data) =
     0x0E # write_u32 rid @ write_u64 inode @ write_u64 offset
     @ write_u32 (of_nat (length data)) @ data"
| "write_message (ReaddirReq rid inode) = 0x0F # write_u32 rid @ write_u64 inode"
| "write_message (RmReq rid inode) = 0x10 # write_u32 rid @ write_u64 inode"
| "write_message (MoveReq rid inode dir filename) =
     0x11 # write_u32 rid @ write_u64 inode @ write_u64 dir
     @ write_u8 (of_nat (length filename)) @ filename"

text \<open>The messages whose fields fit the wire.\<close>

fun wf_message :: "message \<Rightarrow> bool" where
  "wf_message (Error _ _ msg) = (length msg < 65536 \<and> utf8_valid msg)"
| "wf_message (InitReq _ version) = (unat version < 16)"
| "wf_message (LookupReq _ _ filename) = (length filename < 256)"
| "wf_message (CreateReq _ _ _ _ _ filename) = (length filename < 256)"
| "wf_message (ReadRes _ _ _ data) = (length data < 65536)"
| "wf_message (WriteReq _ _ _ data) = (length data < 4294967296)"
| "wf_message (MoveReq _ _ _ filename) = (length filename < 256)"
| "wf_message _ = True"

subsection \<open>The variants are told apart by their magic byte\<close>

lemma message_variants_distinct: "distinct (map (\<lambda>v. fst (snd v)) message_variants)"
  by (simp add: message_variants_def)

lemma message_variants_nonempty [simp]: "message_variants \<noteq> []"
  by (simp add: message_variants_def)

lemma read_message_Cons:
  "read_message (b # bs) =
    (case variant_of b message_variants of
       Some r \<Rightarrow> (case r bs of Inr v \<Rightarrow> Inr v
                  | Inl e \<Rightarrow> Inl (EnumErrors (variant_errors message_variants (b # bs))))
     | None \<Rightarrow> Inl (EnumErrors (variant_errors message_variants (b # bs))))"
  unfolding read_message_def by (rule read_enum_Cons [OF message_variants_distinct])

lemma variant_of_message [simp]:
  "variant_of 0x00 message_variants = Some read_error_msg"
  "variant_of 0x01 message_variants = Some read_init_req"
  "variant_of 0x02 message_variants = Some read_init_res"
  "variant_of 0x03 message_variants = Some read_lookup_req"
  "variant_of 0x04 message_variants = Some read_lookup_res"
  "variant_of 0x05 message_variants = Some read_get_attr_req"
  "variant_of 0x06 message_variants = Some read_file_attr_res"
  "variant_of 0x07 message_variants = Some read_set_attr_req"
  "variant_of 0x08 message_variants = Some read_success_res"
  "variant_of 0x09 message_variants = Some read_stats_req"
  "variant_of 0x0A message_variants = Some read_stats_res"
  "variant_of 0x0B message_variants = Some read_create_req"
  "variant_of 0x0C message_variants = Some read_read_req"
  "variant_of 0x0D message_variants = Some read_read_res"
  "variant_of 0x0E message_variants = Some read_write_req"
  "variant_of 0x0F message_variants = Some read_readdir_req"
  "variant_of 0x10 message_variants = Some read_rm_req"
  "variant_of 0x11 message_variants = Some read_move_req"
  by (simp_all add: variant_of_def message_variants_def)

lemma read_message_variant:
  "variant_of b message_variants = Some r \<Longrightarrow> r bs = Inr v \<Longrightarrow> read_message (b # bs) = Inr v"
  by (simp add: read_message_Cons)

lemma read_message_InrE:
  assumes "read_message bs = Inr (m, rest)"
  obtains n b r cs where "bs = b # cs" and "(n, b, r) \<in> set message_variants"
    and "r cs = Inr (m, rest)"
proof (cases bs)
  case Nil
  then show ?thesis
    using assms read_enum_Nil [of message_variants] by (auto simp: read_message_def)
next
  case (Cons b cs)
  with assms that show ?thesis
    by (auto simp: read_message_Cons split: option.splits sum.splits dest!: variant_of_in)
qed

subsection \<open>Streaming\<close>

lemma streaming_read_message: "streaming read_message"
  unfolding read_message_def
proof (rule streaming_enum [OF message_variants_distinct])
  fix n m r assume "(n, m, r) \<in> set message_variants"
  then show "streaming r"
    by (auto simp: message_variants_def read_variant_defs intro!: streaming_intros)
qed simp

subsection \<open>Round trip\<close>

lemma unat_of_nat_u16: "n < 65536 \<Longrightarrow> unat (of_nat n :: u16) = n"
  by (simp add: unat_of_nat take_bit_nat_eq_self)

lemma unat_of_nat_u32: "n < 4294967296 \<Longrightarrow> unat (of_nat n :: u32) = n"
  by (simp add: unat_of_nat take_bit_nat_eq_self)

lemma version_nibble: "unat (v :: u8) < 16 \<Longrightarrow> drop_bit 4 (push_bit 4 v) = v"
  by (rule word_unat_eq_iff [THEN iffD2])
     (simp add: unsigned_drop_bit_eq unsigned_push_bit_eq,
      simp add: drop_bit_eq_div push_bit_eq_mult take_bit_nat_eq_self)

lemma file_type_bits [simp]: "drop_bit 5 (push_bit 5 (file_type_code t)) = file_type_code t"
  by (cases t) simp_all

lemmas length_field_simps = unat_of_nat_u8 unat_of_nat_u16 unat_of_nat_u32 version_nibble

lemma read_write_message:
  assumes "wf_message m"
  shows "read_message (write_message m @ rest) = Inr (m, rest)"
  using assms
  by (cases m)
     (simp_all add: read_message_variant read_variant_defs wire_simps length_field_simps)

subsection \<open>What a successful read says about the message and the bytes it took\<close>

named_theorems taken \<open>what a successful read of one field says of the value and the length\<close>

lemma field_InrE:
  assumes "field r f bs = Inr (y, rest)"
  obtains x mid where "r bs = Inr (x, mid)" and "f x mid = Inr (y, rest)"
  using assms by (auto simp: field_def read_bind_def read_context_def split: sum.splits prod.splits)

lemma taken_bytes [taken]:
  "read_bytes n bs = Inr (v, rest) \<Longrightarrow> length v = n \<and> length bs = n + length rest"
  by (auto simp: read_bytes_def split: if_splits)

lemma taken_int: "read_int n bs = Inr (v, rest) \<Longrightarrow> length bs = n + length rest"
  by (auto simp: read_int_def read_bind_def read_return_def split: sum.splits dest!: taken_bytes)

lemma taken_u8 [taken]: "read_u8 bs = Inr (a, rest) \<Longrightarrow> length bs = 1 + length rest"
  and taken_u16 [taken]: "read_u16 bs = Inr (b, rest) \<Longrightarrow> length bs = 2 + length rest"
  and taken_u32 [taken]: "read_u32 bs = Inr (c, rest) \<Longrightarrow> length bs = 4 + length rest"
  and taken_u64 [taken]: "read_u64 bs = Inr (d, rest) \<Longrightarrow> length bs = 8 + length rest"
  unfolding read_u8_def read_u16_def read_u32_def read_u64_def by (rule taken_int, assumption)+

lemma taken_repr [taken]: "read_repr f bs = Inr (v, rest) \<Longrightarrow> length bs = 1 + length rest"
  by (auto simp: read_repr_def read_bind_def read_return_def split: sum.splits option.splits
      dest!: taken_u8)

lemma taken_map [taken]:
  "read_map f r bs = Inr (v, rest) \<Longrightarrow> \<exists>x. r bs = Inr (x, rest) \<and> v = f x"
  by (auto simp: read_map_def read_bind_def read_return_def split: sum.splits)

lemma taken_try_map [taken]:
  "read_try_map f r bs = Inr (v, rest) \<Longrightarrow> \<exists>x. r bs = Inr (x, rest) \<and> f x = Inr v"
  by (auto simp: read_try_map_def read_bind_def read_return_def split: sum.splits)

lemma taken_if [taken]:
  "read_if c r bs = Inr (v, rest) \<Longrightarrow>
     (case v of None \<Rightarrow> rest = bs | Some x \<Rightarrow> r bs = Inr (x, rest))"
  by (auto simp: read_if_def read_map_def read_bind_def read_return_def split: sum.splits if_splits)

lemma taken_return [taken]: "read_return x bs = Inr (v, rest) \<Longrightarrow> v = x \<and> rest = bs"
  by (simp add: read_return_def)

lemma length_write_opt [simp]:
  "length (write_opt w (Some x)) = length (w x)" "length (write_opt w None) = 0"
  by simp_all

lemma nibble_less: "unat (drop_bit 4 (b :: u8)) < 16"
proof -
  have "unat b < 256" using unsigned_less [of b] by simp
  then show ?thesis
    by (simp add: unsigned_drop_bit_eq take_bit_nat_eq_self, simp add: drop_bit_eq_div)
qed

lemma unat_u8_less: "unat (b :: u8) < 256" and unat_u16_less: "unat (c :: u16) < 65536"
  and unat_u32_less: "unat (d :: u32) < 4294967296"
  using unsigned_less [of b] unsigned_less [of c] unsigned_less [of d] by simp_all

lemma read_variant_taken:
  assumes "(n, b, r) \<in> set message_variants" and "r cs = Inr (m, rest)"
  shows "wf_message m \<and> length cs + 1 = length (write_message m) + length rest"
  using assms
  by (auto simp: message_variants_def read_variant_defs nibble_less unat_u8_less unat_u16_less
      unat_u32_less elim!: field_InrE dest!: taken split: option.splits if_splits)

lemma read_message_taken:
  assumes "read_message bs = Inr (m, rest)"
  shows "wf_message m" and "length bs = length (write_message m) + length rest"
  using assms read_variant_taken by (force elim!: read_message_InrE)+

end
