(* ===== verification/Codec.thy ===== *)
theory Codec
  imports Wire
begin

text \<open>
  \<open>protocol/codec.rs\<close> and \<open>protocol/dir_entry.rs\<close>: decoding one message from a buffer,
  encoding one into a buffer, and the packed directory listing. Both formats are instances
  of one interface, \<open>framed\<close>, of self-delimiting items: what is written is read back, a cut
  item is recognised as incomplete, and a sequence of items has only one reading.
\<close>

subsection \<open>Self-delimiting items\<close>

locale framed =
  fixes rd :: "'a reader" and wr :: "'a \<Rightarrow> bytes" and wf :: "'a \<Rightarrow> bool"
  assumes str: "streaming rd"
    and rd_wr: "wf x \<Longrightarrow> rd (wr x @ rest) = Inr (x, rest)"
    and consumes: "rd bs = Inr (x, rest) \<Longrightarrow> length rest < length bs"
begin

lemma wr_nonempty:
  assumes "wf x" shows "wr x \<noteq> []"
  using consumes [OF rd_wr [OF assms, of "[]"]] by fastforce

lemma cut_wants_more: "wf x \<Longrightarrow> strict_prefix p (wr x) \<Longrightarrow> wants_more (rd p)"
  by (rule streaming_cut [OF str rd_wr]; assumption)

lemma unique_item:
  assumes "wf x" and "wf y" and "wr x @ r = wr y @ s"
  shows "x = y \<and> r = s"
proof -
  have "Inr (x, r) = rd (wr x @ r)" by (rule rd_wr [OF assms(1), symmetric])
  also have "\<dots> = rd (wr y @ s)" by (rule arg_cong [OF assms(3)])
  also have "\<dots> = Inr (y, s)" by (rule rd_wr [OF assms(2)])
  finally show ?thesis by simp
qed

lemma unique_items:
  assumes "list_all wf xs" and "list_all wf ys"
    and "concat (map wr xs) = concat (map wr ys)"
  shows "xs = ys"
  using assms
proof (induction xs arbitrary: ys)
  case Nil
  then show ?case by (cases ys) (auto dest: wr_nonempty)
next
  case (Cons x xs)
  then obtain y zs where ys: "ys = y # zs"
    by (cases ys) (auto dest: wr_nonempty)
  with Cons.prems have "x = y \<and> concat (map wr xs) = concat (map wr zs)"
    by (intro unique_item) auto
  with Cons ys show ?case by simp
qed

end

lemma read_dir_entry_consumes:
  "read_dir_entry bs = Inr (e, rest) \<Longrightarrow> length bs = length (write_dir_entry e) + length rest"
  by (auto simp: read_dir_entry_def write_dir_entry_def elim!: field_InrE dest!: taken)

lemma read_dir_entry_wf: "read_dir_entry bs = Inr (e, rest) \<Longrightarrow> wf_dir_entry e"
  by (auto simp: read_dir_entry_def wf_dir_entry_def unat_u8_less elim!: field_InrE dest!: taken)

lemma length_write_message_pos: "0 < length (write_message m)"
  by (cases m) simp_all

interpretation msg: framed read_message write_message wf_message
proof unfold_locales
  fix bs m rest assume "read_message bs = Inr (m, rest)"
  then have "length bs = length (write_message m) + length rest" by (rule read_message_taken(2))
  with length_write_message_pos [of m] show "length rest < length bs" by simp
qed (rule streaming_read_message, rule read_write_message)

interpretation ent: framed read_dir_entry write_dir_entry wf_dir_entry
proof unfold_locales
  fix bs e rest assume "read_dir_entry bs = Inr (e, rest)"
  then have "length bs = length (write_dir_entry e) + length rest" by (rule read_dir_entry_consumes)
  then show "length rest < length bs" by (simp add: write_dir_entry_def)
qed (rule streaming_dir_entry, rule read_dir_entry_write)

subsection \<open>The message codec\<close>

text \<open>
  \<open>Decoder::decode\<close>: a message and the buffer advanced past it; \<open>None\<close> with the buffer
  untouched when more bytes are needed; any other read error is the decoder's error.
\<close>

definition decode :: "bytes \<Rightarrow> (bin_error + message option) \<times> bytes" where
  "decode src = (case read_message src of
      Inr (m, rest) \<Rightarrow> (Inr (Some m), rest)
    | Inl e \<Rightarrow> if is_eof e then (Inr None, src) else (Inl e, src))"

text \<open>\<open>Encoder::encode\<close> appends to the buffer; writing to a vector does not fail.\<close>

definition encode :: "message \<Rightarrow> bytes \<Rightarrow> bin_error + bytes" where
  "encode m dst = Inr (dst @ write_message m)"

lemma decode_Some: "decode buf = (Inr (Some m), rest) \<longleftrightarrow> read_message buf = Inr (m, rest)"
  by (auto simp: decode_def split: sum.splits if_splits)

lemma decode_shorter: "decode buf = (Inr (Some m), rest) \<Longrightarrow> length rest < length buf"
  unfolding decode_Some by (rule msg.consumes)

lemma decode_message: "wf_message m \<Longrightarrow> decode (write_message m @ rest) = (Inr (Some m), rest)"
  by (simp add: decode_Some msg.rd_wr)

lemma decode_cut:
  "wf_message m \<Longrightarrow> strict_prefix p (write_message m) \<Longrightarrow> decode p = (Inr None, p)"
  using msg.cut_wants_more [of m p] by (auto simp: decode_def wants_more_def split: sum.splits)

lemma decode_Nil [simp]: "decode [] = (Inr None, [])"
  using read_enum_Nil [of message_variants] by (auto simp: decode_def read_message_def)

text \<open>
  The calls a framed transport makes: \<open>decode\<close> again and again on its buffer until it asks for
  more bytes or fails. The result is the messages, the error if there was one, and the buffer.
\<close>

function decode_all :: "bytes \<Rightarrow> message list \<times> bin_error option \<times> bytes" where
  "decode_all buf = (case decode buf of
      (Inr (Some m), rest) \<Rightarrow> (case decode_all rest of (ms, st) \<Rightarrow> (m # ms, st))
    | (Inr None, rest) \<Rightarrow> ([], None, rest)
    | (Inl e, rest) \<Rightarrow> ([], Some e, rest))"
  by pat_completeness auto
termination
  by (relation "measure length") (auto dest: decode_shorter [OF sym])

declare decode_all.simps [simp del]

text \<open>The same over a connection whose bytes arrive in pieces; after an error it ends.\<close>

fun decode_stream :: "bytes \<Rightarrow> bytes list \<Rightarrow> message list \<times> bin_error option \<times> bytes" where
  "decode_stream buf [] = ([], None, buf)"
| "decode_stream buf (c # cs) = (case decode_all (buf @ c) of
      (ms, Some e, rest) \<Rightarrow> (ms, Some e, rest)
    | (ms, None, rest) \<Rightarrow> (case decode_stream rest cs of (ms', st) \<Rightarrow> (ms @ ms', st)))"

lemma decode_all_message:
  "wf_message m \<Longrightarrow> decode_all (write_message m @ rest)
     = (case decode_all rest of (ms, st) \<Rightarrow> (m # ms, st))"
  by (simp add: decode_all.simps [of "write_message m @ rest"] decode_message)

lemma decode_all_Nil [simp]: "decode_all [] = ([], None, [])"
  by (simp add: decode_all.simps)

lemma decode_all_messages:
  "list_all wf_message ms \<Longrightarrow> decode_all (concat (map write_message ms)) = (ms, None, [])"
  by (induction ms) (simp_all add: decode_all_message)

lemma decode_append:
  assumes "decode buf \<noteq> (Inr None, buf)"
  shows "decode (buf @ ext) = (case decode buf of (v, rest) \<Rightarrow> (v, rest @ ext))"
proof (cases "read_message buf")
  case (Inl e)
  with assms have "\<not> is_eof e" by (auto simp: decode_def)
  with Inl show ?thesis
    using streaming_Inl [OF streaming_read_message Inl] by (simp add: decode_def)
next
  case (Inr v)
  then show ?thesis
    using streaming_Inr [OF streaming_read_message, of buf "fst v" "snd v" ext]
    by (cases v) (simp add: decode_def)
qed

lemma decode_None_buf: "decode buf = (Inr None, rest) \<Longrightarrow> rest = buf"
  by (auto simp: decode_def split: sum.splits if_splits)

lemma decode_Inl_buf: "decode buf = (Inl e, rest) \<Longrightarrow> rest = buf"
  by (auto simp: decode_def split: sum.splits if_splits)

lemma decode_all_append:
  "decode_all (buf @ ext) = (case decode_all buf of
      (ms, None, rest) \<Rightarrow> (case decode_all (rest @ ext) of (ms', st) \<Rightarrow> (ms @ ms', st))
    | (ms, Some e, rest) \<Rightarrow> (ms, Some e, rest @ ext))"
proof (induction buf rule: decode_all.induct)
  case (1 buf)
  show ?case
  proof (cases "decode buf = (Inr None, buf)")
    case True
    then show ?thesis by (simp add: decode_all.simps [of buf] split: prod.split)
  next
    case False
    note ext = decode_append [OF False, of ext]
    obtain v rest where dec: "decode buf = (v, rest)" by fastforce
    show ?thesis
    proof (cases v)
      case (Inl e)
      with dec ext show ?thesis
        by (simp add: decode_all.simps [of buf] decode_all.simps [of "buf @ ext"])
    next
      case (Inr o')
      with dec False obtain m where v: "v = Inr (Some m)"
        by (cases o') (auto dest: decode_None_buf)
      with "1.IH" [OF dec [symmetric] v refl]
      have IH: "decode_all (rest @ ext) = (case decode_all rest of
          (ms, None, rest) \<Rightarrow> (case decode_all (rest @ ext) of (ms', st) \<Rightarrow> (ms @ ms', st))
        | (ms, Some e, rest) \<Rightarrow> (ms, Some e, rest @ ext))" by simp
      have "decode_all (buf @ ext) = (case decode_all (rest @ ext) of (ms, st) \<Rightarrow> (m # ms, st))"
        using dec ext v by (simp add: decode_all.simps [of "buf @ ext"])
      moreover have "decode_all buf = (case decode_all rest of (ms, st) \<Rightarrow> (m # ms, st))"
        using dec v by (simp add: decode_all.simps [of buf])
      ultimately show ?thesis
        using IH by (auto split: prod.splits option.splits)
    qed
  qed
qed

lemma decode_all_stuck: "decode_all buf = (ms, None, rest) \<Longrightarrow> decode_all rest = ([], None, rest)"
proof (induction buf arbitrary: ms rule: decode_all.induct)
  case (1 buf)
  show ?case
  proof (cases "\<exists>m r. decode buf = (Inr (Some m), r)")
    case True
    then obtain m r where dec: "decode buf = (Inr (Some m), r)" by blast
    with "1.prems" obtain ms' where "decode_all r = (ms', None, rest)"
      by (auto simp: decode_all.simps [of buf] split: prod.splits)
    with "1.IH" [OF dec [symmetric] refl refl] show ?thesis by blast
  next
    case False
    with "1.prems" have "decode buf = (Inr None, rest)"
      by (auto simp: decode_all.simps [of buf] split: prod.splits sum.splits option.splits)
    moreover from this have "rest = buf" by (rule decode_None_buf)
    ultimately show ?thesis by (simp add: decode_all.simps [of buf])
  qed
qed

text \<open>
  How a connection is cut into pieces makes no difference to the messages and the verdict, nor,
  while there is no error, to what is left in the buffer.
\<close>

lemma decode_stream_concat:
  assumes "decode_all buf = ([], None, buf)"
  shows "fst (decode_stream buf cs) = fst (decode_all (buf @ concat cs))
       \<and> fst (snd (decode_stream buf cs)) = fst (snd (decode_all (buf @ concat cs)))
       \<and> (fst (snd (decode_stream buf cs)) = None \<longrightarrow>
            snd (snd (decode_stream buf cs)) = snd (snd (decode_all (buf @ concat cs))))"
  using assms
proof (induction cs arbitrary: buf)
  case Nil
  then show ?case by simp
next
  case (Cons c cs)
  have app: "decode_all ((buf @ c) @ concat cs) = (case decode_all (buf @ c) of
      (ms, None, rest) \<Rightarrow> (case decode_all (rest @ concat cs) of (ms', st) \<Rightarrow> (ms @ ms', st))
    | (ms, Some e, rest) \<Rightarrow> (ms, Some e, rest @ concat cs))" by (rule decode_all_append)
  show ?case
  proof (cases "decode_all (buf @ c)")
    case (fields ms e rest)
    show ?thesis
    proof (cases e)
      case None
      have "decode_all rest = ([], None, rest)"
        using fields None by (intro decode_all_stuck) simp
      then show ?thesis using Cons.IH [of rest] app fields None
        by (auto split: prod.splits)
    next
      case (Some e')
      with app fields show ?thesis by simp
    qed
  qed
qed

lemma decode_stream_messages:
  assumes "list_all wf_message ms" and "concat cs = concat (map write_message ms)"
  shows "decode_stream [] cs = (ms, None, [])"
  using decode_stream_concat [of "[]" cs] decode_all_messages [OF assms(1)] assms(2)
  by (cases "decode_stream [] cs") auto

subsection \<open>Directory listings\<close>

function parse_dir_entries :: "bytes \<Rightarrow> bin_error + dir_entry list" where
  "parse_dir_entries data =
     (if data = [] then Inr []
      else case read_dir_entry data of
          Inl e \<Rightarrow> Inl e
        | Inr (entry, rest) \<Rightarrow> (case parse_dir_entries rest of
              Inl e \<Rightarrow> Inl e
            | Inr entries \<Rightarrow> Inr (entry # entries)))"
  by pat_completeness auto
termination
  by (relation "measure length") (auto dest: ent.consumes)

declare parse_dir_entries.simps [simp del]

fun serialize_dir_entires :: "dir_entry list \<Rightarrow> bin_error + bytes" where
  "serialize_dir_entires [] = Inr []"
| "serialize_dir_entires (entry # entries) =
     (case serialize_dir_entires entries of
        Inl e \<Rightarrow> Inl e
      | Inr bs \<Rightarrow> Inr (write_dir_entry entry @ bs))"

lemma serialize_eq: "serialize_dir_entires es = Inr (concat (map write_dir_entry es))"
  by (induction es) simp_all

lemma parse_serialized:
  "list_all wf_dir_entry es \<Longrightarrow> parse_dir_entries (concat (map write_dir_entry es)) = Inr es"
proof (induction es)
  case Nil
  show ?case by (simp add: parse_dir_entries.simps)
next
  case (Cons e es)
  then have e: "wf_dir_entry e" by simp
  have "write_dir_entry e @ concat (map write_dir_entry es) \<noteq> []"
    using ent.wr_nonempty [OF e] by simp
  with Cons show ?case
    by (simp add: parse_dir_entries.simps [of "write_dir_entry e @ _"] ent.rd_wr)
qed

lemma parse_wf: "parse_dir_entries data = Inr es \<Longrightarrow> list_all wf_dir_entry es
    \<and> length data = length (concat (map write_dir_entry es))"
proof (induction data arbitrary: es rule: parse_dir_entries.induct)
  case (1 data)
  show ?case
  proof (cases "data = []")
    case True
    with "1.prems" show ?thesis by (simp add: parse_dir_entries.simps)
  next
    case False
    with "1.prems" obtain e rest es' where r: "read_dir_entry data = Inr (e, rest)"
      and p: "parse_dir_entries rest = Inr es'" and es: "es = e # es'"
      by (auto simp: parse_dir_entries.simps [of data] split: sum.splits)
    from "1.IH" [OF False r refl p] read_dir_entry_consumes [OF r] read_dir_entry_wf [OF r] es
    show ?thesis by simp
  qed
qed

subsection \<open>Properties\<close>

lemma write_u32_bytes:
  "write_u32 w = [ucast (drop_bit 24 w), ucast (drop_bit 16 w), ucast (drop_bit 8 w), ucast w]"
  by (simp add: write_u32_def numeral_eq_Suc)

text \<open>C3: A message survives the wire, whatever follows it, exactly when its fields fit their
  length fields: names below 256 bytes, chunks and error texts below 64 KiB, written data below
  4 GiB, valid UTF-8 and a four-bit version. Every other message is changed or rejected.\<close>

theorem wire_roundtrip_iff: "read_message (write_message m @ rest) = Inr (m, rest) \<longleftrightarrow> wf_message m"
  using read_message_taken(1) read_write_message by blast

text \<open>C14: Whatever bytes arrive, a decoded message has fields that fit the wire, and the decoder
  has taken a prefix of the buffer as long as that message's own encoding, leaving the rest.\<close>

theorem decode_takes_one_message:
  assumes "decode buf = (Inr (Some m), rest)"
  shows "wf_message m \<and> (\<exists>used. buf = used @ rest \<and> length used = length (write_message m))"
proof -
  have read: "read_message buf = Inr (m, rest)" using assms by (simp add: decode_Some)
  then obtain used where "buf = used @ rest"
    using streaming_suffix [OF streaming_read_message read] by (auto simp: suffix_def)
  with read_message_taken [OF read] show ?thesis by simp
qed

theorem decode_takes_one_message_witness:
  "wf_message (SuccessRes 7) \<and>
   (\<exists>used. [8, 0, 0, 0, 7, 9 :: u8] = used @ [9] \<and> length used = length (write_message (SuccessRes 7)))"
proof (rule decode_takes_one_message)
  have "write_message (SuccessRes 7) = [8, 0, 0, 0, 7]"
    by (simp add: write_u32_bytes)
  then show "decode [8, 0, 0, 0, 7, 9] = (Inr (Some (SuccessRes 7)), [9])"
    using decode_message [of "SuccessRes 7" "[9]"] by simp
qed

text \<open>C13: A message that has arrived only in part is waited for: the decoder asks for more and
  keeps the buffer, and never takes the part for another message or for garbage.\<close>

theorem partial_message_is_waited_for:
  assumes "wf_message m" and "strict_prefix p (write_message m)"
  shows "decode p = (Inr None, p)"
  using assms by (rule decode_cut)

theorem partial_message_is_waited_for_witness: "decode [8, 0, 0] = (Inr None, [8, 0, 0])"
  by (rule partial_message_is_waited_for [of "SuccessRes 7"])
     (simp_all add: write_u32_bytes)

text \<open>C12: The pieces in which a connection's bytes arrive do not matter: two ways of cutting the
  same bytes give the same messages and the same error or none, and, without an error, the same
  bytes left in the buffer.\<close>

theorem fragmentation_is_invisible:
  assumes "concat cs = concat cs'"
  shows "fst (decode_stream [] cs) = fst (decode_stream [] cs')
    \<and> fst (snd (decode_stream [] cs)) = fst (snd (decode_stream [] cs'))
    \<and> (fst (snd (decode_stream [] cs)) = None \<longrightarrow>
         snd (snd (decode_stream [] cs)) = snd (snd (decode_stream [] cs')))"
  using decode_stream_concat [of "[]" cs] decode_stream_concat [of "[]" cs'] assms by simp

theorem fragmentation_is_invisible_witness:
  "fst (decode_stream [] [[8], [0, 0], [], [0, 7, 9]]) = fst (decode_stream [] [[8, 0, 0, 0, 7, 9]])
    \<and> fst (snd (decode_stream [] [[8], [0, 0], [], [0, 7, 9]]))
      = fst (snd (decode_stream [] [[8, 0, 0, 0, 7, 9]]))"
  using fragmentation_is_invisible [of "[[8], [0, 0], [], [0, 7, 9]]" "[[8, 0, 0, 0, 7, 9]]"] by simp

text \<open>A sequence of encoded messages, sent back to back and cut anywhere, is decoded to
  that sequence with nothing left over.\<close>

theorem message_stream_arrives:
  assumes "list_all wf_message ms" and "concat cs = concat (map write_message ms)"
  shows "decode_stream [] cs = (ms, None, [])"
  using assms by (rule decode_stream_messages)

theorem message_stream_arrives_witness:
  "decode_stream [] [[8, 0], [0, 0, 7, 9], [0, 0, 0, 8]] = ([SuccessRes 7, StatsReq 8], None, [])"
  by (rule message_stream_arrives) (simp_all add: write_u32_bytes)

text \<open>C15: A first byte that is no message's magic number is an error at once, with the buffer
  untouched, however many bytes follow.\<close>

theorem unknown_magic_is_rejected:
  assumes "0x11 < b"
  shows "\<exists>e. decode (b # bs) = (Inl e, b # bs)"
proof -
  have none: "variant_of b message_variants = None"
    using assms by (auto simp: variant_of_def message_variants_def)
  have "\<not> list_ex (\<lambda>v. is_eof (snd v)) (variant_errors message_variants (b # bs))"
    using assms by (simp add: message_variants_def) (auto simp: word_less_nat_alt)
  with none show ?thesis by (simp add: decode_def read_message_Cons)
qed

theorem unknown_magic_is_rejected_witness:
  "\<exists>e. decode [0x12, 0, 0, 0, 7] = (Inl e, [0x12, 0, 0, 0, 7])"
  by (rule unknown_magic_is_rejected) simp

text \<open>C37: The writer keeps only the low byte of a name's length. A name of 256 bytes is
  sent as an empty name, and its bytes are then read as the messages that follow.\<close>

theorem long_name_desynchronises:
  assumes "length name = 256"
  shows "decode (write_message (LookupReq rid dir name) @ rest)
    = (Inr (Some (LookupReq rid dir [])), name @ rest)"
proof -
  have "write_message (LookupReq rid dir name) = write_message (LookupReq rid dir []) @ name"
    using assms by simp
  then show ?thesis using decode_message [of "LookupReq rid dir []" "name @ rest"] by simp
qed

theorem long_name_desynchronises_witness:
  "decode (write_message (LookupReq 1 1 (replicate 256 0x61)) @ [])
    = (Inr (Some (LookupReq 1 1 [])), replicate 256 0x61 @ [])"
  by (rule long_name_desynchronises) simp

text \<open>C16: A packed directory listing is read back as the entries that were packed exactly when
  every name is shorter than 256 bytes.\<close>

theorem listing_roundtrip_iff:
  "(\<exists>buf. serialize_dir_entires es = Inr buf \<and> parse_dir_entries buf = Inr es)
     \<longleftrightarrow> list_all wf_dir_entry es"
  using parse_serialized parse_wf by (auto simp: serialize_eq)

end
