(* ===== verification/Backend.thy ===== *)
theory Backend
  imports Codec
begin

text \<open>
  The \<open>FsBackend\<close> trait of \<open>fs/mod.rs\<close> as a record of operations over a state, and the
  conversions of attributes and statistics to and from their messages.
\<close>

subsection \<open>The trait\<close>

record 's fs_backend =
  be_lookup :: "u64 \<Rightarrow> path \<Rightarrow> ('s, u64) io"
  be_get_attr :: "u64 \<Rightarrow> ('s, file_attr) io"
  be_set_attr :: "u64 \<Rightarrow> u64 option \<Rightarrow> system_time option \<Rightarrow> system_time option \<Rightarrow> u16 option
      \<Rightarrow> u32 option \<Rightarrow> u32 option \<Rightarrow> ('s, unit) io"
  be_stats :: "('s, fs_stats) io"
  be_create_file :: "u64 \<Rightarrow> u16 \<Rightarrow> u32 \<Rightarrow> path \<Rightarrow> ('s, u64) io"
  be_create_dir :: "u64 \<Rightarrow> u16 \<Rightarrow> path \<Rightarrow> ('s, u64) io"
  be_read :: "u64 \<Rightarrow> u64 \<Rightarrow> u64 \<Rightarrow> ('s, bytes) io"
  be_write :: "u64 \<Rightarrow> u64 \<Rightarrow> bytes \<Rightarrow> ('s, unit) io"
  be_read_dir :: "u64 \<Rightarrow> ('s, dir_entry list) io"
  be_remove :: "u64 \<Rightarrow> ('s, unit) io"
  be_rename :: "u64 \<Rightarrow> u64 \<Rightarrow> path \<Rightarrow> ('s, unit) io"

subsection \<open>Attributes\<close>

definition file_attr_into_message :: "file_attr \<Rightarrow> u32 \<Rightarrow> message" where
  "file_attr_into_message a rid =
     FileAttrRes rid (fa_file_type a) (fa_size a) (fa_blocks a) (to_unix (fa_access_time a))
       (to_unix (fa_modification_time a)) (to_unix (fa_change_time a)) (fa_permissions a)
       (fa_n_hard_links a) (fa_uid a) (fa_gid a) (fa_rdev a) (fa_block_size a)"

text \<open>\<open>None\<close> on another message; a time that does not fit panics inside \<open>from_unix\<close>.\<close>

fun file_attr_from_message :: "message \<Rightarrow> file_attr option io_result" where
  "file_attr_from_message (FileAttrRes _ file_type sz blocks atime mtime ctime permissions nlinks
       uid gid rdev blksize) =
     (case (from_unix atime, from_unix mtime, from_unix ctime) of
        (Some a, Some m, Some c) \<Rightarrow> Ok (Some
          \<lparr>fa_file_type = file_type, fa_size = sz, fa_blocks = blocks, fa_access_time = a,
           fa_modification_time = m, fa_change_time = c, fa_permissions = permissions,
           fa_n_hard_links = nlinks, fa_uid = uid, fa_gid = gid, fa_rdev = rdev,
           fa_block_size = blksize\<rparr>)
      | _ \<Rightarrow> Panics)"
| "file_attr_from_message _ = Ok None"

text \<open>What the wire makes of attributes: times in whole seconds, clamped to the epoch.\<close>

definition wire_attr :: "file_attr \<Rightarrow> file_attr" where
  "wire_attr a = a\<lparr>fa_access_time := wire_time (fa_access_time a),
     fa_modification_time := wire_time (fa_modification_time a),
     fa_change_time := wire_time (fa_change_time a)\<rparr>"

definition valid_attr :: "file_attr \<Rightarrow> bool" where
  "valid_attr a \<longleftrightarrow> valid_time (fa_access_time a) \<and> valid_time (fa_modification_time a)
     \<and> valid_time (fa_change_time a)"

lemma file_attr_roundtrip:
  "valid_attr a \<Longrightarrow> file_attr_from_message (file_attr_into_message a rid) = Ok (Some (wire_attr a))"
  by (simp add: file_attr_into_message_def valid_attr_def from_unix_to_unix wire_attr_def)

lemma wf_file_attr_message [simp]: "wf_message (file_attr_into_message a rid)"
  by (simp add: file_attr_into_message_def)

lemma request_id_file_attr [simp]: "request_id (file_attr_into_message a rid) = rid"
  by (simp add: file_attr_into_message_def)

subsection \<open>Statistics\<close>

definition fs_stats_into_message :: "fs_stats \<Rightarrow> u32 \<Rightarrow> message" where
  "fs_stats_into_message s rid =
     StatsRes rid (st_block_size s) (st_total_blocks s) (st_free_blocks s)
       (st_avail_blocks s) (st_total_inodes s) (st_free_inodes s) (st_max_filename_len s)
       (st_fragment_size s)"

fun fs_stats_from_message :: "message \<Rightarrow> fs_stats option" where
  "fs_stats_from_message (StatsRes _ blksize blocks free_blocks avail_blocks total_inodes
       free_inodes max_filename_len fragment_size) = Some
     \<lparr>st_block_size = blksize, st_total_blocks = blocks, st_free_blocks = free_blocks,
      st_avail_blocks = avail_blocks, st_total_inodes = total_inodes, st_free_inodes = free_inodes,
      st_max_filename_len = max_filename_len, st_fragment_size = fragment_size\<rparr>"
| "fs_stats_from_message _ = None"

lemma fs_stats_roundtrip [simp]: "fs_stats_from_message (fs_stats_into_message s rid) = Some s"
  by (simp add: fs_stats_into_message_def)

lemma wf_fs_stats_message [simp]: "wf_message (fs_stats_into_message s rid)"
  by (simp add: fs_stats_into_message_def)

lemma request_id_fs_stats [simp]: "request_id (fs_stats_into_message s rid) = rid"
  by (simp add: fs_stats_into_message_def)

subsection \<open>What the wire makes of an error\<close>

definition wire_error :: "io_error \<Rightarrow> io_error" where
  "wire_error e = io_error_new (kind_of_code (code_of_kind (err_kind e))) (err_text e)"

lemma error_over_wire: "error_try_from (message_from_error rid e) = Inr (wire_error e)"
  by (simp add: message_from_error_def wire_error_def)

lemma wire_error_idem [simp]: "wire_error (wire_error e) = wire_error e"
  by (simp add: wire_error_def)

text \<open>An error whose text fits the error message's length field.\<close>

definition wf_error :: "io_error \<Rightarrow> bool" where
  "wf_error e \<longleftrightarrow> length (err_text e) < 65536 \<and> utf8_valid (err_text e)"

lemma wf_message_from_error [simp]: "wf_message (message_from_error rid e) = wf_error e"
  by (simp add: message_from_error_def wf_error_def)

lemma request_id_from_error [simp]: "request_id (message_from_error rid e) = rid"
  by (simp add: message_from_error_def)

fun wire_result :: "('a \<Rightarrow> 'b) \<Rightarrow> 'a io_result \<Rightarrow> 'b io_result" where
  "wire_result f (Ok x) = Ok (f x)"
| "wire_result f (Err e) = Err (wire_error e)"
| "wire_result f Panics = Hangs"
| "wire_result f Hangs = Hangs"

subsection \<open>Properties\<close>

text \<open>C28: An error crosses the wire unchanged, kind and text, exactly when its kind is one of the
  five the protocol has a code for; every other kind arrives as \<open>Other\<close>.\<close>

theorem error_survives_iff:
  "error_try_from (message_from_error rid e) = Inr e \<longleftrightarrow>
     err_kind e \<in> {KOther, KInvalidInput, KNotFound, KAlreadyExists, KUnsupported}"
proof -
  have "kind_of_code (code_of_kind k) = k \<longleftrightarrow>
      k \<in> {KOther, KInvalidInput, KNotFound, KAlreadyExists, KUnsupported}" for k
    by (cases k) simp_all
  moreover have "io_error_new k (err_text e) = e \<longleftrightarrow> k = err_kind e" for k
    using io_error_new_inject [of k "err_text e" "err_kind e" "err_text e"] by simp
  ultimately show ?thesis by (simp add: error_over_wire wire_error_def)
qed

text \<open>Attributes sent in a message come out with every field as it was, except that times
  are cut to whole seconds and times before the epoch become the epoch.\<close>

theorem attributes_over_the_wire:
  assumes "valid_attr a"
  shows "file_attr_from_message (file_attr_into_message a rid) = Ok (Some
    (a\<lparr>fa_access_time := wire_time (fa_access_time a),
       fa_modification_time := wire_time (fa_modification_time a),
       fa_change_time := wire_time (fa_change_time a)\<rparr>))"
  using file_attr_roundtrip [OF assms, of rid] by (simp add: wire_attr_def)

definition sample_attr :: file_attr where
  "sample_attr = \<lparr>fa_file_type = RegularFile, fa_size = 5, fa_blocks = 1,
     fa_access_time = 1500000000, fa_modification_time = - 1, fa_change_time = 3000000000,
     fa_permissions = 0x81A4, fa_n_hard_links = 1, fa_uid = 1000, fa_gid = 1000, fa_rdev = 0,
     fa_block_size = 4096\<rparr>"

theorem attributes_over_the_wire_witness:
  "file_attr_from_message (file_attr_into_message sample_attr 7) = Ok (Some
    (sample_attr\<lparr>fa_access_time := wire_time (fa_access_time sample_attr),
       fa_modification_time := wire_time (fa_modification_time sample_attr),
       fa_change_time := wire_time (fa_change_time sample_attr)\<rparr>))
   \<and> wire_time (fa_access_time sample_attr) = 1000000000
   \<and> wire_time (fa_modification_time sample_attr) = 0"
proof (intro conjI attributes_over_the_wire)
  show "valid_attr sample_attr"
    by (simp add: valid_attr_def sample_attr_def valid_time_def nanos_per_sec_def)
qed (simp_all add: sample_attr_def wire_time_def nanos_per_sec_def)

text \<open>C36: Reading attributes from a message panics exactly when one of its times is at least
  \<open>2 ^ 63\<close> seconds, which every peer is free to send.\<close>

theorem attributes_panic_iff:
  "file_attr_from_message (FileAttrRes rid ft sz blocks atime mtime ctime perms nlinks uid gid rdev blksize)
     = Panics \<longleftrightarrow> 2 ^ 63 \<le> unat atime \<or> 2 ^ 63 \<le> unat mtime \<or> 2 ^ 63 \<le> unat ctime"
proof -
  have "from_unix t = None \<longleftrightarrow> 2 ^ 63 \<le> unat t" for t
    by (auto simp: from_unix_def epoch_plus_secs_def not_less)
  from this [of atime] this [of mtime] this [of ctime] show ?thesis
    by (auto split: option.split)
qed

end
