(* ===== verification/Chunks.thy ===== *)
theory Chunks
  imports Backend
begin

text \<open>
  Chunked replies: \<open>assemble_read_res_chunks\<close> of the server (\<open>server/handlers.rs\<close>) and
  \<open>combine_read_chunks\<close> of the client (\<open>fs/handler.rs\<close>), and the theorem that whatever order
  the chunks arrive in, the client reassembles the data.
\<close>

subsection \<open>Cutting data into chunks\<close>

function chunks_from :: "u32 \<Rightarrow> bytes \<Rightarrow> nat \<Rightarrow> message list" where
  "chunks_from rid data head =
     (if head < length data then
        let remaining = length data - head;
            chunk_len = min remaining MAX_READ_RES_CHUNK;
            chunk = take chunk_len (drop head data)
        in ReadRes rid (of_nat (length data)) (of_nat head) chunk
           # chunks_from rid data (head + chunk_len)
      else [])"
  by pat_completeness auto
termination
  by (relation "measure (\<lambda>(r, data, head). length data - head)") (auto simp: MAX_READ_RES_CHUNK_def)

declare chunks_from.simps [simp del]

definition assemble_read_res_chunks :: "u32 \<Rightarrow> bytes \<Rightarrow> message list" where
  "assemble_read_res_chunks rid data =
     (if data = [] then [ReadRes rid 0 0 []] else chunks_from rid data 0)"

subsection \<open>Putting chunks together\<close>

text \<open>A \<open>BTreeMap\<close> keyed by offset: an association list in key order, insertion replaces.\<close>

fun btree_insert :: "'k::linorder \<Rightarrow> 'v \<Rightarrow> ('k \<times> 'v) list \<Rightarrow> ('k \<times> 'v) list" where
  "btree_insert k v [] = [(k, v)]"
| "btree_insert k v ((k', v') # m) =
     (if k < k' then (k, v) # (k', v') # m
      else if k = k' then (k, v) # m
      else (k', v') # btree_insert k v m)"

text \<open>
  \<open>ErrorKind::ConnectionReset.into()\<close>, what a receiver gets when every sender of its channel is
  gone. \<open>recv_end alive\<close> is a receive on an empty channel: it waits for ever when a sender is
  still alive.
\<close>

definition connection_reset :: io_error where
  "connection_reset = io_error_new KConnectionReset (ascii ''connection reset'')"

definition recv_end :: "bool \<Rightarrow> 'a io_result" where
  "recv_end alive = (if alive then Hangs else Err connection_reset)"

text \<open>
  The loop over the listener's messages: \<open>chunks\<close> and \<open>received\<close> are the loop's variables. The
  count is the number of bytes held in memory, so it does not reach the width of \<open>usize\<close>.
\<close>

fun combine_loop :: "message list \<Rightarrow> bool \<Rightarrow> (u64 \<times> bytes) list \<Rightarrow> nat \<Rightarrow> bytes io_result" where
  "combine_loop [] alive chunks received = recv_end alive"
| "combine_loop (ReadRes rid total_length chunk_offset data # q) alive chunks received =
     (let received' = received + length data;
          chunks' = btree_insert chunk_offset data chunks
      in if received' = unat total_length then Ok (concat (map snd chunks'))
         else combine_loop q alive chunks' received')"
| "combine_loop (Error rid code msg # q) alive chunks received =
     Err (io_error_new (kind_of_code code) msg)"
| "combine_loop (_ # q) alive chunks received = combine_loop q alive chunks received"

definition combine_read_chunks :: "message list \<Rightarrow> bool \<Rightarrow> bytes io_result" where
  "combine_read_chunks q alive = combine_loop q alive [] 0"

subsection \<open>The chunks of a piece of data\<close>

fun chunk_key :: "message \<Rightarrow> u64 \<times> bytes" where
  "chunk_key (ReadRes _ _ off data) = (off, data)"
| "chunk_key _ = (0, [])"

text \<open>A chunk of a reply whose data has length \<open>n\<close>.\<close>

fun chunk_for :: "u32 \<Rightarrow> nat \<Rightarrow> message \<Rightarrow> bool" where
  "chunk_for rid n (ReadRes r total_len off data) =
     (r = rid \<and> total_len = of_nat n \<and> data \<noteq> [] \<and> length data \<le> MAX_READ_RES_CHUNK)"
| "chunk_for rid n _ = False"

lemma chunks_from_step:
  "head < length data \<Longrightarrow> chunks_from rid data head =
     ReadRes rid (of_nat (length data)) (of_nat head)
       (take (min (length data - head) MAX_READ_RES_CHUNK) (drop head data))
     # chunks_from rid data (head + min (length data - head) MAX_READ_RES_CHUNK)"
  by (simp add: chunks_from.simps [of rid data head] Let_def)

lemma chunks_from_done: "length data \<le> head \<Longrightarrow> chunks_from rid data head = []"
  by (simp add: chunks_from.simps)

lemma chunks_from_chunks: "list_all (chunk_for rid (length data)) (chunks_from rid data head)"
proof (induction rid data head rule: chunks_from.induct)
  case (1 rid data head)
  show ?case
  proof (cases "head < length data")
    case True
    with "1" show ?thesis by (simp add: chunks_from_step MAX_READ_RES_CHUNK_def min_def)
  qed (simp add: chunks_from_done)
qed

lemma chunks_from_concat:
  "concat (map (snd \<circ> chunk_key) (chunks_from rid data head)) = drop head data"
proof (induction rid data head rule: chunks_from.induct)
  case (1 rid data head)
  show ?case
  proof (cases "head < length data")
    case True
    with "1" show ?thesis
      by (simp add: chunks_from_step) (metis add.commute append_take_drop_id drop_drop)
  qed (simp add: chunks_from_done)
qed

lemma chunks_from_offsets:
  assumes "length data < 2 ^ 64"
  shows "sorted_wrt (<) (map (fst \<circ> chunk_key) (chunks_from rid data head))
    \<and> (\<forall>c \<in> set (chunks_from rid data head). head \<le> unat (fst (chunk_key c)))"
  using assms
proof (induction rid data head rule: chunks_from.induct)
  case (1 rid data head)
  show ?case
  proof (cases "head < length data")
    case True
    let ?n = "min (length data - head) MAX_READ_RES_CHUNK"
    have pos: "0 < ?n" using True by (simp add: MAX_READ_RES_CHUNK_def)
    have head: "unat (of_nat head :: u64) = head"
      using True "1.prems" by (simp add: unat_of_nat take_bit_nat_eq_self)
    have IH: "sorted_wrt (<) (map (fst \<circ> chunk_key) (chunks_from rid data (head + ?n)))
        \<and> (\<forall>c \<in> set (chunks_from rid data (head + ?n)). head + ?n \<le> unat (fst (chunk_key c)))"
      using "1.IH" [OF True refl refl refl "1.prems"] by (simp add: comp_def)
    then have "\<forall>c \<in> set (chunks_from rid data (head + ?n)). head < unat (fst (chunk_key c))"
      using pos by fastforce
    with IH head show ?thesis
      unfolding chunks_from_step [OF True]
      by (auto simp: word_less_nat_alt sorted_wrt_map comp_def)
  qed (simp add: chunks_from_done)
qed

lemma assemble_nonempty [simp]: "assemble_read_res_chunks rid data \<noteq> []"
  by (cases "data = []") (simp_all add: assemble_read_res_chunks_def chunks_from_step)

lemma assemble_request_id:
  "c \<in> set (assemble_read_res_chunks rid data) \<Longrightarrow> request_id c = rid"
  using chunks_from_chunks [of rid data 0]
  by (cases c) (auto simp: assemble_read_res_chunks_def list_all_iff split: if_splits)

lemma assemble_wf: "list_all wf_message (assemble_read_res_chunks rid data)"
proof -
  have "chunk_for rid n c \<Longrightarrow> wf_message c" for n c
    by (cases c) (auto simp: MAX_READ_RES_CHUNK_def)
  with chunks_from_chunks [of rid data 0] show ?thesis
    by (auto simp: assemble_read_res_chunks_def list_all_iff)
qed

subsection \<open>Ordered insertion\<close>

lemma btree_insert_keys: "fst ` set (btree_insert k v m) = insert k (fst ` set m)"
  by (induction k v m rule: btree_insert.induct) auto

lemma btree_insert_sorted:
  "sorted_wrt (<) (map fst m) \<Longrightarrow> sorted_wrt (<) (map fst (btree_insert k v m))"
proof (induction k v m rule: btree_insert.induct)
  case (2 k v k' v' m)
  have keys: "fst ` set (btree_insert k v m) = insert k (fst ` set m)" by (rule btree_insert_keys)
  from 2 have "\<forall>y \<in> insert k (fst ` set m). k' < y" if "k' < k" using that by auto
  with 2 keys show ?case by (auto dest: less_trans)
qed simp

lemma btree_insert_fresh:
  "k \<notin> fst ` set m \<Longrightarrow> set (btree_insert k v m) = insert (k, v) (set m)"
  by (induction k v m rule: btree_insert.induct) auto

definition btree_of :: "('k::linorder \<times> 'v) list \<Rightarrow> ('k \<times> 'v) list \<Rightarrow> ('k \<times> 'v) list" where
  "btree_of kvs m = foldl (\<lambda>m (k, v). btree_insert k v m) m kvs"

lemma btree_of_simps [simp]:
  "btree_of [] m = m" "btree_of ((k, v) # kvs) m = btree_of kvs (btree_insert k v m)"
  by (simp_all add: btree_of_def)

lemma btree_of_sorted:
  "sorted_wrt (<) (map fst m) \<Longrightarrow> sorted_wrt (<) (map fst (btree_of kvs m))"
  by (induction kvs arbitrary: m) (auto simp: btree_insert_sorted)

lemma btree_of_set:
  "distinct (map fst kvs) \<Longrightarrow> fst ` set kvs \<inter> fst ` set m = {}
   \<Longrightarrow> set (btree_of kvs m) = set kvs \<union> set m"
proof (induction kvs arbitrary: m)
  case (Cons kv kvs)
  obtain k v where kv: "kv = (k, v)" by fastforce
  have "set (btree_of kvs (btree_insert k v m)) = set kvs \<union> set (btree_insert k v m)"
    using Cons.prems kv by (intro Cons.IH) (auto simp: btree_insert_keys)
  moreover have "set (btree_insert k v m) = insert (k, v) (set m)"
    using Cons.prems kv by (intro btree_insert_fresh) auto
  ultimately show ?case using kv by simp
qed simp

text \<open>Inserting a permutation of a strictly sorted list gives that list.\<close>

lemma btree_of_permutation:
  assumes "sorted_wrt (<) (map fst sorted_kvs)" and "mset kvs = mset sorted_kvs"
  shows "btree_of kvs [] = sorted_kvs"
proof -
  have dist: "distinct (map fst sorted_kvs)" and sort: "sorted (map fst sorted_kvs)"
    using assms(1) by (auto simp: strict_sorted_iff)
  have "distinct (map fst kvs)"
    using assms(2) dist by (metis mset_eq_imp_distinct_iff mset_map)
  then have set: "set (btree_of kvs []) = set sorted_kvs"
    using assms(2) by (simp add: btree_of_set) (metis set_mset_mset)
  have "sorted_wrt (<) (map fst (btree_of kvs []))" by (rule btree_of_sorted) simp
  then have "sorted (map fst (btree_of kvs []))" "distinct (map fst (btree_of kvs []))"
    by (auto simp: strict_sorted_iff)
  with set dist sort show ?thesis
    by (intro map_sorted_distinct_set_unique [where f = fst])
      (auto simp: distinct_map)
qed

subsection \<open>Reassembly in any order\<close>

lemma combine_loop_chunks:
  assumes "list_all (chunk_for rid n) q" and "q \<noteq> []" and "n < 2 ^ 64"
    and "received + sum_list (map (length \<circ> snd \<circ> chunk_key) q) = n"
  shows "combine_loop (q @ later) alive m received
    = Ok (concat (map snd (btree_of (map chunk_key q) m)))"
  using assms
proof (induction q arbitrary: m received)
  case (Cons c q)
  then obtain off data where c: "c = ReadRes rid (of_nat n) off data" and "data \<noteq> []"
    by (cases c) auto
  have n: "unat (of_nat n :: u64) = n"
    using Cons.prems(3) by (simp add: unat_of_nat take_bit_nat_eq_self)
  show ?case
  proof (cases "q = []")
    case True
    with Cons.prems c n show ?thesis by simp
  next
    case False
    then obtain d q' where q: "q = d # q'" by (cases q) auto
    with Cons.prems(1) obtain off' data' where "d = ReadRes rid (of_nat n) off' data'" "data' \<noteq> []"
      by (cases d) auto
    with q have "0 < sum_list (map (length \<circ> snd \<circ> chunk_key) q)" by simp
    with Cons.prems(4) c have "received + length data \<noteq> n" by (simp add: comp_def)
    then have "combine_loop ((c # q) @ later) alive m received
        = combine_loop (q @ later) alive (btree_insert off data m) (received + length data)"
      using c n by simp
    also have "\<dots> = Ok (concat (map snd (btree_of (map chunk_key q) (btree_insert off data m))))"
      using Cons.prems c False by (intro Cons.IH) auto
    finally show ?thesis using c by simp
  qed
qed simp

lemma combine_assembled:
  assumes "length data < 2 ^ 64"
    and "mset q = mset (assemble_read_res_chunks rid data)"
  shows "combine_read_chunks (q @ later) alive = Ok data"
proof (cases "data = []")
  case True
  with assms(2) have "q = [ReadRes rid 0 0 []]"
    by (simp add: assemble_read_res_chunks_def)
  with True show ?thesis by (simp add: combine_read_chunks_def)
next
  case False
  let ?cs = "chunks_from rid data 0"
  have q: "mset q = mset ?cs" using assms(2) False by (simp add: assemble_read_res_chunks_def)
  have "list_all (chunk_for rid (length data)) q"
    using chunks_from_chunks [of rid data 0] mset_eq_setD [OF q] by (simp add: list_all_iff)
  moreover have "q \<noteq> []" using q False by (auto simp: chunks_from_step)
  moreover have "sum_list (map (length \<circ> snd \<circ> chunk_key) q) = length data"
  proof -
    have "sum_list (map (length \<circ> snd \<circ> chunk_key) q) = sum_list (map (length \<circ> snd \<circ> chunk_key) ?cs)"
      using q by (metis mset_map sum_mset_sum_list)
    also have "\<dots> = length (concat (map (snd \<circ> chunk_key) ?cs))"
      by (simp add: length_concat comp_def)
    finally show ?thesis by (simp add: chunks_from_concat)
  qed
  ultimately have "combine_read_chunks (q @ later) alive
      = Ok (concat (map snd (btree_of (map chunk_key q) [])))"
    using assms(1) unfolding combine_read_chunks_def by (intro combine_loop_chunks) auto
  also have "btree_of (map chunk_key q) [] = map chunk_key ?cs"
    using chunks_from_offsets [OF assms(1), of rid 0] q
    by (intro btree_of_permutation) (simp_all add: comp_def)
  also have "concat (map snd (map chunk_key ?cs)) = data"
    using chunks_from_concat [of rid data 0] by (simp add: comp_def)
  finally show ?thesis .
qed

subsection \<open>Properties\<close>

lemma chunks_from_length:
  "length (chunks_from rid data head) = (length data - head + 65534) div 65535"
proof (induction rid data head rule: chunks_from.induct)
  case (1 rid data head)
  show ?case
  proof (cases "head < length data")
    case True
    let ?rest = "length data - head"
    have "length (chunks_from rid data head) = Suc ((?rest - min ?rest MAX_READ_RES_CHUNK + 65534) div 65535)"
      using "1.IH" [OF True refl refl refl] chunks_from_step [OF True, of rid] by simp
    also have "\<dots> = (?rest + 65534) div 65535"
    proof (cases "?rest \<le> 65535")
      case True
      moreover have "65535 \<le> ?rest + 65534" and "?rest + 65534 < 2 * 65535"
        using True \<open>head < length data\<close> by simp_all
      then have "(?rest + 65534) div 65535 = 1" by (simp add: div_nat_eqI)
      ultimately show ?thesis by (simp add: MAX_READ_RES_CHUNK_def min_def)
    next
      case False
      then have "?rest + 65534 = (?rest - 65535 + 65534) + 65535" by simp
      then have "(?rest + 65534) div 65535 = Suc ((?rest - 65535 + 65534) div 65535)"
        by (metis Suc_eq_plus1 div_add_self2 zero_neq_numeral)
      with False show ?thesis by (simp add: MAX_READ_RES_CHUNK_def min_def)
    qed
    finally show ?thesis .
  qed (simp add: chunks_from_done)
qed

text \<open>C17: A reply's chunks carry the request's id and the total length, at most 65535 bytes
  each and in order together the data; there are as many as the length needs, and one for no
  data at all.\<close>

theorem chunks_cover_the_data:
  "list_all (\<lambda>c. \<exists>off chunk. c = ReadRes rid (of_nat (length data)) off chunk
       \<and> length chunk \<le> 65535) (assemble_read_res_chunks rid data)
   \<and> concat (map (\<lambda>c. snd (chunk_key c)) (assemble_read_res_chunks rid data)) = data
   \<and> length (assemble_read_res_chunks rid data) = max 1 ((length data + 65534) div 65535)"
proof (cases "data = []")
  case False
  have "chunk_for rid n c \<Longrightarrow> \<exists>off chunk. c = ReadRes rid (of_nat n) off chunk \<and> length chunk \<le> 65535" for n c
    by (cases c) (auto simp: MAX_READ_RES_CHUNK_def)
  moreover have "1 \<le> (length data + 65534) div 65535"
  proof -
    have "65535 div 65535 \<le> (length data + 65534) div 65535"
      using False by (intro div_le_mono) (cases data, simp_all)
    then show ?thesis by simp
  qed
  ultimately show ?thesis
    using False chunks_from_chunks [of rid data 0] chunks_from_concat [of rid data 0]
      chunks_from_length [of rid data 0]
    by (auto simp: assemble_read_res_chunks_def list_all_iff comp_def)
qed (simp add: assemble_read_res_chunks_def)

text \<open>C8: In whatever order a reply's chunks reach the client, it returns the data, byte for
  byte, as soon as the last of them is there, and takes no further message.\<close>

theorem chunks_reassemble_in_any_order:
  assumes "length data < 2 ^ 64" and "mset q = mset (assemble_read_res_chunks rid data)"
  shows "combine_read_chunks (q @ later) alive = Ok data"
  using assms by (rule combine_assembled)

theorem chunks_reassemble_in_any_order_witness:
  "combine_read_chunks (rev (assemble_read_res_chunks 3 (replicate 70000 0x61 @ [0x62])) @ [SuccessRes 3]) True
    = Ok (replicate 70000 0x61 @ [0x62])"
  by (rule chunks_reassemble_in_any_order) simp_all

end
