(* ===== verification/Handlers.thy ===== *)
theory Handlers
  imports Chunks
begin

text \<open>
  The server's message handler (\<open>server/handlers.rs\<close>). \<open>handle_msg fmt B m s\<close> runs the handler
  of \<open>m\<close> on the backend \<open>B\<close> in state \<open>s\<close> and gives the replies it sends, in the order of the
  reply vector, and the new backend state. \<open>Panics\<close> is a panic of the handler's task, after
  which nothing is sent; \<open>Hangs\<close> a backend call that never returns. The parameter \<open>fmt\<close> is the
  rendering of a wire-library error as text, which belongs to that library.
\<close>

text \<open>The match on a backend result that every single-reply handler ends with.\<close>

definition reply_with :: "u32 \<Rightarrow> ('a \<Rightarrow> message) \<Rightarrow> 'a io_result \<times> 's \<Rightarrow> message list io_result \<times> 's" where
  "reply_with rid f rs = (case rs of
      (Ok x, s) \<Rightarrow> (Ok [f x], s)
    | (Err e, s) \<Rightarrow> (Ok [message_from_error rid e], s)
    | (Panics, s) \<Rightarrow> (Panics, s)
    | (Hangs, s) \<Rightarrow> (Hangs, s))"

text \<open>The same for a result that is sent as chunks.\<close>

definition reply_chunks :: "u32 \<Rightarrow> bytes io_result \<times> 's \<Rightarrow> message list io_result \<times> 's" where
  "reply_chunks rid rs = (case rs of
      (Ok buf, s) \<Rightarrow> (Ok (assemble_read_res_chunks rid buf), s)
    | (Err e, s) \<Rightarrow> (Ok [message_from_error rid e], s)
    | (Panics, s) \<Rightarrow> (Panics, s)
    | (Hangs, s) \<Rightarrow> (Hangs, s))"

text \<open>\<open>atime.map(|x| from_unix(x))\<close>: the outer \<open>None\<close> is the panic.\<close>

fun time_field :: "u64 option \<Rightarrow> system_time option option" where
  "time_field None = Some None"
| "time_field (Some secs) = (case from_unix secs of None \<Rightarrow> None | Some t \<Rightarrow> Some (Some t))"

fun handle_msg :: "(bin_error \<Rightarrow> ustring) \<Rightarrow> 's fs_backend \<Rightarrow> message \<Rightarrow> 's
    \<Rightarrow> message list io_result \<times> 's" where
  "handle_msg fmt B (InitReq rid version) s = (Ok [InitRes rid (version = 0)], s)"
| "handle_msg fmt B (LookupReq rid dir_inode filename) s =
     reply_with rid (LookupRes rid) (be_lookup B dir_inode filename s)"
| "handle_msg fmt B (GetAttrReq rid inode) s =
     reply_with rid (\<lambda>attr. file_attr_into_message attr rid) (be_get_attr B inode s)"
| "handle_msg fmt B (SetAttrReq rid inode sz atime mtime permissions uid gid) s =
     (case (time_field atime, time_field mtime) of
        (Some at, Some mt) \<Rightarrow>
          reply_with rid (\<lambda>_. SuccessRes rid) (be_set_attr B inode sz at mt permissions uid gid s)
      | _ \<Rightarrow> (Panics, s))"
| "handle_msg fmt B (StatsReq rid) s =
     reply_with rid (\<lambda>stats. fs_stats_into_message stats rid) (be_stats B s)"
| "handle_msg fmt B (CreateReq rid dir_inode permissions unix_flags is_directory filename) s =
     reply_with rid (LookupRes rid)
       (if is_directory then be_create_dir B dir_inode permissions filename s
        else be_create_file B dir_inode permissions unix_flags filename s)"
| "handle_msg fmt B (ReadReq rid inode offset len) s =
     reply_chunks rid (be_read B inode offset len s)"
| "handle_msg fmt B (WriteReq rid inode offset data) s =
     reply_with rid (\<lambda>_. SuccessRes rid) (be_write B inode offset data s)"
| "handle_msg fmt B (ReaddirReq rid inode) s =
     (case be_read_dir B inode s of
        (Ok entries, s') \<Rightarrow>
          (case serialize_dir_entires entries of
             Inr buf \<Rightarrow> reply_chunks rid (Ok buf, s')
           | Inl e \<Rightarrow> (Ok [Error rid Internal (fmt e)], s'))
      | (Err e, s') \<Rightarrow> (Ok [message_from_error rid e], s')
      | (Panics, s') \<Rightarrow> (Panics, s')
      | (Hangs, s') \<Rightarrow> (Hangs, s'))"
| "handle_msg fmt B (RmReq rid inode) s =
     reply_with rid (\<lambda>_. SuccessRes rid) (be_remove B inode s)"
| "handle_msg fmt B (MoveReq rid inode dest_dir_inode dest_filename) s =
     reply_with rid (\<lambda>_. SuccessRes rid) (be_rename B inode dest_dir_inode dest_filename s)"
| "handle_msg fmt B _ s = (Ok [], s)"

subsection \<open>Requests and replies\<close>

fun is_request :: "message \<Rightarrow> bool" where
  "is_request (InitReq _ _) = True"
| "is_request (LookupReq _ _ _) = True"
| "is_request (GetAttrReq _ _) = True"
| "is_request (SetAttrReq _ _ _ _ _ _ _ _) = True"
| "is_request (StatsReq _) = True"
| "is_request (CreateReq _ _ _ _ _ _) = True"
| "is_request (ReadReq _ _ _ _) = True"
| "is_request (WriteReq _ _ _ _) = True"
| "is_request (ReaddirReq _ _) = True"
| "is_request (RmReq _ _) = True"
| "is_request (MoveReq _ _ _ _) = True"
| "is_request _ = False"

text \<open>The reply types the protocol document allows for a request.\<close>

fun reply_fits :: "message \<Rightarrow> message \<Rightarrow> bool" where
  "reply_fits (InitReq _ _) r = (case r of InitRes _ _ \<Rightarrow> True | _ \<Rightarrow> False)"
| "reply_fits (LookupReq _ _ _) r = (case r of LookupRes _ _ \<Rightarrow> True | Error _ _ _ \<Rightarrow> True | _ \<Rightarrow> False)"
| "reply_fits (GetAttrReq _ _) r =
     (case r of FileAttrRes _ _ _ _ _ _ _ _ _ _ _ _ _ \<Rightarrow> True | Error _ _ _ \<Rightarrow> True | _ \<Rightarrow> False)"
| "reply_fits (SetAttrReq _ _ _ _ _ _ _ _) r =
     (case r of SuccessRes _ \<Rightarrow> True | Error _ _ _ \<Rightarrow> True | _ \<Rightarrow> False)"
| "reply_fits (StatsReq _) r =
     (case r of StatsRes _ _ _ _ _ _ _ _ _ \<Rightarrow> True | Error _ _ _ \<Rightarrow> True | _ \<Rightarrow> False)"
| "reply_fits (CreateReq _ _ _ _ _ _) r =
     (case r of LookupRes _ _ \<Rightarrow> True | Error _ _ _ \<Rightarrow> True | _ \<Rightarrow> False)"
| "reply_fits (ReadReq _ _ _ _) r =
     (case r of ReadRes _ _ _ _ \<Rightarrow> True | Error _ _ _ \<Rightarrow> True | _ \<Rightarrow> False)"
| "reply_fits (WriteReq _ _ _ _) r =
     (case r of SuccessRes _ \<Rightarrow> True | Error _ _ _ \<Rightarrow> True | _ \<Rightarrow> False)"
| "reply_fits (ReaddirReq _ _) r =
     (case r of ReadRes _ _ _ _ \<Rightarrow> True | Error _ _ _ \<Rightarrow> True | _ \<Rightarrow> False)"
| "reply_fits (RmReq _ _) r =
     (case r of SuccessRes _ \<Rightarrow> True | Error _ _ _ \<Rightarrow> True | _ \<Rightarrow> False)"
| "reply_fits (MoveReq _ _ _ _) r =
     (case r of SuccessRes _ \<Rightarrow> True | Error _ _ _ \<Rightarrow> True | _ \<Rightarrow> False)"
| "reply_fits _ r = False"

lemma reply_with_Ok:
  "reply_with rid f r = (Ok rs, s') \<longleftrightarrow>
     (\<exists>x. r = (Ok x, s') \<and> rs = [f x]) \<or> (\<exists>e. r = (Err e, s') \<and> rs = [message_from_error rid e])"
  by (auto simp: reply_with_def split: prod.splits io_result.splits)

lemma reply_chunks_Ok:
  "reply_chunks rid r = (Ok rs, s') \<longleftrightarrow>
     (\<exists>buf. r = (Ok buf, s') \<and> rs = assemble_read_res_chunks rid buf)
   \<or> (\<exists>e. r = (Err e, s') \<and> rs = [message_from_error rid e])"
  by (auto simp: reply_chunks_def split: prod.splits io_result.splits)

lemma chunk_is_read_res:
  "c \<in> set (assemble_read_res_chunks rid data) \<Longrightarrow> \<exists>n off d. c = ReadRes rid n off d"
proof -
  assume "c \<in> set (assemble_read_res_chunks rid data)"
  with chunks_from_chunks [of rid data 0] show ?thesis
    by (cases c) (auto simp: assemble_read_res_chunks_def list_all_iff split: if_splits)
qed

lemma handle_msg_answer:
  assumes "is_request m" and "handle_msg fmt B m s = (Ok rs, s')"
  shows "rs \<noteq> [] \<and> list_all (reply_fits m) rs \<and> list_all (\<lambda>r. request_id r = request_id m) rs"
  using assms
  by (cases m)
     (auto simp: reply_with_Ok reply_chunks_Ok serialize_eq file_attr_into_message_def
       fs_stats_into_message_def message_from_error_def list_all_iff
       split: option.splits prod.splits io_result.splits dest!: chunk_is_read_res)

lemma handle_msg_response_ignored: "\<not> is_request m \<Longrightarrow> handle_msg fmt B m s = (Ok [], s)"
  by (cases m) simp_all

subsection \<open>Backends whose results fit the wire\<close>

definition result_fits :: "('a \<Rightarrow> bool) \<Rightarrow> ('s, 'a) io \<Rightarrow> bool" where
  "result_fits P m \<longleftrightarrow> (\<forall>s. case fst (m s) of Ok x \<Rightarrow> P x | Err e \<Rightarrow> wf_error e | _ \<Rightarrow> True)"

definition listing_fits :: "dir_entry list \<Rightarrow> bool" where
  "listing_fits es \<longleftrightarrow> list_all wf_dir_entry es \<and> length (concat (map write_dir_entry es)) < 2 ^ 64"

definition wf_backend :: "'s fs_backend \<Rightarrow> bool" where
  "wf_backend B \<longleftrightarrow>
     (\<forall>d f. result_fits (\<lambda>_. True) (be_lookup B d f))
   \<and> (\<forall>i. result_fits valid_attr (be_get_attr B i))
   \<and> (\<forall>i sz at mt p u g. result_fits (\<lambda>_. True) (be_set_attr B i sz at mt p u g))
   \<and> result_fits (\<lambda>_. True) (be_stats B)
   \<and> (\<forall>d p fl f. result_fits (\<lambda>_. True) (be_create_file B d p fl f))
   \<and> (\<forall>d p f. result_fits (\<lambda>_. True) (be_create_dir B d p f))
   \<and> (\<forall>i off n. result_fits (\<lambda>b. length b < 2 ^ 64) (be_read B i off n))
   \<and> (\<forall>i off d. result_fits (\<lambda>_. True) (be_write B i off d))
   \<and> (\<forall>i. result_fits listing_fits (be_read_dir B i))
   \<and> (\<forall>i. result_fits (\<lambda>_. True) (be_remove B i))
   \<and> (\<forall>i d f. result_fits (\<lambda>_. True) (be_rename B i d f))"

lemma result_fits_Ok: "result_fits P m \<Longrightarrow> m s = (Ok x, s') \<Longrightarrow> P x"
  by (auto simp: result_fits_def split: io_result.splits dest: spec [of _ s])

lemma result_fits_Err: "result_fits P m \<Longrightarrow> m s = (Err e, s') \<Longrightarrow> wf_error e"
  by (auto simp: result_fits_def split: io_result.splits dest: spec [of _ s])

lemma wf_backend_errors:
  assumes "wf_backend B"
  shows "be_lookup B d f s = (Err e, s') \<Longrightarrow> wf_error e"
    and "be_get_attr B i s = (Err e, s') \<Longrightarrow> wf_error e"
    and "be_set_attr B i sz at mt p u g s = (Err e, s') \<Longrightarrow> wf_error e"
    and "be_stats B s = (Err e, s') \<Longrightarrow> wf_error e"
    and "be_create_file B d p' fl f s = (Err e, s') \<Longrightarrow> wf_error e"
    and "be_create_dir B d p' f s = (Err e, s') \<Longrightarrow> wf_error e"
    and "be_read B i off n s = (Err e, s') \<Longrightarrow> wf_error e"
    and "be_write B i off dat s = (Err e, s') \<Longrightarrow> wf_error e"
    and "be_read_dir B i s = (Err e, s') \<Longrightarrow> wf_error e"
    and "be_remove B i s = (Err e, s') \<Longrightarrow> wf_error e"
    and "be_rename B i d f s = (Err e, s') \<Longrightarrow> wf_error e"
  using assms unfolding wf_backend_def by (meson result_fits_Err)+

lemma wf_backend_values:
  assumes "wf_backend B"
  shows "be_get_attr B i s = (Ok a, s') \<Longrightarrow> valid_attr a"
    and "be_read B i off n s = (Ok buf, s') \<Longrightarrow> length buf < 2 ^ 64"
    and "be_read_dir B i s = (Ok es, s') \<Longrightarrow> listing_fits es"
  using assms unfolding wf_backend_def
  by (meson result_fits_Ok,
      metis (no_types, lifting) result_fits_Ok,
      meson result_fits_Ok)

text \<open>Then every reply can be written and read back.\<close>

lemma handle_msg_wf:
  assumes "wf_backend B" and "handle_msg fmt B m s = (Ok rs, s')"
  shows "list_all wf_message rs"
  using assms(2)
  by (cases m)
     (auto simp: reply_with_Ok reply_chunks_Ok serialize_eq assemble_wf
       split: option.splits prod.splits io_result.splits if_splits
       dest: wf_backend_errors [OF assms(1)])

end
