(* ===== verification/Io_Logic.thy ===== *)
theory Io_Logic
  imports Rust_Std
begin

text \<open>
  Reasoning about effectful operations without unfolding them: \<open>keeps I m\<close> says that \<open>m\<close> leaves
  the invariant \<open>I\<close> true whatever its outcome, \<open>yields P E m\<close> that its values satisfy \<open>P\<close> and its
  errors \<open>E\<close>. Both are closed under sequencing, so an operation's proof follows its code.
\<close>

named_theorems keeps_intros \<open>operations that keep an invariant\<close>
named_theorems yields_intros \<open>what operations return\<close>

definition keeps :: "('s \<Rightarrow> bool) \<Rightarrow> ('s, 'a) io \<Rightarrow> bool" where
  "keeps I m \<longleftrightarrow> (\<forall>s. I s \<longrightarrow> I (snd (m s)))"

definition yields :: "('a \<Rightarrow> bool) \<Rightarrow> (io_error \<Rightarrow> bool) \<Rightarrow> ('s, 'a) io \<Rightarrow> bool" where
  "yields P E m \<longleftrightarrow> (\<forall>s. case fst (m s) of Ok x \<Rightarrow> P x | Err e \<Rightarrow> E e | _ \<Rightarrow> True)"

lemma keepsD: "keeps I m \<Longrightarrow> m s = (r, s') \<Longrightarrow> I s \<Longrightarrow> I s'"
  unfolding keeps_def by (metis snd_conv)

lemma keepsI: "(\<And>s r s'. I s \<Longrightarrow> m s = (r, s') \<Longrightarrow> I s') \<Longrightarrow> keeps I m"
  unfolding keeps_def by (metis prod.collapse)

lemma keeps_return [keeps_intros]: "keeps I (io_return x)"
  and keeps_fail [keeps_intros]: "keeps I (io_fail e)"
  and keeps_panic [keeps_intros]: "keeps I io_panic"
  and keeps_lift [keeps_intros]: "keeps I (io_lift r)"
  by (simp_all add: keeps_def)

lemma keeps_bind [keeps_intros]:
  assumes "keeps I m" and "\<And>x. keeps I (f x)"
  shows "keeps I (io_bind m f)"
proof (rule keepsI)
  fix s r s' assume "I s" and "io_bind m f s = (r, s')"
  from this(2) show "I s'"
    by (rule io_bind_cases) (use \<open>I s\<close> assms keepsD in metis)+
qed

lemma keeps_if [keeps_intros]:
  "(c \<Longrightarrow> keeps I m) \<Longrightarrow> (\<not> c \<Longrightarrow> keeps I n) \<Longrightarrow> keeps I (if c then m else n)"
  by simp

lemma keeps_option [keeps_intros]:
  "(v = None \<Longrightarrow> keeps I m) \<Longrightarrow> (\<And>x. v = Some x \<Longrightarrow> keeps I (f x))
   \<Longrightarrow> keeps I (case v of None \<Rightarrow> m | Some x \<Rightarrow> f x)"
  by (cases v) simp_all

text \<open>\<open>match m { Ok(x) => f(x), Err(e) => g(e) }\<close>; a panic or hang passes through.\<close>

definition io_match :: "('s, 'a) io \<Rightarrow> ('a \<Rightarrow> ('s, 'b) io) \<Rightarrow> (io_error \<Rightarrow> ('s, 'b) io) \<Rightarrow> ('s, 'b) io" where
  "io_match m f g s = (case m s of
      (Ok x, s') \<Rightarrow> f x s'
    | (Err e, s') \<Rightarrow> g e s'
    | (Panics, s') \<Rightarrow> (Panics, s')
    | (Hangs, s') \<Rightarrow> (Hangs, s'))"

lemma io_match_simps [simp]:
  "m s = (Ok x, s') \<Longrightarrow> io_match m f g s = f x s'"
  "m s = (Err e, s') \<Longrightarrow> io_match m f g s = g e s'"
  "m s = (Panics, s') \<Longrightarrow> io_match m f g s = (Panics, s')"
  "m s = (Hangs, s') \<Longrightarrow> io_match m f g s = (Hangs, s')"
  by (simp_all add: io_match_def)

lemma keeps_match [keeps_intros]:
  assumes "keeps I m" and "\<And>x. keeps I (f x)" and "\<And>e. keeps I (g e)"
  shows "keeps I (io_match m f g)"
proof (rule keepsI)
  fix s r s' assume I: "I s" and run: "io_match m f g s = (r, s')"
  obtain v t where m: "m s = (v, t)" by fastforce
  with assms(1) I have "I t" by (blast dest: keepsD)
  with m run assms(2,3) show "I s'" by (cases v) (auto dest: keepsD)
qed

lemma yieldsI:
  assumes "\<And>s x s'. m s = (Ok x, s') \<Longrightarrow> P x" and "\<And>s e s'. m s = (Err e, s') \<Longrightarrow> E e"
  shows "yields P E m"
  unfolding yields_def
proof
  fix s show "case fst (m s) of Ok x \<Rightarrow> P x | Err e \<Rightarrow> E e | _ \<Rightarrow> True"
    using assms [of s] by (cases "m s") (auto split: io_result.splits)
qed

lemma yields_Ok: "yields P E m \<Longrightarrow> m s = (Ok x, s') \<Longrightarrow> P x"
  by (auto simp: yields_def split: io_result.splits dest: spec [of _ s])

lemma yields_Err: "yields P E m \<Longrightarrow> m s = (Err e, s') \<Longrightarrow> E e"
  by (auto simp: yields_def split: io_result.splits dest: spec [of _ s])

lemma yields_return [yields_intros]: "P x \<Longrightarrow> yields P E (io_return x)"
  and yields_fail [yields_intros]: "E e \<Longrightarrow> yields P E (io_fail e)"
  and yields_panic [yields_intros]: "yields P E io_panic"
  by (simp_all add: yields_def)

lemma yields_match:
  assumes "yields R (\<lambda>_. True) m" and "\<And>x. R x \<Longrightarrow> yields P E (f x)" and "\<And>e. yields P E (g e)"
  shows "yields P E (io_match m f g)"
proof -
  have "case fst (io_match m f g s) of Ok x \<Rightarrow> P x | Err e \<Rightarrow> E e | _ \<Rightarrow> True" for s
  proof (cases "m s")
    case (Pair v t)
    show ?thesis
    proof (cases v)
      case (Ok x)
      with Pair assms(1) have "R x" by (blast dest: yields_Ok)
      with assms(2) Pair Ok show ?thesis by (simp add: yields_def)
    qed (use Pair assms(3) in \<open>simp_all add: yields_def\<close>)
  qed
  then show ?thesis by (simp add: yields_def)
qed

lemma yields_bind:
  assumes "yields R E m" and "\<And>x. R x \<Longrightarrow> yields P E (f x)"
  shows "yields P E (io_bind m f)"
proof (rule yieldsI)
  fix s x s' assume "io_bind m f s = (Ok x, s')"
  then show "P x" by (rule io_bind_OkE) (use assms in \<open>blast dest: yields_Ok\<close>)
next
  fix s e s' assume "io_bind m f s = (Err e, s')"
  then show "E e"
    by (rule io_bind_cases) (use assms in \<open>auto dest: yields_Ok yields_Err\<close>)
qed

end
