(* ===== verification/Disk.thy ===== *)
theory Disk
  imports Handlers Io_Logic
begin

text \<open>
  The disk backend (\<open>fs/disk.rs\<close>): \<open>DiskFs\<close> keeps a map from the inode numbers it has handed
  out to paths and serves every operation by calls on the operating system's file API. That API
  is a parameter, the record \<open>os\<close> of the calls the code makes, over a world of its own.
\<close>

subsection \<open>The operating system\<close>

text \<open>\<open>std::fs::Metadata\<close> with the Unix accessors the code uses; \<open>accessed\<close> and \<open>modified\<close> are fallible.\<close>

record metadata =
  md_ino :: u64
  md_mode :: u32
  md_len :: u64
  md_blocks :: u64
  md_accessed :: "system_time io_result"
  md_modified :: "system_time io_result"
  md_ctime :: i64
  md_nlink :: u64
  md_uid :: u32
  md_gid :: u32
  md_rdev :: u64
  md_blksize :: u64

record open_options =
  oo_read :: bool
  oo_write :: bool
  oo_create :: bool
  oo_create_new :: bool
  oo_truncate :: bool

definition open_options_new :: open_options where
  "open_options_new = \<lparr>oo_read = False, oo_write = False, oo_create = False, oo_create_new = False,
     oo_truncate = False\<rparr>"

text \<open>One item of a directory stream: \<open>ino()\<close>, the mode behind \<open>file_type()\<close>, \<open>file_name()\<close>.\<close>

record os_entry =
  oe_ino :: u64
  oe_mode :: "u32 io_result"
  oe_name :: bytes

text \<open>
  The calls, over worlds \<open>'w\<close> and handles \<open>'fd\<close> of open files and directory streams.
  \<open>os_next_entry\<close> gives the stream's next item, \<open>None\<close> at its end; nothing says that there is one.
\<close>

record ('w, 'fd) os =
  os_metadata :: "path \<Rightarrow> ('w, metadata) io"
  os_open :: "open_options \<Rightarrow> path \<Rightarrow> ('w, 'fd) io"
  os_set_len :: "'fd \<Rightarrow> u64 \<Rightarrow> ('w, unit) io"
  os_set_times :: "'fd \<Rightarrow> system_time option \<Rightarrow> system_time option \<Rightarrow> ('w, unit) io"
  os_fd_metadata :: "'fd \<Rightarrow> ('w, metadata) io"
  os_seek :: "'fd \<Rightarrow> u64 \<Rightarrow> ('w, u64) io"
  os_read :: "'fd \<Rightarrow> nat \<Rightarrow> ('w, bytes) io"
  os_write_all :: "'fd \<Rightarrow> bytes \<Rightarrow> ('w, unit) io"
  os_set_permissions :: "path \<Rightarrow> u32 \<Rightarrow> ('w, unit) io"
  os_chown :: "path \<Rightarrow> u32 option \<Rightarrow> u32 option \<Rightarrow> ('w, unit) io"
  os_create_dir :: "path \<Rightarrow> ('w, unit) io"
  os_read_dir :: "path \<Rightarrow> ('w, 'fd) io"
  os_next_entry :: "'fd \<Rightarrow> ('w, os_entry option) io"
  os_remove_dir_all :: "path \<Rightarrow> ('w, unit) io"
  os_remove_file :: "path \<Rightarrow> ('w, unit) io"
  os_rename :: "path \<Rightarrow> path \<Rightarrow> ('w, unit) io"

subsection \<open>The backend's state\<close>

record 'w disk =
  inode_map :: "u64 \<rightharpoonup> path"
  dk_world :: 'w

definition ROOT_INODE :: u64 where
  "ROOT_INODE = 1"

definition disk_new :: "path \<Rightarrow> 'w \<Rightarrow> 'w disk" where
  "disk_new root w = \<lparr>inode_map = [ROOT_INODE \<mapsto> root], dk_world = w\<rparr>"

text \<open>A call on the operating system.\<close>

definition sys :: "('w, 'a) io \<Rightarrow> ('w disk, 'a) io" where
  "sys m d = (case m (dk_world d) of (r, w) \<Rightarrow> (r, d\<lparr>dk_world := w\<rparr>))"

definition inode_not_found :: io_error where
  "inode_not_found = io_error_new KNotFound (ascii ''Inode not found. Have you LOOKUPed it yet?'')"

definition get_path :: "u64 \<Rightarrow> ('w disk, path) io" where
  "get_path inode d = (case inode_map d inode of
      Some path \<Rightarrow> (Ok path, d)
    | None \<Rightarrow> (Err inode_not_found, d))"

text \<open>\<open>self.inode_map.entry(ino).or_insert(path)\<close>, \<open>insert\<close> and \<open>remove\<close>\<close>

definition or_insert :: "u64 \<Rightarrow> path \<Rightarrow> ('w disk, unit) io" where
  "or_insert ino path d = (case inode_map d ino of
      Some _ \<Rightarrow> (Ok (), d)
    | None \<Rightarrow> (Ok (), d\<lparr>inode_map := (inode_map d)(ino \<mapsto> path)\<rparr>))"

definition map_insert :: "u64 \<Rightarrow> path \<Rightarrow> ('w disk, unit) io" where
  "map_insert ino path d = (Ok (), d\<lparr>inode_map := (inode_map d)(ino \<mapsto> path)\<rparr>)"

definition map_remove :: "u64 \<Rightarrow> ('w disk, unit) io" where
  "map_remove ino d = (Ok (), d\<lparr>inode_map := (inode_map d)(ino := None)\<rparr>)"

subsection \<open>Operations\<close>

definition disk_lookup :: "('w, 'fd) os \<Rightarrow> u64 \<Rightarrow> path \<Rightarrow> ('w disk, u64) io" where
  "disk_lookup os dir_inode filename =
     io_bind (get_path dir_inode) (\<lambda>dir.
     let path = path_push dir filename in
     io_bind (sys (os_metadata os path)) (\<lambda>meta.
     io_bind (or_insert (md_ino meta) path) (\<lambda>_.
     io_return (md_ino meta))))"

text \<open>\<open>.into()\<close> and \<open>from_unix\<close> panic on what they do not represent.\<close>

definition or_panic :: "'a option \<Rightarrow> ('s, 'a) io" where
  "or_panic v = (case v of Some x \<Rightarrow> io_return x | None \<Rightarrow> io_panic)"

definition disk_get_attr :: "('w, 'fd) os \<Rightarrow> u64 \<Rightarrow> ('w disk, file_attr) io" where
  "disk_get_attr os inode =
     io_bind (get_path inode) (\<lambda>path.
     io_bind (sys (os_metadata os path)) (\<lambda>meta.
     io_bind (or_panic (file_type_from_std (md_mode meta))) (\<lambda>file_type.
     io_bind (io_lift (md_accessed meta)) (\<lambda>accessed.
     io_bind (io_lift (md_modified meta)) (\<lambda>modified.
     io_bind (or_panic (from_unix (md_ctime meta))) (\<lambda>change_time.
     io_return
       \<lparr>fa_file_type = file_type, fa_size = md_len meta, fa_blocks = md_blocks meta,
        fa_access_time = accessed, fa_modification_time = modified, fa_change_time = change_time,
        fa_permissions = ucast (md_mode meta), fa_n_hard_links = ucast (md_nlink meta),
        fa_uid = md_uid meta, fa_gid = md_gid meta, fa_rdev = ucast (md_rdev meta),
        fa_block_size = ucast (md_blksize meta)\<rparr>))))))"

text \<open>\<open>if c { .. }\<close> around a fallible step\<close>

definition io_when :: "bool \<Rightarrow> ('s, unit) io \<Rightarrow> ('s, unit) io" where
  "io_when c m = (if c then m else io_return ())"

definition disk_set_attr :: "('w, 'fd) os \<Rightarrow> u64 \<Rightarrow> u64 option \<Rightarrow> system_time option
    \<Rightarrow> system_time option \<Rightarrow> u16 option \<Rightarrow> u32 option \<Rightarrow> u32 option \<Rightarrow> ('w disk, unit) io" where
  "disk_set_attr os inode sz atime mtime permissions uid gid =
     io_bind (get_path inode) (\<lambda>path.
     io_bind (case sz of
         None \<Rightarrow> io_return ()
       | Some n \<Rightarrow> io_bind (sys (os_open os (open_options_new\<lparr>oo_write := True\<rparr>) path)) (\<lambda>file.
           sys (os_set_len os file n))) (\<lambda>_.
     io_bind (io_when (is_some atime \<or> is_some mtime)
         (io_bind (sys (os_open os (open_options_new\<lparr>oo_write := True\<rparr>) path)) (\<lambda>file.
           sys (os_set_times os file atime mtime)))) (\<lambda>_.
     io_bind (case permissions of
         None \<Rightarrow> io_return ()
       | Some perms \<Rightarrow> sys (os_set_permissions os path (ucast perms))) (\<lambda>_.
     io_when (is_some uid \<or> is_some gid) (sys (os_chown os path uid gid))))))"

definition stats_unsupported :: io_error where
  "stats_unsupported = io_error_new KUnsupported (ascii ''Server does not support stats'')"

definition disk_stats :: "('w disk, fs_stats) io" where
  "disk_stats = io_fail stats_unsupported"

definition O_EXCL :: u32 where "O_EXCL = 0x80"
definition O_TRUNC :: u32 where "O_TRUNC = 0x200"

definition create_options :: "u32 \<Rightarrow> open_options" where
  "create_options unix_flags =
     (let opts = open_options_new\<lparr>oo_write := True, oo_create := True\<rparr>;
          opts = (if unix_flags AND O_EXCL \<noteq> 0 then opts\<lparr>oo_create_new := True\<rparr> else opts)
      in if unix_flags AND O_TRUNC \<noteq> 0 then opts\<lparr>oo_truncate := True\<rparr> else opts)"

definition disk_create_file :: "('w, 'fd) os \<Rightarrow> u64 \<Rightarrow> u16 \<Rightarrow> u32 \<Rightarrow> path \<Rightarrow> ('w disk, u64) io" where
  "disk_create_file os parent_inode perms unix_flags filename =
     io_bind (get_path parent_inode) (\<lambda>dir.
     let path = path_push dir filename in
     io_bind (sys (os_open os (create_options unix_flags) path)) (\<lambda>file.
     io_bind (sys (os_set_permissions os path (ucast perms))) (\<lambda>_.
     io_bind (sys (os_fd_metadata os file)) (\<lambda>meta.
     io_bind (or_insert (md_ino meta) path) (\<lambda>_.
     io_return (md_ino meta))))))"

definition disk_create_dir :: "('w, 'fd) os \<Rightarrow> u64 \<Rightarrow> u16 \<Rightarrow> path \<Rightarrow> ('w disk, u64) io" where
  "disk_create_dir os parent_inode permissions dir_name =
     io_bind (get_path parent_inode) (\<lambda>dir.
     let path = path_push dir dir_name in
     io_bind (sys (os_create_dir os path)) (\<lambda>_.
     io_bind (sys (os_set_permissions os path (ucast permissions))) (\<lambda>_.
     io_bind (sys (os_metadata os path)) (\<lambda>meta.
     io_bind (or_insert (md_ino meta) path) (\<lambda>_.
     io_return (md_ino meta))))))"

text \<open>\<open>vec![0; len]\<close> panics on a capacity above \<open>isize::MAX\<close>.\<close>

definition zeroed_buffer :: "u64 \<Rightarrow> ('s, nat) io" where
  "zeroed_buffer len = (if unat len < 2 ^ 63 then io_return (unat len) else io_panic)"

definition disk_read :: "('w, 'fd) os \<Rightarrow> u64 \<Rightarrow> u64 \<Rightarrow> u64 \<Rightarrow> ('w disk, bytes) io" where
  "disk_read os inode offset len =
     io_bind (get_path inode) (\<lambda>path.
     io_bind (sys (os_open os (open_options_new\<lparr>oo_read := True\<rparr>) path)) (\<lambda>file.
     io_bind (zeroed_buffer len) (\<lambda>n.
     io_bind (sys (os_seek os file offset)) (\<lambda>_.
     sys (os_read os file n)))))"

definition disk_write :: "('w, 'fd) os \<Rightarrow> u64 \<Rightarrow> u64 \<Rightarrow> bytes \<Rightarrow> ('w disk, unit) io" where
  "disk_write os inode offset data =
     io_bind (get_path inode) (\<lambda>path.
     io_bind (sys (os_open os (open_options_new\<lparr>oo_write := True\<rparr>) path)) (\<lambda>file.
     io_bind (sys (os_seek os file offset)) (\<lambda>_.
     sys (os_write_all os file data))))"

text \<open>
  One turn of \<open>while let Some(entry) = dir.next_entry().await?\<close>: the entry to push, or the end of
  the stream; then the loop. \<open>None\<close> is a loop that never ends.
\<close>

definition next_dir_entry :: "('w, 'fd) os \<Rightarrow> 'fd \<Rightarrow> ('w disk, dir_entry option) io" where
  "next_dir_entry os dir =
     io_bind (sys (os_next_entry os dir)) (\<lambda>item. case item of
         None \<Rightarrow> io_return None
       | Some entry \<Rightarrow>
           io_bind (io_lift (oe_mode entry)) (\<lambda>mode.
           io_bind (or_panic (file_type_from_std mode)) (\<lambda>file_type.
           io_return (Some \<lparr>de_inode = oe_ino entry, de_file_type = file_type,
             de_filename = oe_name entry\<rparr>))))"

partial_function (option) push_entries :: "('w, 'fd) os \<Rightarrow> 'fd \<Rightarrow> dir_entry list \<Rightarrow> 'w disk
    \<Rightarrow> (dir_entry list io_result \<times> 'w disk) option" where
  "push_entries os dir entries d = (case next_dir_entry os dir d of
      (Ok None, d') \<Rightarrow> Some (Ok entries, d')
    | (Ok (Some e), d') \<Rightarrow> push_entries os dir (entries @ [e]) d'
    | (Err e, d') \<Rightarrow> Some (Err e, d')
    | (Panics, d') \<Rightarrow> Some (Panics, d')
    | (Hangs, d') \<Rightarrow> Some (Hangs, d'))"

definition run_loop :: "('s \<Rightarrow> ('a io_result \<times> 's) option) \<Rightarrow> ('s, 'a) io" where
  "run_loop loop s = (case loop s of Some r \<Rightarrow> r | None \<Rightarrow> (Hangs, s))"

text \<open>\<open>fs::metadata(parent).await.map(|m| m.ino()).unwrap_or(inode)\<close>\<close>

definition parent_ino :: "('w, 'fd) os \<Rightarrow> u64 \<Rightarrow> path option \<Rightarrow> ('w disk, u64) io" where
  "parent_ino os inode parent = (case parent of
      None \<Rightarrow> io_return inode
    | Some p \<Rightarrow> io_match (sys (os_metadata os p)) (\<lambda>meta. io_return (md_ino meta)) (\<lambda>_. io_return inode))"

definition disk_read_dir :: "('w, 'fd) os \<Rightarrow> u64 \<Rightarrow> ('w disk, dir_entry list) io" where
  "disk_read_dir os inode =
     io_bind (get_path inode) (\<lambda>path.
     io_bind (sys (os_read_dir os path)) (\<lambda>dir.
     io_bind (parent_ino os inode (path_parent path)) (\<lambda>parent_inode.
     run_loop (push_entries os dir
       [\<lparr>de_inode = inode, de_file_type = Directory, de_filename = [dot]\<rparr>,
        \<lparr>de_inode = parent_inode, de_file_type = Directory, de_filename = [dot, dot]\<rparr>]))))"

definition disk_remove :: "('w, 'fd) os \<Rightarrow> u64 \<Rightarrow> ('w disk, unit) io" where
  "disk_remove os inode =
     io_bind (get_path inode) (\<lambda>path.
     io_bind (sys (os_metadata os path)) (\<lambda>meta.
     io_bind (if mode_is S_IFDIR (md_mode meta) then sys (os_remove_dir_all os path)
              else sys (os_remove_file os path)) (\<lambda>_.
     map_remove inode)))"

definition dest_is_dir :: io_error where
  "dest_is_dir = io_error_new KAlreadyExists (ascii ''Destination is a dir'')"

definition types_must_match :: io_error where
  "types_must_match =
     io_error_new KInvalidInput (ascii ''Destination and source file types must match'')"

text \<open>The body of \<open>if let Ok(dest_inode) = self.lookup(..)\<close>\<close>

definition clear_destination :: "('w, 'fd) os \<Rightarrow> u64 \<Rightarrow> u64 \<Rightarrow> ('w disk, unit) io" where
  "clear_destination os inode dest_inode =
     io_bind (disk_get_attr os dest_inode) (\<lambda>dest.
     io_bind (disk_get_attr os inode) (\<lambda>self.
     if fa_file_type dest = Directory then io_fail dest_is_dir
     else if fa_file_type dest = RegularFile \<and> fa_file_type dest \<noteq> fa_file_type self
       then io_fail types_must_match
     else disk_remove os dest_inode))"

definition disk_rename :: "('w, 'fd) os \<Rightarrow> u64 \<Rightarrow> u64 \<Rightarrow> path \<Rightarrow> ('w disk, unit) io" where
  "disk_rename os inode dest_parent_inode dest_filename =
     io_bind (io_match (disk_lookup os dest_parent_inode dest_filename)
         (clear_destination os inode) (\<lambda>_. io_return ())) (\<lambda>_.
     io_bind (get_path inode) (\<lambda>old_path.
     io_bind (get_path dest_parent_inode) (\<lambda>dest_dir.
     let new_path = path_push dest_dir dest_filename in
     io_bind (sys (os_rename os old_path new_path)) (\<lambda>_.
     map_insert inode new_path))))"

definition disk_backend :: "('w, 'fd) os \<Rightarrow> 'w disk fs_backend" where
  "disk_backend os =
     \<lparr>be_lookup = disk_lookup os, be_get_attr = disk_get_attr os, be_set_attr = disk_set_attr os,
      be_stats = disk_stats, be_create_file = disk_create_file os,
      be_create_dir = disk_create_dir os, be_read = disk_read os, be_write = disk_write os,
      be_read_dir = disk_read_dir os, be_remove = disk_remove os, be_rename = disk_rename os\<rparr>"

end
