(* ===== verification/Disk_Laws.thy ===== *)
theory Disk_Laws
  imports Disk
begin

text \<open>
  What the operations of the disk backend keep and change: the entries of the inode map, the
  containment of the served paths in the exported directory, and the results they can give.
\<close>

subsection \<open>The state-changing primitives\<close>

lemma sys_inode_map [simp]: "inode_map (snd (sys m d)) = inode_map d"
  by (simp add: sys_def split: prod.splits)

lemma keeps_sys: "(\<And>d w. I (d\<lparr>dk_world := w\<rparr>) = I d) \<Longrightarrow> keeps I (sys m)"
  by (rule keepsI) (auto simp: sys_def split: prod.splits)

lemma get_path_Ok: "get_path i d = (Ok p, d') \<longleftrightarrow> inode_map d i = Some p \<and> d' = d"
  by (auto simp: get_path_def split: option.splits)

lemma get_path_known [simp]: "inode_map d i = Some p \<Longrightarrow> get_path i d = (Ok p, d)"
  by (simp add: get_path_def)

lemma get_path_unknown [simp]: "inode_map d i = None \<Longrightarrow> get_path i d = (Err inode_not_found, d)"
  by (simp add: get_path_def)

lemma or_insert_Ok: "or_insert ino p d = (r, d') \<longleftrightarrow> r = Ok () \<and> d' = (if inode_map d ino = None
    then d\<lparr>inode_map := (inode_map d)(ino \<mapsto> p)\<rparr> else d)"
  by (auto simp: or_insert_def split: option.splits)

lemma or_panic_simps [simp]: "or_panic (Some x) = io_return x" "or_panic None = io_panic"
  by (simp_all add: or_panic_def)

lemma keeps_or_panic [keeps_intros]: "keeps I (or_panic v)"
  by (cases v) (auto intro: keeps_intros)

lemma keeps_io_when [keeps_intros]: "keeps I m \<Longrightarrow> keeps I (io_when c m)"
  by (simp add: io_when_def keeps_return)

lemma keeps_zeroed_buffer [keeps_intros]: "keeps I (zeroed_buffer n)"
  by (simp add: zeroed_buffer_def keeps_intros)

text \<open>Induction over the turns of the listing loop, on runs that end.\<close>

lemma push_entries_turns [consumes 1, case_names ended turn failed panicked hung]:
  assumes "push_entries os dir es d = Some y"
    and "\<And>es d d'. next_dir_entry os dir d = (Ok None, d') \<Longrightarrow> P es d (Ok es, d')"
    and "\<And>es d e d' y. next_dir_entry os dir d = (Ok (Some e), d') \<Longrightarrow> P (es @ [e]) d' y \<Longrightarrow> P es d y"
    and "\<And>es d e d'. next_dir_entry os dir d = (Err e, d') \<Longrightarrow> P es d (Err e, d')"
    and "\<And>es d d'. next_dir_entry os dir d = (Panics, d') \<Longrightarrow> P es d (Panics, d')"
    and "\<And>es d d'. next_dir_entry os dir d = (Hangs, d') \<Longrightarrow> P es d (Hangs, d')"
  shows "P es d y"
proof -
  have "os' = os \<longrightarrow> dir' = dir \<longrightarrow> P es' d' y'" if "push_entries os' dir' es' d' = Some y'" for os' dir' es' d' y'
  proof (rule push_entries.raw_induct [OF _ that], intro impI)
    fix loop os' dir' es' d' y'
    assume IH: "\<And>os' dir' es' d' y'. loop os' dir' es' d' = Some y' \<Longrightarrow> os' = os \<longrightarrow> dir' = dir \<longrightarrow> P es' d' y'"
      and turn: "(case next_dir_entry os' dir' d' of
         (Ok None, d') \<Rightarrow> Some (Ok es', d')
       | (Ok (Some e), d') \<Rightarrow> loop os' dir' (es' @ [e]) d'
       | (Err e, d') \<Rightarrow> Some (Err e, d')
       | (Panics, d') \<Rightarrow> Some (Panics, d')
       | (Hangs, d') \<Rightarrow> Some (Hangs, d')) = Some y'" and "os' = os" "dir' = dir"
    obtain r d1 where "next_dir_entry os dir d' = (r, d1)" by fastforce
    with IH turn \<open>os' = os\<close> \<open>dir' = dir\<close> assms(2-6) show "P es' d' y'"
      by (auto split: io_result.splits option.splits)
  qed
  with assms(1) show ?thesis by blast
qed

lemma push_entries_keeps:
  assumes "push_entries os dir es d = Some y" and "keeps I (next_dir_entry os dir)" and "I d"
  shows "I (snd y)"
  using assms(1,3) by (induction rule: push_entries_turns) (auto dest: keepsD [OF assms(2)])

lemma keeps_push_entries:
  assumes "\<And>m :: ('w, os_entry option) io. keeps I (sys m)"
  shows "keeps I (run_loop (push_entries os dir es))"
proof (rule keepsI)
  fix d r d' assume "I d" and run: "run_loop (push_entries os dir es) d = (r, d')"
  have "keeps I (next_dir_entry os dir)"
    unfolding next_dir_entry_def by (intro keeps_intros assms)
  with \<open>I d\<close> run push_entries_keeps [of os dir es d _ I] show "I d'"
    by (fastforce simp: run_loop_def split: option.splits)
qed

lemma keeps_parent_ino:
  assumes "\<And>m :: ('w, metadata) io. keeps I (sys m)"
  shows "keeps I (parent_ino os i p)"
  unfolding parent_ino_def by (intro keeps_intros assms)

subsection \<open>The rule for every operation\<close>

text \<open>
  An invariant of the inode map that gives each known path a property \<open>ok\<close>, and that adding,
  replacing or removing an entry keeps under stated conditions, is kept by the operations. The
  conditions name the entries an operation may touch.
\<close>

locale map_invariant =
  fixes I :: "(u64 \<rightharpoonup> path) \<Rightarrow> bool" and ok :: "path \<Rightarrow> bool"
  assumes known: "I m \<Longrightarrow> m i = Some p \<Longrightarrow> ok p"
    and grow: "I m \<Longrightarrow> m i = None \<Longrightarrow> ok p \<Longrightarrow> I (m(i \<mapsto> p))"
begin

abbreviation inv :: "'w disk \<Rightarrow> bool" where
  "inv d \<equiv> I (inode_map d)"

lemma keeps_call: "keeps inv (sys m)"
  by (rule keeps_sys) simp

lemma keeps_path:
  assumes "\<And>p. ok p \<Longrightarrow> keeps inv (f p)"
  shows "keeps inv (io_bind (get_path i) f)"
proof (rule keepsI)
  fix s :: "'a disk" and r s'
  assume "inv s" and "io_bind (get_path i) f s = (r, s')"
  from this(2) show "inv s'"
    by (rule io_bind_cases)
       (use \<open>inv s\<close> assms known in \<open>auto simp: get_path_def split: option.splits dest: keepsD\<close>)
qed

lemma keeps_entry: "ok p \<Longrightarrow> keeps inv (or_insert i p)"
  by (rule keepsI) (auto simp: or_insert_Ok intro: grow split: if_splits)

lemma keeps_lookup:
  "(\<And>p. ok p \<Longrightarrow> ok (path_push p name)) \<Longrightarrow> keeps inv (disk_lookup os i name)"
  unfolding disk_lookup_def Let_def by (intro keeps_path keeps_intros keeps_call keeps_entry) auto

lemma keeps_create_file:
  "(\<And>p. ok p \<Longrightarrow> ok (path_push p name)) \<Longrightarrow> keeps inv (disk_create_file os i perms flags name)"
  unfolding disk_create_file_def Let_def
  by (intro keeps_path keeps_intros keeps_call keeps_entry) auto

lemma keeps_create_dir:
  "(\<And>p. ok p \<Longrightarrow> ok (path_push p name)) \<Longrightarrow> keeps inv (disk_create_dir os i perms name)"
  unfolding disk_create_dir_def Let_def
  by (intro keeps_path keeps_intros keeps_call keeps_entry) auto

lemma keeps_get_attr: "keeps inv (disk_get_attr os i)"
  unfolding disk_get_attr_def by (intro keeps_path keeps_intros keeps_call)

lemma keeps_set_attr: "keeps inv (disk_set_attr os i sz atime mtime perms uid gid)"
  unfolding disk_set_attr_def by (intro keeps_path keeps_intros keeps_call)

lemma keeps_stats: "keeps inv disk_stats"
  unfolding disk_stats_def by (intro keeps_intros)

lemma keeps_read: "keeps inv (disk_read os i offset n)"
  unfolding disk_read_def by (intro keeps_path keeps_intros keeps_call)

lemma keeps_write: "keeps inv (disk_write os i offset data)"
  unfolding disk_write_def by (intro keeps_path keeps_intros keeps_call)

lemma keeps_read_dir: "keeps inv (disk_read_dir os i)"
  unfolding disk_read_dir_def by (intro keeps_path keeps_intros keeps_call keeps_parent_ino keeps_push_entries)

lemma keeps_remove:
  "(\<And>m. I m \<Longrightarrow> I (m(i := None))) \<Longrightarrow> keeps inv (disk_remove os i)"
  unfolding disk_remove_def
  by (intro keeps_path keeps_intros keeps_call) (simp add: keeps_def map_remove_def)

lemma keeps_rename:
  assumes "\<And>p. ok p \<Longrightarrow> ok (path_push p name)"
    and "\<And>m j. I m \<Longrightarrow> I (m(j := None))"
    and "\<And>m p. I m \<Longrightarrow> ok p \<Longrightarrow> I (m(i \<mapsto> p))"
  shows "keeps inv (disk_rename os i dest name)"
proof -
  have clear: "keeps inv (clear_destination os i j)" for j
    unfolding clear_destination_def
    by (intro keeps_intros keeps_get_attr keeps_remove assms(2))
  have insert: "ok p \<Longrightarrow> keeps inv (map_insert i p)" for p
    by (simp add: keeps_def map_insert_def assms(3))
  show ?thesis
    unfolding disk_rename_def Let_def
    by (intro keeps_bind keeps_match keeps_path keeps_call keeps_return keeps_lookup
        clear insert assms(1))
qed

end

subsection \<open>Staying below the exported directory\<close>

text \<open>
  The components of a path between its slashes, empty ones included. A name is safe when it is
  relative and climbs nowhere; a path is inside \<open>root\<close> when it is \<open>root\<close> followed by components
  none of which climbs.
\<close>

fun comps :: "path \<Rightarrow> bytes list" where
  "comps [] = [[]]"
| "comps (b # bs) =
     (if b = slash then [] # comps bs
      else case comps bs of [] \<Rightarrow> [[b]] | c # cs \<Rightarrow> (b # c) # cs)"

definition safe_name :: "path \<Rightarrow> bool" where
  "safe_name p \<longleftrightarrow> \<not> is_absolute p \<and> [dot, dot] \<notin> set (comps p)"

definition inside :: "path \<Rightarrow> path \<Rightarrow> bool" where
  "inside root p \<longleftrightarrow> prefix root p \<and>
     (let rest = drop (length root) p
      in [dot, dot] \<notin> set (comps rest) \<and>
         (if root = [] then \<not> is_absolute p else rest = [] \<or> last root = slash \<or> is_absolute rest))"

lemma comps_nonempty [simp]: "comps p \<noteq> []"
  by (induction p) (auto split: list.split)

lemma comps_slash: "comps (p @ slash # q) = comps p @ comps q"
proof (induction p)
  case (Cons b p)
  obtain c cs where "comps p = c # cs" by (cases "comps p") auto
  with Cons show ?case by simp
qed simp

lemma inside_root [simp]: "inside root root"
  by (simp add: inside_def is_absolute_def)

lemma inside_push:
  assumes "inside root p" and "safe_name name"
  shows "inside root (path_push p name)"
proof -
  from assms(1) obtain rest where p: "p = root @ rest"
    by (auto simp: inside_def prefix_def)
  have rest: "[dot, dot] \<notin> set (comps rest)" and
    start: "if root = [] then \<not> is_absolute p else rest = [] \<or> last root = slash \<or> is_absolute rest"
    using assms(1) p by (auto simp: inside_def Let_def)
  have name: "\<not> is_absolute name" "[dot, dot] \<notin> set (comps name)"
    using assms(2) by (auto simp: safe_name_def)
  consider (sep) "p \<noteq> []" "last p \<noteq> slash" | (empty) "p = []" | (joined) "p \<noteq> []" "last p = slash"
    by blast
  then show ?thesis
  proof cases
    case sep
    then have "path_push p name = root @ (rest @ slash # name)"
      using name p by (simp add: path_push_def)
    moreover have "rest = [] \<Longrightarrow> root \<noteq> []" using sep p by auto
    ultimately show ?thesis
      using rest start name p comps_slash [of rest name]
      by (cases rest)
         (auto simp: inside_def is_absolute_def simp del: comps.simps split: if_splits)
  next
    case empty
    with name p start show ?thesis by (simp add: inside_def path_push_def)
  next
    case joined
    show ?thesis
    proof (cases "rest = []")
      case True
      with joined p name show ?thesis by (simp add: inside_def path_push_def)
    next
      case False
      with joined p obtain r where r: "rest = r @ [slash]"
        by (metis append_butlast_last_id last_appendR)
      then have "comps (rest @ name) = comps r @ comps name" "comps rest = comps r @ [[]]"
        using comps_slash [of r name] comps_slash [of r "[]"] by simp_all
      with joined p name rest start False show ?thesis
        by (auto simp: inside_def path_push_def is_absolute_def Let_def split: list.splits if_splits)
    qed
  qed
qed

definition confined_map :: "path \<Rightarrow> (u64 \<rightharpoonup> path) \<Rightarrow> bool" where
  "confined_map root m \<longleftrightarrow> (\<forall>i p. m i = Some p \<longrightarrow> inside root p)"

abbreviation confined :: "path \<Rightarrow> 'w disk \<Rightarrow> bool" where
  "confined root d \<equiv> confined_map root (inode_map d)"

interpretation confine: map_invariant "confined_map root" "inside root" for root
  by unfold_locales (auto simp: confined_map_def)

lemma confined_new [simp]: "confined root (disk_new root w)"
  by (simp add: confined_map_def disk_new_def)

lemma confined_update:
  "confined_map root m \<Longrightarrow> confined_map root (m(i := None))"
  "confined_map root m \<Longrightarrow> inside root p \<Longrightarrow> confined_map root (m(i \<mapsto> p))"
  by (auto simp: confined_map_def)

text \<open>The names a message asks the backend to resolve\<close>

fun message_names :: "message \<Rightarrow> path list" where
  "message_names (LookupReq _ _ name) = [name]"
| "message_names (CreateReq _ _ _ _ _ name) = [name]"
| "message_names (MoveReq _ _ _ name) = [name]"
| "message_names _ = []"

lemma snd_reply [simp]:
  "snd (reply_with rid f r) = snd r" "snd (reply_chunks rid buf) = snd buf"
  by (auto simp: reply_with_def reply_chunks_def split: prod.split io_result.split)

lemma snd_handle_readdir:
  "snd (handle_msg fmt B (ReaddirReq rid i) s) = snd (be_read_dir B i s)"
  by (auto simp: serialize_eq split: prod.split io_result.split)

lemma confined_handle:
  assumes "list_all safe_name (message_names m)"
  shows "keeps (confined root) (handle_msg fmt (disk_backend os) m)"
proof -
  have up: "keeps (confined root) (disk_lookup os i name)"
    "keeps (confined root) (disk_create_file os i perms flags name)"
    "keeps (confined root) (disk_create_dir os i mode name)"
    "keeps (confined root) (disk_rename os i j name)" if "safe_name name" for i j perms flags mode name
    using that
    by (auto intro!: confine.keeps_lookup confine.keeps_create_file confine.keeps_create_dir
        confine.keeps_rename inside_push confined_update)
  have rest: "keeps (confined root) (disk_get_attr os i)"
    "keeps (confined root) (disk_set_attr os i sz at mt p u g)" "keeps (confined root) disk_stats"
    "keeps (confined root) (disk_read os i off n)" "keeps (confined root) (disk_write os i off dat)"
    "keeps (confined root) (disk_read_dir os i)" "keeps (confined root) (disk_remove os i)"
    for i sz at mt p u g off n dat
    by (auto intro: confine.keeps_get_attr confine.keeps_set_attr confine.keeps_stats
        confine.keeps_read confine.keeps_write confine.keeps_read_dir confine.keeps_remove
        confined_update)
  show ?thesis
    using assms up rest
    by (cases m)
       (auto simp: keeps_def disk_backend_def snd_handle_readdir
         simp del: handle_msg.simps(9) split: option.splits)
qed

subsection \<open>Entries once handed out\<close>

text \<open>Every operation but a removal or a renaming leaves known inodes at their paths.\<close>

interpretation entry: map_invariant "\<lambda>m. m i = Some p" "\<lambda>_. True" for i p
  by unfold_locales auto

definition keeps_entries :: "('w disk, 'a) io \<Rightarrow> bool" where
  "keeps_entries m \<longleftrightarrow> (\<forall>d i p. inode_map d i = Some p \<longrightarrow> inode_map (snd (m d)) i = Some p)"

lemma keeps_entriesI:
  "(\<And>i p. keeps (\<lambda>d. inode_map d i = Some p) m) \<Longrightarrow> keeps_entries m"
  by (auto simp: keeps_entries_def keeps_def)

lemma entries_kept:
  "keeps_entries (disk_lookup os i name)" "keeps_entries (disk_get_attr os i)"
  "keeps_entries (disk_set_attr os i sz at mt perms uid gid)"
  "keeps_entries (disk_create_file os i perms' flags name)"
  "keeps_entries (disk_create_dir os i perms' name)"
  "keeps_entries (disk_read os i offset n)" "keeps_entries (disk_write os i offset data)"
  "keeps_entries (disk_read_dir os i)"
  by (rule keeps_entriesI, rule entry.keeps_lookup entry.keeps_get_attr entry.keeps_set_attr
      entry.keeps_create_file entry.keeps_create_dir entry.keeps_read entry.keeps_write
      entry.keeps_read_dir, (rule TrueI)?)+

lemma remove_entries:
  assumes "inode_map d j = Some p" and "j \<noteq> i"
  shows "inode_map (snd (disk_remove os i d)) j = Some p"
  using entry.keeps_remove [of j p i os] assms by (simp add: keeps_def)

text \<open>An inode that is handed out is in the map, under its new path or the one it already had.\<close>

lemma sys_Ok: "sys m d = (r, d') \<longleftrightarrow> (\<exists>w. m (dk_world d) = (r, w) \<and> d' = d\<lparr>dk_world := w\<rparr>)"
  by (auto simp: sys_def split: prod.splits)

lemma disk_lookup_Ok:
  assumes "disk_lookup os i name d = (Ok ino, d')"
  obtains dir meta w where "inode_map d i = Some dir"
    and "os_metadata os (path_push dir name) (dk_world d) = (Ok meta, w)" and "ino = md_ino meta"
    and "dk_world d' = w"
    and "inode_map d' = (if inode_map d ino = None then (inode_map d)(ino \<mapsto> path_push dir name)
                         else inode_map d)"
  using assms
  by (auto simp: disk_lookup_def Let_def get_path_Ok sys_Ok or_insert_Ok elim!: io_bind_OkE)

lemma disk_create_file_Ok:
  assumes "disk_create_file os i perms flags name d = (Ok ino, d')"
  obtains dir where "inode_map d i = Some dir"
    and "inode_map d' = (if inode_map d ino = None then (inode_map d)(ino \<mapsto> path_push dir name)
                         else inode_map d)"
  using assms
  by (auto simp: disk_create_file_def Let_def get_path_Ok sys_Ok or_insert_Ok elim!: io_bind_OkE)

lemma disk_create_dir_Ok:
  assumes "disk_create_dir os i perms name d = (Ok ino, d')"
  obtains dir where "inode_map d i = Some dir"
    and "inode_map d' = (if inode_map d ino = None then (inode_map d)(ino \<mapsto> path_push dir name)
                         else inode_map d)"
  using assms
  by (auto simp: disk_create_dir_def Let_def get_path_Ok sys_Ok or_insert_Ok elim!: io_bind_OkE)

lemma disk_remove_Ok:
  assumes "disk_remove os i d = (Ok u, d')"
  obtains p meta w w' where "inode_map d i = Some p"
    and "os_metadata os p (dk_world d) = (Ok meta, w)"
    and "(if mode_is S_IFDIR (md_mode meta) then os_remove_dir_all os p else os_remove_file os p) w
       = (Ok (), w')"
    and "d' = \<lparr>inode_map = (inode_map d)(i := None), dk_world = w'\<rparr>"
  using assms
  by (auto simp: disk_remove_def get_path_Ok sys_Ok map_remove_def elim!: io_bind_OkE split: if_splits)

lemma disk_rename_Ok:
  assumes "disk_rename os i dest name d = (Ok u, d')"
  obtains old dir e w where "inode_map e i = Some old" and "inode_map e dest = Some dir"
    and "os_rename os old (path_push dir name) (dk_world e) = (Ok (), w)"
    and "d' = \<lparr>inode_map = (inode_map e)(i \<mapsto> path_push dir name), dk_world = w\<rparr>"
    and "io_match (disk_lookup os dest name) (clear_destination os i) (\<lambda>_. io_return ()) d = (Ok (), e)"
  using assms
  by (auto simp: disk_rename_def Let_def get_path_Ok sys_Ok map_insert_def elim!: io_bind_OkE)

subsection \<open>Inodes that were never handed out\<close>

lemma unknown_bind:
  "inode_map d i = None \<Longrightarrow> io_bind (get_path i) f d = (Err inode_not_found, d)"
  by (simp add: io_bind_def)

lemma unknown_inode:
  assumes "inode_map d i = None"
  shows "disk_lookup os i name d = (Err inode_not_found, d)"
    and "disk_get_attr os i d = (Err inode_not_found, d)"
    and "disk_set_attr os i sz at mt perms uid gid d = (Err inode_not_found, d)"
    and "disk_create_file os i perms' flags name d = (Err inode_not_found, d)"
    and "disk_create_dir os i perms' name d = (Err inode_not_found, d)"
    and "disk_read os i offset n d = (Err inode_not_found, d)"
    and "disk_write os i offset data d = (Err inode_not_found, d)"
    and "disk_read_dir os i d = (Err inode_not_found, d)"
    and "disk_remove os i d = (Err inode_not_found, d)"
  using assms
  by (simp_all add: disk_lookup_def disk_get_attr_def disk_set_attr_def disk_create_file_def
      disk_create_dir_def disk_read_def disk_write_def disk_read_dir_def disk_remove_def unknown_bind)

subsection \<open>Directory listings\<close>

text \<open>What a directory stream yields before it ends, and the entry the code makes of an item.\<close>

inductive stream_gives :: "('w, 'fd) os \<Rightarrow> 'fd \<Rightarrow> 'w \<Rightarrow> os_entry list \<Rightarrow> 'w \<Rightarrow> bool"
  for os :: "('w, 'fd) os" and dir :: 'fd where
  stream_end: "os_next_entry os dir w = (Ok None, w') \<Longrightarrow> stream_gives os dir w [] w'"
| stream_item: "os_next_entry os dir w = (Ok (Some e), w') \<Longrightarrow> stream_gives os dir w' es w''
   \<Longrightarrow> stream_gives os dir w (e # es) w''"

inductive_cases stream_giveE: "stream_gives os dir w (e # es) w'"

definition listed :: "os_entry \<Rightarrow> dir_entry \<Rightarrow> bool" where
  "listed e de \<longleftrightarrow> de_inode de = oe_ino e \<and> de_filename de = oe_name e
     \<and> (\<exists>mode. oe_mode e = Ok mode \<and> file_type_from_std mode = Some (de_file_type de))"

lemma next_dir_entry_Ok:
  "next_dir_entry os dir d = (Ok item, d') \<longleftrightarrow> (\<exists>e. os_next_entry os dir (dk_world d) = (Ok e, dk_world d')
     \<and> d' = d\<lparr>dk_world := dk_world d'\<rparr> \<and> rel_option listed e item)"
  unfolding next_dir_entry_def
  by (cases item)
     (auto simp: io_bind_def sys_def or_panic_def listed_def split: prod.splits io_result.splits option.splits)

lemma push_entries_Ok:
  assumes "push_entries os dir es d = Some (Ok out, d')"
  shows "\<exists>items listing. out = es @ listing \<and> list_all2 listed items listing
    \<and> stream_gives os dir (dk_world d) items (dk_world d') \<and> d' = d\<lparr>dk_world := dk_world d'\<rparr>"
  using assms
proof (induction es d "(Ok out :: dir_entry list io_result, d')" rule: push_entries_turns)
  case ended
  then show ?case by (auto simp: next_dir_entry_Ok intro!: exI [where x = "[]"] stream_end)
next
  case (turn es d e d1)
  from turn.hyps(2) obtain items listing where rest: "out = (es @ [e]) @ listing"
    "list_all2 listed items listing" "stream_gives os dir (dk_world d1) items (dk_world d')"
    "d' = d1\<lparr>dk_world := dk_world d'\<rparr>" by blast
  from turn.hyps(1) obtain x where x: "os_next_entry os dir (dk_world d) = (Ok (Some x), dk_world d1)"
    "d1 = d\<lparr>dk_world := dk_world d1\<rparr>" "listed x e" by (auto simp: next_dir_entry_Ok option_rel_Some2)
  from rest(4) x(2) have "d' = d\<lparr>dk_world := dk_world d'\<rparr>" by (cases d, cases d1, cases d') simp
  with rest x stream_item [OF x(1) rest(3)] show ?case
    by (intro exI [where x = "x # items"] exI [where x = "e # listing"]) simp
qed

text \<open>The loop ends on every stream that does, when the types of its entries can be had.\<close>

lemma push_entries_ends:
  assumes "stream_gives os dir w items w'" and "list_all2 listed items listing" and "dk_world d = w"
  shows "push_entries os dir es d = Some (Ok (es @ listing), d\<lparr>dk_world := w'\<rparr>)"
  using assms
proof (induction w items w' arbitrary: listing es d rule: stream_gives.induct)
  case (stream_end w w')
  then have "next_dir_entry os dir d = (Ok None, d\<lparr>dk_world := w'\<rparr>)" by (simp add: next_dir_entry_Ok)
  with stream_end show ?case by (subst push_entries.simps) simp
next
  case (stream_item w e w1 items w')
  from stream_item.prems(1) obtain de rest where l: "listing = de # rest" "listed e de"
    "list_all2 listed items rest" by (auto simp: list_all2_Cons1)
  from stream_item.hyps(1) stream_item.prems(2) l(2)
  have "next_dir_entry os dir d = (Ok (Some de), d\<lparr>dk_world := w1\<rparr>)" by (simp add: next_dir_entry_Ok)
  with stream_item.IH [OF l(3), of "d\<lparr>dk_world := w1\<rparr>" "es @ [de]"] l(1) show ?case
    by (subst push_entries.simps) simp
qed

lemma disk_read_dir_Ok:
  "disk_read_dir os i d = (Ok es, d') \<longleftrightarrow> (\<exists>p dir w parent d1 items listing. inode_map d i = Some p
    \<and> os_read_dir os p (dk_world d) = (Ok dir, w)
    \<and> parent_ino os i (path_parent p) (d\<lparr>dk_world := w\<rparr>) = (Ok parent, d1)
    \<and> stream_gives os dir (dk_world d1) items (dk_world d')
    \<and> list_all2 listed items listing \<and> d' = d1\<lparr>dk_world := dk_world d'\<rparr>
    \<and> es = \<lparr>de_inode = i, de_file_type = Directory, de_filename = [dot]\<rparr>
         # \<lparr>de_inode = parent, de_file_type = Directory, de_filename = [dot, dot]\<rparr> # listing)"
  (is "?run = ?spec")
proof
  assume ?run
  then obtain p dir d0 parent d1 where p: "inode_map d i = Some p"
    "sys (os_read_dir os p) d = (Ok dir, d0)" "parent_ino os i (path_parent p) d0 = (Ok parent, d1)"
    and loop: "run_loop (push_entries os dir
       [\<lparr>de_inode = i, de_file_type = Directory, de_filename = [dot]\<rparr>,
        \<lparr>de_inode = parent, de_file_type = Directory, de_filename = [dot, dot]\<rparr>]) d1 = (Ok es, d')"
    unfolding disk_read_dir_def by (auto simp: get_path_Ok elim!: io_bind_OkE)
  from loop have "push_entries os dir
       [\<lparr>de_inode = i, de_file_type = Directory, de_filename = [dot]\<rparr>,
        \<lparr>de_inode = parent, de_file_type = Directory, de_filename = [dot, dot]\<rparr>] d1 = Some (Ok es, d')"
    by (auto simp: run_loop_def split: option.splits)
  from push_entries_Ok [OF this] p show ?spec by (auto simp: sys_Ok)
next
  assume ?spec
  then obtain p dir w parent d1 items listing where p: "inode_map d i = Some p"
    "os_read_dir os p (dk_world d) = (Ok dir, w)"
    "parent_ino os i (path_parent p) (d\<lparr>dk_world := w\<rparr>) = (Ok parent, d1)"
    and rest: "stream_gives os dir (dk_world d1) items (dk_world d')" "list_all2 listed items listing"
      "d' = d1\<lparr>dk_world := dk_world d'\<rparr>"
      "es = \<lparr>de_inode = i, de_file_type = Directory, de_filename = [dot]\<rparr>
         # \<lparr>de_inode = parent, de_file_type = Directory, de_filename = [dot, dot]\<rparr> # listing" by blast
  have "sys (os_read_dir os p) d = (Ok dir, d\<lparr>dk_world := w\<rparr>)" using p(2) by (simp add: sys_def)
  with p push_entries_ends [OF rest(1,2) refl] rest(3,4) show ?run
    by (simp add: disk_read_dir_def io_bind_def run_loop_def)
qed

subsection \<open>Results that fit the wire\<close>

text \<open>
  What the operating system is relied on for: error texts are valid and short, times are in
  range, a read gives at most what was asked for, entries of directory streams have short names,
  and a stream that ends has given fewer than \<open>2 ^ 48\<close> of them.
\<close>

definition wf_metadata :: "metadata \<Rightarrow> bool" where
  "wf_metadata meta \<longleftrightarrow>
     (case md_accessed meta of Ok t \<Rightarrow> valid_time t | Err e \<Rightarrow> wf_error e | _ \<Rightarrow> True)
   \<and> (case md_modified meta of Ok t \<Rightarrow> valid_time t | Err e \<Rightarrow> wf_error e | _ \<Rightarrow> True)"

definition wf_os_entry :: "os_entry \<Rightarrow> bool" where
  "wf_os_entry e \<longleftrightarrow> length (oe_name e) < 256 \<and> (case oe_mode e of Err e \<Rightarrow> wf_error e | _ \<Rightarrow> True)"

definition os_fits :: "('w, 'fd) os \<Rightarrow> bool" where
  "os_fits os \<longleftrightarrow>
     (\<forall>p. yields wf_metadata wf_error (os_metadata os p))
   \<and> (\<forall>opts p. yields (\<lambda>_. True) wf_error (os_open os opts p))
   \<and> (\<forall>f n. yields (\<lambda>_. True) wf_error (os_set_len os f n))
   \<and> (\<forall>f at mt. yields (\<lambda>_. True) wf_error (os_set_times os f at mt))
   \<and> (\<forall>f. yields wf_metadata wf_error (os_fd_metadata os f))
   \<and> (\<forall>f n. yields (\<lambda>_. True) wf_error (os_seek os f n))
   \<and> (\<forall>f n. yields (\<lambda>b. length b \<le> n) wf_error (os_read os f n))
   \<and> (\<forall>f b. yields (\<lambda>_. True) wf_error (os_write_all os f b))
   \<and> (\<forall>p m. yields (\<lambda>_. True) wf_error (os_set_permissions os p m))
   \<and> (\<forall>p u g. yields (\<lambda>_. True) wf_error (os_chown os p u g))
   \<and> (\<forall>p. yields (\<lambda>_. True) wf_error (os_create_dir os p))
   \<and> (\<forall>p. yields (\<lambda>_. True) wf_error (os_read_dir os p))
   \<and> (\<forall>dir. yields (pred_option wf_os_entry) wf_error (os_next_entry os dir))
   \<and> (\<forall>dir w items w'. stream_gives os dir w items w' \<longrightarrow> length items < 2 ^ 48)
   \<and> (\<forall>p. yields (\<lambda>_. True) wf_error (os_remove_dir_all os p))
   \<and> (\<forall>p. yields (\<lambda>_. True) wf_error (os_remove_file os p))
   \<and> (\<forall>p q. yields (\<lambda>_. True) wf_error (os_rename os p q))"

lemma yields_sys: "yields P E m \<Longrightarrow> yields P E (sys m)"
  by (rule yieldsI) (auto simp: sys_Ok dest: yields_Ok yields_Err)

lemma wf_texts [simp]:
  "wf_error inode_not_found" "wf_error stats_unsupported" "wf_error dest_is_dir"
  "wf_error types_must_match"
  by (simp_all add: wf_error_def inode_not_found_def stats_unsupported_def dest_is_dir_def
      types_must_match_def ascii_def)

lemma yields_get_path: "yields (\<lambda>_. True) wf_error (get_path i)"
  by (rule yieldsI) (auto simp: get_path_def split: option.splits)

lemma yields_or_insert: "yields (\<lambda>_. True) E (or_insert i p)"
  by (rule yieldsI) (auto simp: or_insert_Ok)

lemma yields_or_panic: "(\<And>x. v = Some x \<Longrightarrow> P x) \<Longrightarrow> yields P E (or_panic v)"
  by (cases v) (auto intro: yields_intros)

lemma yields_lift:
  "(case r of Ok x \<Rightarrow> P x | Err e \<Rightarrow> E e | _ \<Rightarrow> True) \<Longrightarrow> yields P E (io_lift r)"
  by (simp add: yields_def)

lemma yields_weaken: "yields P E m \<Longrightarrow> (\<And>x. P x \<Longrightarrow> Q x) \<Longrightarrow> yields Q E m"
  by (rule yieldsI) (auto dest: yields_Ok yields_Err)

lemma yields_calls:
  assumes "os_fits os"
  shows "yields wf_metadata wf_error (sys (os_metadata os p))"
    and "yields (\<lambda>_. True) wf_error (sys (os_open os opts p))"
    and "yields (\<lambda>_. True) wf_error (sys (os_set_len os f len))"
    and "yields (\<lambda>_. True) wf_error (sys (os_set_times os f at mt))"
    and "yields wf_metadata wf_error (sys (os_fd_metadata os f))"
    and "yields (\<lambda>_. True) wf_error (sys (os_seek os f len))"
    and "yields (\<lambda>b. length b \<le> n) wf_error (sys (os_read os f n))"
    and "yields (\<lambda>_. True) wf_error (sys (os_write_all os f bs))"
    and "yields (\<lambda>_. True) wf_error (sys (os_set_permissions os p mode))"
    and "yields (\<lambda>_. True) wf_error (sys (os_chown os p u g))"
    and "yields (\<lambda>_. True) wf_error (sys (os_create_dir os p))"
    and "yields (\<lambda>_. True) wf_error (sys (os_read_dir os p))"
    and "yields (\<lambda>_. True) wf_error (sys (os_remove_dir_all os p))"
    and "yields (\<lambda>_. True) wf_error (sys (os_remove_file os p))"
    and "yields (\<lambda>_. True) wf_error (sys (os_rename os p q))"
    and "yields (pred_option wf_os_entry) wf_error (sys (os_next_entry os f))"
  using assms by (auto simp: os_fits_def intro: yields_sys)

text \<open>The rule for a call whose value the rest of the operation does not depend on.\<close>

lemmas yields_then = yields_bind [where R = "\<lambda>_. True"]

lemma yields_disk_lookup:
  assumes "os_fits os" shows "yields (\<lambda>_. True) wf_error (disk_lookup os i name)"
  unfolding disk_lookup_def Let_def
  by (rule yields_then [OF yields_get_path], rule yields_bind [OF yields_calls(1) [OF assms]],
      rule yields_then [OF yields_or_insert], rule yields_return, simp)

lemma from_unix_valid: "from_unix s = Some t \<Longrightarrow> valid_time t"
proof -
  assume "from_unix s = Some t"
  then have s: "unat s < 2 ^ 63" and t: "t = uint s * nanos_per_sec"
    by (simp_all add: from_unix_def epoch_plus_secs_def split: if_splits)
  have "int (unat s) < int (2 ^ 63)" using s by (simp only: of_nat_less_iff)
  then have "uint s < 2 ^ 63" by simp
  moreover have "t div nanos_per_sec = uint s" using t by (simp add: nanos_per_sec_def)
  moreover have "- (2 ^ 63) \<le> uint s" by (rule order_trans [OF _ uint_ge_0]) simp
  ultimately show ?thesis unfolding valid_time_def by simp
qed

lemma yields_disk_get_attr: "os_fits os \<Longrightarrow> yields valid_attr wf_error (disk_get_attr os i)"
  unfolding disk_get_attr_def
proof (rule yields_bind [OF yields_get_path], rule yields_bind [OF yields_calls(1)], assumption)
  fix meta assume meta: "wf_metadata meta"
  have lift: "yields valid_time wf_error (io_lift (md_accessed meta))"
    "yields valid_time wf_error (io_lift (md_modified meta))"
    by (rule yields_lift, use meta in \<open>simp add: wf_metadata_def\<close>)+
  have change: "yields valid_time wf_error (or_panic (from_unix (md_ctime meta)))"
    by (rule yields_or_panic) (rule from_unix_valid)
  have ft: "yields (\<lambda>_. True) wf_error (or_panic (file_type_from_std (md_mode meta)))"
    by (rule yields_or_panic) simp
  show "yields valid_attr wf_error
    (io_bind (or_panic (file_type_from_std (md_mode meta))) (\<lambda>file_type.
     io_bind (io_lift (md_accessed meta)) (\<lambda>accessed.
     io_bind (io_lift (md_modified meta)) (\<lambda>modified.
     io_bind (or_panic (from_unix (md_ctime meta))) (\<lambda>change_time.
     io_return
       \<lparr>fa_file_type = file_type, fa_size = md_len meta, fa_blocks = md_blocks meta,
        fa_access_time = accessed, fa_modification_time = modified, fa_change_time = change_time,
        fa_permissions = ucast (md_mode meta), fa_n_hard_links = ucast (md_nlink meta),
        fa_uid = md_uid meta, fa_gid = md_gid meta, fa_rdev = ucast (md_rdev meta),
        fa_block_size = ucast (md_blksize meta)\<rparr>)))))"
    by (rule yields_bind [OF ft], rule yields_bind [OF lift(1)], rule yields_bind [OF lift(2)],
        rule yields_bind [OF change], rule yields_return) (simp add: valid_attr_def)
qed

lemma yields_io_when: "yields P E m \<Longrightarrow> P () \<Longrightarrow> yields P E (io_when c m)"
  by (simp add: io_when_def yields_return)

lemma yields_option:
  "yields P E m \<Longrightarrow> (\<And>x. yields P E (f x)) \<Longrightarrow> yields P E (case v of None \<Rightarrow> m | Some x \<Rightarrow> f x)"
  by (cases v) simp_all

lemma yields_disk_set_attr:
  assumes "os_fits os"
  shows "yields (\<lambda>_. True) wf_error (disk_set_attr os i sz at mt perms uid gid)"
proof -
  note call = yields_calls [OF assms]
  have resize: "yields (\<lambda>_. True) wf_error (case sz of None \<Rightarrow> io_return ()
      | Some n \<Rightarrow> io_bind (sys (os_open os opts p)) (\<lambda>file. sys (os_set_len os file n)))" for opts p
    by (rule yields_option, rule yields_return, simp, rule yields_then [OF call(2)], rule call(3))
  have times: "yields (\<lambda>_. True) wf_error (io_when c
      (io_bind (sys (os_open os opts p)) (\<lambda>file. sys (os_set_times os file at mt))))" for c opts p
    by (rule yields_io_when, rule yields_then [OF call(2)], rule call(4), simp)
  have mode: "yields (\<lambda>_. True) wf_error (case perms of None \<Rightarrow> io_return ()
      | Some perms \<Rightarrow> sys (os_set_permissions os p (ucast perms)))" for p
    by (rule yields_option, rule yields_return, simp, rule call(9))
  have owner: "yields (\<lambda>_. True) wf_error (io_when c (sys (os_chown os p uid gid)))" for c p
    by (rule yields_io_when, rule call(10), simp)
  show ?thesis
    unfolding disk_set_attr_def
    by (rule yields_then [OF yields_get_path], rule yields_then [OF resize],
        rule yields_then [OF times], rule yields_then [OF mode], rule owner)
qed

lemma yields_disk_create_file:
  assumes "os_fits os"
  shows "yields (\<lambda>_. True) wf_error (disk_create_file os i perms flags name)"
  unfolding disk_create_file_def Let_def
  by (rule yields_then [OF yields_get_path], rule yields_then [OF yields_calls(2) [OF assms]],
      rule yields_then [OF yields_calls(9) [OF assms]], rule yields_bind [OF yields_calls(5) [OF assms]],
      rule yields_then [OF yields_or_insert], rule yields_return, simp)

lemma yields_disk_create_dir:
  assumes "os_fits os"
  shows "yields (\<lambda>_. True) wf_error (disk_create_dir os i perms name)"
  unfolding disk_create_dir_def Let_def
  by (rule yields_then [OF yields_get_path], rule yields_then [OF yields_calls(11) [OF assms]],
      rule yields_then [OF yields_calls(9) [OF assms]], rule yields_bind [OF yields_calls(1) [OF assms]],
      rule yields_then [OF yields_or_insert], rule yields_return, simp)

lemma yields_disk_read:
  "os_fits os \<Longrightarrow> yields (\<lambda>b. length b \<le> unat n) wf_error (disk_read os i offset n)"
  unfolding disk_read_def
proof (rule yields_bind [OF yields_get_path], rule yields_bind [OF yields_calls(2)], assumption)
  fix f assume fits: "os_fits os"
  have "yields (\<lambda>k. k = unat n) wf_error (zeroed_buffer n)"
    by (simp add: zeroed_buffer_def yields_intros)
  then show "yields (\<lambda>b. length b \<le> unat n) wf_error
    (io_bind (zeroed_buffer n) (\<lambda>n. io_bind (sys (os_seek os f offset)) (\<lambda>_. sys (os_read os f n))))"
    by (rule yields_bind) (rule yields_bind [OF yields_calls(6) [OF fits]], simp add: yields_calls(7) [OF fits])
qed

lemma yields_disk_write:
  assumes "os_fits os" shows "yields (\<lambda>_. True) wf_error (disk_write os i offset data)"
  unfolding disk_write_def
  by (rule yields_then [OF yields_get_path], rule yields_then [OF yields_calls(2) [OF assms]],
      rule yields_then [OF yields_calls(6) [OF assms]], rule yields_calls(8) [OF assms])

lemma yields_disk_remove:
  assumes "os_fits os" shows "yields (\<lambda>_. True) wf_error (disk_remove os i)"
proof -
  have step: "yields (\<lambda>_. True) wf_error
      (if c then sys (os_remove_dir_all os p) else sys (os_remove_file os p))" for c p
    using yields_calls(13,14) [OF assms] by simp
  have drop: "yields (\<lambda>_. True) wf_error (map_remove i)"
    by (rule yieldsI) (auto simp: map_remove_def)
  show ?thesis
    unfolding disk_remove_def
    by (rule yields_then [OF yields_get_path], rule yields_bind [OF yields_calls(1) [OF assms]],
        rule yields_then [OF step], rule drop)
qed

lemma yields_disk_rename:
  assumes "os_fits os" shows "yields (\<lambda>_. True) wf_error (disk_rename os i dest name)"
proof -
  have clear: "yields (\<lambda>_. True) wf_error (clear_destination os i j)" for j
    unfolding clear_destination_def
    by (rule yields_bind [OF yields_disk_get_attr [OF assms]],
        rule yields_bind [OF yields_disk_get_attr [OF assms]])
       (auto intro: yields_fail yields_disk_remove assms)
  have found: "yields (\<lambda>_. True) wf_error
      (io_match (disk_lookup os dest name) (clear_destination os i) (\<lambda>_. io_return ()))"
    by (rule yields_match [where R = "\<lambda>_. True"])
       (auto intro: clear yields_return yields_weaken yieldsI)
  have insert: "yields (\<lambda>_. True) wf_error (map_insert i p)" for p
    by (rule yieldsI) (auto simp: map_insert_def)
  show ?thesis
    unfolding disk_rename_def Let_def
    by (rule yields_then [OF found], rule yields_then [OF yields_get_path],
        rule yields_then [OF yields_get_path], rule yields_then [OF yields_calls(15) [OF assms]],
        rule insert)
qed

lemma yields_next_dir_entry:
  assumes "os_fits os"
  shows "yields (pred_option wf_dir_entry) wf_error (next_dir_entry os dir)"
  unfolding next_dir_entry_def
proof (rule yields_bind [OF yields_calls(16) [OF assms]])
  fix item assume item: "pred_option wf_os_entry item"
  show "yields (pred_option wf_dir_entry) wf_error (case item of
      None \<Rightarrow> io_return None
    | Some entry \<Rightarrow> io_bind (io_lift (oe_mode entry)) (\<lambda>mode.
        io_bind (or_panic (file_type_from_std mode)) (\<lambda>file_type.
        io_return (Some \<lparr>de_inode = oe_ino entry, de_file_type = file_type,
          de_filename = oe_name entry\<rparr>))))"
  proof (cases item)
    case (Some e)
    with item have e: "length (oe_name e) < 256" "yields (\<lambda>_. True) wf_error (io_lift (oe_mode e))"
      by (auto simp: wf_os_entry_def intro: yields_lift split: io_result.splits)
    with Some show ?thesis
      by (auto simp: wf_dir_entry_def intro!: yields_then [OF e(2)] yields_then [OF yields_or_panic] yields_return)
  qed (simp add: yields_return)
qed

lemma push_entries_fit:
  assumes "push_entries os dir es d = Some y" and "os_fits os" and "list_all wf_dir_entry es"
  shows "case fst y of Ok out \<Rightarrow> list_all wf_dir_entry out | Err e \<Rightarrow> wf_error e | _ \<Rightarrow> True"
  using assms(1,3)
proof (induction rule: push_entries_turns)
  case (turn es d e d')
  with yields_Ok [OF yields_next_dir_entry [OF assms(2)] turn.hyps(1)] show ?case by simp
next
  case (failed es d e d')
  with yields_Err [OF yields_next_dir_entry [OF assms(2)] failed.hyps(1)] show ?case by simp
qed simp_all

lemma length_write_dir_entry: "wf_dir_entry e \<Longrightarrow> length (write_dir_entry e) \<le> 265"
  by (simp add: write_dir_entry_def wf_dir_entry_def)

lemma listing_fits_length:
  assumes "list_all wf_dir_entry es" and "length es < 2 ^ 49"
  shows "listing_fits es"
proof -
  have "length (concat (map write_dir_entry es)) \<le> 265 * length es"
    using assms(1) length_write_dir_entry by (induction es) fastforce+
  with assms show ?thesis by (simp add: listing_fits_def)
qed

lemma yields_disk_read_dir:
  assumes "os_fits os" shows "yields listing_fits wf_error (disk_read_dir os i)"
proof -
  have parent: "yields (\<lambda>_. True) wf_error (parent_ino os i p)" for p
    unfolding parent_ino_def
    by (rule yields_option, rule yields_return, simp, rule yields_match [where R = "\<lambda>_. True"])
       (auto intro: yields_return yieldsI)
  have entries: "yields listing_fits wf_error (run_loop (push_entries os dir
       [\<lparr>de_inode = i, de_file_type = Directory, de_filename = [dot]\<rparr>,
        \<lparr>de_inode = j, de_file_type = Directory, de_filename = [dot, dot]\<rparr>]))" (is "yields _ _ (run_loop ?loop)")
    for dir j
  proof (rule yieldsI)
    fix d out d' assume "run_loop ?loop d = (Ok out, d')"
    then have loop: "?loop d = Some (Ok out, d')" by (simp add: run_loop_def split: option.splits)
    have entries: "list_all wf_dir_entry out"
      using push_entries_fit [OF loop assms] by (simp add: wf_dir_entry_def)
    from push_entries_Ok [OF loop] obtain items listing where
      out: "out = [\<lparr>de_inode = i, de_file_type = Directory, de_filename = [dot]\<rparr>,
        \<lparr>de_inode = j, de_file_type = Directory, de_filename = [dot, dot]\<rparr>] @ listing"
      and listing: "list_all2 listed items listing"
      and stream: "stream_gives os dir (dk_world d) items (dk_world d')" by blast
    have "length items < 2 ^ 48" using assms stream unfolding os_fits_def by blast
    moreover have "length items = length listing" using listing by (rule list_all2_lengthD)
    ultimately have "length out < 2 ^ 49" by (simp add: out)
    with entries show "listing_fits out" by (rule listing_fits_length)
  next
    fix d e d' assume "run_loop ?loop d = (Err e, d')"
    then have loop: "?loop d = Some (Err e, d')" by (simp add: run_loop_def split: option.splits)
    show "wf_error e" using push_entries_fit [OF loop assms] by (simp add: wf_dir_entry_def)
  qed
  show ?thesis
    unfolding disk_read_dir_def
    by (rule yields_then [OF yields_get_path], rule yields_then [OF yields_calls(12) [OF assms]],
        rule yields_then [OF parent], rule entries)
qed

lemma result_fits_yields: "yields P wf_error m \<Longrightarrow> result_fits P m"
  by (simp add: yields_def result_fits_def)

lemma disk_read_fits: "os_fits os \<Longrightarrow> yields (\<lambda>b. length b < 2 ^ 64) wf_error (disk_read os i offset n)"
proof (rule yields_weaken [OF yields_disk_read])
  fix b :: bytes assume "length b \<le> unat n"
  also have "unat n < 2 ^ 64" using unsigned_less [of n] by simp
  finally show "length b < 2 ^ 64" .
qed

lemma disk_backend_wf: "os_fits os \<Longrightarrow> wf_backend (disk_backend os)"
  unfolding wf_backend_def disk_backend_def
  by (simp add: result_fits_yields yields_disk_lookup yields_disk_get_attr yields_disk_set_attr
      yields_disk_create_file yields_disk_create_dir disk_read_fits [simplified] yields_disk_write
      yields_disk_read_dir yields_disk_remove yields_disk_rename disk_stats_def yields_fail)

end
