(* ===== verification/Mem_Os.thy ===== *)
theory Mem_Os
  imports Disk_Laws
begin

text \<open>
  A small operating system in memory, to run the disk backend on concrete inputs: nodes in a list
  by path, one position in files and streams (each operation works on one of them), inode
  numbers from a counter, directories of at most a thousand entries with names below 256 bytes.
  The witnesses of the properties whose hypotheses speak of the operating system use it.
\<close>

record mem_node =
  mn_ino :: u64
  mn_mode :: u32
  mn_data :: bytes

record mem_world =
  mw_nodes :: "(path \<times> mem_node) list"
  mw_pos :: nat
  mw_next :: u64

definition mem_error :: "error_kind \<Rightarrow> io_error" where
  "mem_error k = io_error_new k (ascii ''mem'')"

definition mem_metadata :: "mem_node \<Rightarrow> metadata" where
  "mem_metadata n = \<lparr>md_ino = mn_ino n, md_mode = mn_mode n, md_len = of_nat (length (mn_data n)),
     md_blocks = 1, md_accessed = Ok 1500000000, md_modified = Ok 2000000000, md_ctime = 3,
     md_nlink = 1, md_uid = 1000, md_gid = 1000, md_rdev = 0, md_blksize = 4096\<rparr>"

fun mem_set :: "path \<Rightarrow> mem_node \<Rightarrow> (path \<times> mem_node) list \<Rightarrow> (path \<times> mem_node) list" where
  "mem_set p n [] = [(p, n)]"
| "mem_set p n ((q, m) # ns) = (if p = q then (p, n) # ns else (q, m) # mem_set p n ns)"

definition mem_without :: "path \<Rightarrow> (path \<times> mem_node) list \<Rightarrow> (path \<times> mem_node) list" where
  "mem_without p ns = filter (\<lambda>(q, _). q \<noteq> p) ns"

definition mem_put :: "path \<Rightarrow> mem_node \<Rightarrow> mem_world \<Rightarrow> mem_world" where
  "mem_put p n w = w\<lparr>mw_nodes := mem_set p n (mw_nodes w)\<rparr>"

definition mem_at :: "path \<Rightarrow> (mem_node \<Rightarrow> (mem_world, 'a) io) \<Rightarrow> (mem_world, 'a) io" where
  "mem_at p f w = (case map_of (mw_nodes w) p of None \<Rightarrow> (Err (mem_error KNotFound), w) | Some n \<Rightarrow> f n w)"

definition mem_fresh :: "path \<Rightarrow> u32 \<Rightarrow> mem_world \<Rightarrow> mem_world" where
  "mem_fresh p mode w = mem_put p \<lparr>mn_ino = mw_next w, mn_mode = mode, mn_data = []\<rparr>
     (w\<lparr>mw_next := mw_next w + 1\<rparr>)"

definition mem_open :: "open_options \<Rightarrow> path \<Rightarrow> (mem_world, path) io" where
  "mem_open opts p w = (case map_of (mw_nodes w) p of
      Some n \<Rightarrow>
        if oo_create_new opts then (Err (mem_error KAlreadyExists), w)
        else (Ok p, (if oo_truncate opts then mem_put p (n\<lparr>mn_data := []\<rparr>) w else w)\<lparr>mw_pos := 0\<rparr>)
    | None \<Rightarrow>
        if oo_create opts then (Ok p, mem_fresh p S_IFREG w\<lparr>mw_pos := 0\<rparr>)
        else (Err (mem_error KNotFound), w))"

definition mem_listing :: "path \<Rightarrow> mem_world \<Rightarrow> os_entry list" where
  "mem_listing p w = take 1000 (map (\<lambda>(q, n). \<lparr>oe_ino = mn_ino n, oe_mode = Ok (mn_mode n),
       oe_name = take 255 (last_comp q)\<rparr>)
     (filter (\<lambda>(q, _). path_parent q = Some p) (mw_nodes w)))"

definition mem_next :: "path \<Rightarrow> (mem_world, os_entry option) io" where
  "mem_next p w =
     (if mw_pos w < length (mem_listing p w)
      then (Ok (Some (mem_listing p w ! mw_pos w)), w\<lparr>mw_pos := Suc (mw_pos w)\<rparr>)
      else (Ok None, w))"

definition mem_os :: "(mem_world, path) os" where
  "mem_os =
     \<lparr>os_metadata = (\<lambda>p. mem_at p (\<lambda>n. io_return (mem_metadata n))),
      os_open = mem_open,
      os_set_len = (\<lambda>p len. mem_at p (\<lambda>n w.
        (Ok (), mem_put p (n\<lparr>mn_data := take (unat len) (mn_data n)
           @ replicate (unat len - length (mn_data n)) 0\<rparr>) w))),
      os_set_times = (\<lambda>_ _ _. io_return ()),
      os_fd_metadata = (\<lambda>p. mem_at p (\<lambda>n. io_return (mem_metadata n))),
      os_seek = (\<lambda>_ pos w. (Ok pos, w\<lparr>mw_pos := unat pos\<rparr>)),
      os_read = (\<lambda>p len. mem_at p (\<lambda>n w. (Ok (take len (drop (mw_pos w) (mn_data n))), w))),
      os_write_all = (\<lambda>p bs. mem_at p (\<lambda>n w.
        (Ok (), mem_put p (n\<lparr>mn_data := take (mw_pos w) (mn_data n)
           @ replicate (mw_pos w - length (mn_data n)) 0 @ bs
           @ drop (mw_pos w + length bs) (mn_data n)\<rparr>) w))),
      os_set_permissions = (\<lambda>p mode. mem_at p (\<lambda>n w.
        (Ok (), mem_put p (n\<lparr>mn_mode := (mn_mode n AND S_IFMT) OR (mode AND 0xFFF)\<rparr>) w))),
      os_chown = (\<lambda>p _ _. mem_at p (\<lambda>_. io_return ())),
      os_create_dir = (\<lambda>p w. case map_of (mw_nodes w) p of
          Some _ \<Rightarrow> (Err (mem_error KAlreadyExists), w)
        | None \<Rightarrow> (Ok (), mem_fresh p S_IFDIR w)),
      os_read_dir = (\<lambda>p. mem_at p (\<lambda>n w. if mode_is S_IFDIR (mn_mode n)
        then (Ok p, w\<lparr>mw_pos := 0\<rparr>) else (Err (mem_error KNotADirectory), w))),
      os_next_entry = mem_next,
      os_remove_dir_all = (\<lambda>p w.
        (Ok (), w\<lparr>mw_nodes := filter (\<lambda>(q, _). \<not> prefix p q) (mw_nodes w)\<rparr>)),
      os_remove_file = (\<lambda>p. mem_at p (\<lambda>_ w. (Ok (), w\<lparr>mw_nodes := mem_without p (mw_nodes w)\<rparr>))),
      os_rename = (\<lambda>p q. mem_at p (\<lambda>n w.
        (Ok (), mem_put q n (w\<lparr>mw_nodes := mem_without p (mw_nodes w)\<rparr>))))\<rparr>"

lemma wf_mem_error [simp]: "wf_error (mem_error k)"
  by (simp add: wf_error_def mem_error_def ascii_def)

lemma wf_mem_metadata [simp]: "wf_metadata (mem_metadata n)"
  by (simp add: wf_metadata_def mem_metadata_def valid_time_def nanos_per_sec_def)

lemma yields_mem_at: "(\<And>n. yields P wf_error (f n)) \<Longrightarrow> yields P wf_error (mem_at p f)"
  by (auto simp: yields_def mem_at_def split: option.splits)

lemma mem_entry_fits: "e \<in> set (mem_listing p w) \<Longrightarrow> wf_os_entry e"
  by (auto simp: mem_listing_def wf_os_entry_def dest!: in_set_takeD)

lemma mem_listing_pos [simp]: "mem_listing p (w\<lparr>mw_pos := k\<rparr>) = mem_listing p w"
  by (simp add: mem_listing_def)

lemma mem_stream_length:
  "stream_gives mem_os p w items w' \<Longrightarrow> length items \<le> length (mem_listing p w) - mw_pos w"
  by (induction rule: stream_gives.induct) (auto simp: mem_os_def mem_next_def split: if_splits)

lemma mem_stream_fits: "stream_gives mem_os p w items w' \<Longrightarrow> length items < 2 ^ 48"
  by (drule mem_stream_length) (simp add: mem_listing_def)

lemma mem_os_fits: "os_fits mem_os"
proof -
  have next_item: "yields (pred_option wf_os_entry) wf_error (mem_next p)" for p
    by (rule yieldsI) (auto simp: mem_next_def split: if_splits intro: mem_entry_fits [OF nth_mem])
  have stream: "\<forall>dir w items w'. stream_gives mem_os dir w items w' \<longrightarrow> length items < 2 ^ 48"
    by (blast intro: mem_stream_fits)
  show ?thesis
    unfolding os_fits_def
    by (intro conjI stream, unfold mem_os_def)
       (auto intro!: yields_mem_at yields_return next_item,
        auto simp: yields_def mem_open_def split: option.splits)
qed

subsection \<open>A world with an exported directory\<close>

definition srv :: path where
  "srv = ascii ''/srv''"

definition mem_srv :: mem_world where
  "mem_srv = \<lparr>mw_nodes =
      [(ascii ''/srv'', \<lparr>mn_ino = 64, mn_mode = S_IFDIR, mn_data = []\<rparr>),
       (ascii ''/srv/a'', \<lparr>mn_ino = 65, mn_mode = S_IFREG, mn_data = ascii ''hello''\<rparr>),
       (ascii ''/etc'', \<lparr>mn_ino = 66, mn_mode = S_IFREG, mn_data = ascii ''secret''\<rparr>)],
     mw_pos = 0, mw_next = 100\<rparr>"

definition disk_srv :: "mem_world disk" where
  "disk_srv = disk_new srv mem_srv"

lemmas disk_eval = disk_srv_def disk_new_def srv_def mem_srv_def ROOT_INODE_def mem_os_def
  mem_at_def mem_open_def mem_put_def mem_fresh_def mem_without_def mem_metadata_def
  sys_def get_path_def or_insert_def map_insert_def map_remove_def io_bind_def io_match_def
  path_push_def is_absolute_def slash_def dot_def ascii_def Let_def

lemma lookup_a: "disk_lookup mem_os 1 (ascii ''a'') disk_srv
    = (Ok 65, disk_srv\<lparr>inode_map := [1 \<mapsto> srv, 65 \<mapsto> ascii ''/srv/a'']\<rparr>)"
  by (simp add: disk_lookup_def disk_eval)

end
