(* ===== verification/Disk_Properties.thy ===== *)
theory Disk_Properties
  imports Mem_Os
begin

text \<open>
  The properties of the disk backend: what it refuses, which entries of its inode map each
  operation touches, what a lookup, a removal, a renaming and a listing give, and where the code
  falls short of what it means to do.
\<close>

subsection \<open>The inode map\<close>

lemma get_attr_map: "disk_get_attr os i d = (r, d') \<Longrightarrow> inode_map d' = inode_map d"
proof -
  have "keeps (\<lambda>e. inode_map e = inode_map d) (get_path i)"
    by (rule keepsI) (auto simp: get_path_def split: option.splits)
  then have "keeps (\<lambda>e. inode_map e = inode_map d) (disk_get_attr os i)"
    unfolding disk_get_attr_def
    by (intro keeps_bind keeps_sys keeps_or_panic keeps_lift keeps_return) simp_all
  moreover assume "disk_get_attr os i d = (r, d')"
  ultimately show ?thesis by (blast dest: keepsD)
qed

lemma remove_map:
  "disk_remove os i d = (r, d') \<Longrightarrow>
     inode_map d' = (if r = Ok () then (inode_map d)(i := None) else inode_map d)"
  by (auto simp: disk_remove_def sys_def get_path_def map_remove_def io_bind_def
      split: prod.splits io_result.splits option.splits if_splits)

lemma failed_lookup_map:
  "disk_lookup os i name d = (r, d') \<Longrightarrow> (\<And>k. r \<noteq> Ok k) \<Longrightarrow> inode_map d' = inode_map d"
  by (auto simp: disk_lookup_def Let_def sys_def get_path_def or_insert_def io_bind_def
      split: prod.splits io_result.splits option.splits)

text \<open>Clearing a destination forgets it when that succeeds and changes nothing in the map when not.\<close>

lemma clear_map:
  assumes "clear_destination os i k d = (r, d')"
  shows "inode_map d' = (if r = Ok () then (inode_map d)(k := None) else inode_map d)
    \<and> (r = Ok () \<longrightarrow> inode_map d i \<noteq> None)"
proof -
  obtain r1 d1 where dest: "disk_get_attr os k d = (r1, d1)" by fastforce
  note m1 = get_attr_map [OF dest]
  show ?thesis
  proof (cases r1)
    case (Ok a)
    obtain r2 d2 where self: "disk_get_attr os i d1 = (r2, d2)" by fastforce
    note m2 = get_attr_map [OF self]
    show ?thesis
    proof (cases r2)
      case (Ok b)
      with self have "inode_map d1 i \<noteq> None" using unknown_inode(2) [of d1 i os] by auto
      moreover have "(\<exists>e. r = Err e \<and> d' = d2) \<or> disk_remove os k d2 = (r, d')"
        using assms dest self Ok \<open>r1 = Ok a\<close>
        by (auto simp: clear_destination_def io_bind_def split: if_splits)
      ultimately show ?thesis using m1 m2 remove_map [of os k d2 r d'] by auto
    qed (use assms dest self Ok m1 m2 in \<open>auto simp: clear_destination_def io_bind_def\<close>)
  qed (use assms dest m1 in \<open>auto simp: clear_destination_def io_bind_def\<close>)
qed

text \<open>What is left of the map when a renaming has dealt with its destination.\<close>

abbreviation clearing :: "('w, 'fd) os \<Rightarrow> u64 \<Rightarrow> u64 \<Rightarrow> path \<Rightarrow> ('w disk, unit) io" where
  "clearing os i dest name \<equiv>
     io_match (disk_lookup os dest name) (clear_destination os i) (\<lambda>_. io_return ())"

lemma clearing_Ok:
  assumes "clearing os i dest name d = (Ok u, e)"
  shows "(\<exists>k. fst (disk_lookup os dest name d) = Ok k \<and> inode_map e = (inode_map d)(k := None)
      \<and> (k = i \<or> inode_map d i \<noteq> None))
    \<or> (\<exists>x. fst (disk_lookup os dest name d) = Err x \<and> inode_map e = inode_map d)"
proof -
  obtain r d1 where look: "disk_lookup os dest name d = (r, d1)" by fastforce
  show ?thesis
  proof (cases r)
    case (Ok k)
    with look have "inode_map d1 = inode_map d \<or> (\<exists>p. inode_map d1 = (inode_map d)(k \<mapsto> p))"
      by (auto elim!: disk_lookup_Ok split: if_splits)
    moreover from look Ok assms have "clear_destination os i k d1 = (Ok u, e)" by simp
    ultimately show ?thesis using clear_map [of os i k d1 "Ok u" e] look Ok by auto
  next
    case (Err x)
    with look assms have "e = d1" by simp
    with failed_lookup_map [OF look] look Err show ?thesis by auto
  qed (use look assms in auto)
qed

lemma clearing_unknown:
  assumes "inode_map d i = None" and "clearing os i dest name d = (r, e)"
  shows "inode_map d \<subseteq>\<^sub>m inode_map e"
proof -
  obtain v d1 where look: "disk_lookup os dest name d = (v, d1)" by fastforce
  show ?thesis
  proof (cases v)
    case (Ok k)
    with look have "inode_map d1 = inode_map d \<or> (inode_map d k = None \<and> (\<exists>p. inode_map d1 = (inode_map d)(k \<mapsto> p)))"
      by (auto elim!: disk_lookup_Ok split: if_splits)
    moreover from look Ok assms(2) have "clear_destination os i k d1 = (r, e)" by simp
    from clear_map [OF this]
    have "inode_map e = inode_map d1 \<or> (inode_map e = (inode_map d1)(k := None) \<and> inode_map d1 i \<noteq> None)"
      by (auto split: if_splits)
    ultimately show ?thesis using assms(1) by (auto simp: map_le_def dom_def split: if_splits)
  qed (use look assms(2) failed_lookup_map [OF look] in \<open>auto simp: map_le_def\<close>)
qed

lemma rename_unknown:
  assumes "inode_map d i = None"
  shows "(\<forall>u. fst (disk_rename os i dest name d) \<noteq> Ok u)
    \<and> inode_map d \<subseteq>\<^sub>m inode_map (snd (disk_rename os i dest name d))"
proof -
  obtain r e where step: "clearing os i dest name d = (r, e)" by fastforce
  have "inode_map e i = None" if "r = Ok ()"
    using clearing_Ok [OF step [unfolded that]] assms by auto
  moreover have "snd (disk_rename os i dest name d) = e" if "inode_map e i = None" "r = Ok ()"
    using that step by (simp add: disk_rename_def io_bind_def)
  moreover have "snd (disk_rename os i dest name d) = e" "\<And>u. fst (disk_rename os i dest name d) \<noteq> Ok u"
    if "r \<noteq> Ok ()"
    using that step by (cases r; simp add: disk_rename_def io_bind_def)+
  moreover have "fst (disk_rename os i dest name d) \<noteq> Ok u" if "inode_map e i = None" "r = Ok ()" for u
    using that step by (simp add: disk_rename_def io_bind_def)
  ultimately show ?thesis using clearing_unknown [OF assms step] by (cases "r = Ok ()") auto
qed

text \<open>C23: An inode that was never handed out, or was removed, is refused: every operation on it but
  renaming fails with \<open>NotFound\<close>, before any call on the operating system and with the state
  unchanged. Renaming deals with its destination first, so it may look that up and remember it;
  it never succeeds and forgets no known inode.\<close>

theorem unknown_inode_is_refused:
  assumes "inode_map d i = None"
  shows "disk_lookup os i name d = (Err inode_not_found, d)
    \<and> disk_get_attr os i d = (Err inode_not_found, d)
    \<and> disk_set_attr os i sz at mt perms uid gid d = (Err inode_not_found, d)
    \<and> disk_create_file os i perms' flags name d = (Err inode_not_found, d)
    \<and> disk_create_dir os i perms' name d = (Err inode_not_found, d)
    \<and> disk_read os i offset n d = (Err inode_not_found, d)
    \<and> disk_write os i offset data d = (Err inode_not_found, d)
    \<and> disk_read_dir os i d = (Err inode_not_found, d)
    \<and> disk_remove os i d = (Err inode_not_found, d)
    \<and> (\<forall>u. fst (disk_rename os i dest name d) \<noteq> Ok u)
    \<and> inode_map d \<subseteq>\<^sub>m inode_map (snd (disk_rename os i dest name d))"
  using assms by (simp add: unknown_inode rename_unknown)

theorem unknown_inode_is_refused_witness:
  "disk_read mem_os 65 0 4 disk_srv = (Err inode_not_found, disk_srv)
   \<and> fst (disk_rename mem_os 99 1 (ascii ''a'') disk_srv) \<noteq> Ok ()"
  using unknown_inode_is_refused [of disk_srv 65 mem_os]
    unknown_inode_is_refused [where d = disk_srv and i = 99 and os = mem_os and dest = 1
      and name = "ascii ''a''"]
  by (simp add: disk_srv_def disk_new_def ROOT_INODE_def)

lemma map_le_kept: "keeps_entries m \<Longrightarrow> inode_map d \<subseteq>\<^sub>m inode_map (snd (m d))"
  unfolding keeps_entries_def map_le_def by (metis domD)

text \<open>C22: No operation but removal and renaming ever drops or changes the path of a known inode,
  also when it fails; removal drops at most the entry of the inode it was asked to remove.\<close>

theorem known_inodes_keep_their_paths:
  "inode_map d \<subseteq>\<^sub>m inode_map (snd (disk_lookup os i name d))
   \<and> inode_map d \<subseteq>\<^sub>m inode_map (snd (disk_get_attr os i d))
   \<and> inode_map d \<subseteq>\<^sub>m inode_map (snd (disk_set_attr os i sz at mt perms uid gid d))
   \<and> inode_map d \<subseteq>\<^sub>m inode_map (snd (disk_create_file os i perms' flags name d))
   \<and> inode_map d \<subseteq>\<^sub>m inode_map (snd (disk_create_dir os i perms' name d))
   \<and> inode_map d \<subseteq>\<^sub>m inode_map (snd (disk_read os i offset n d))
   \<and> inode_map d \<subseteq>\<^sub>m inode_map (snd (disk_write os i offset data d))
   \<and> inode_map d \<subseteq>\<^sub>m inode_map (snd (disk_read_dir os i d))
   \<and> (inode_map d)(i := None) \<subseteq>\<^sub>m inode_map (snd (disk_remove os i d))"
proof (intro conjI map_le_kept entries_kept)
  show "(inode_map d)(i := None) \<subseteq>\<^sub>m inode_map (snd (disk_remove os i d))"
    using remove_entries [of d _ _ i os] by (auto simp: map_le_def dom_def split: if_splits)
qed

text \<open>C24: A successful lookup asks the operating system for the pushed path and hands out the
  inode it finds there; the path is remembered for it unless the inode already has one, which
  then stays.\<close>

theorem lookup_result:
  assumes "disk_lookup os i name d = (Ok ino, d')"
  shows "\<exists>dir meta w. inode_map d i = Some dir
    \<and> os_metadata os (path_push dir name) (dk_world d) = (Ok meta, w) \<and> ino = md_ino meta
    \<and> dk_world d' = w
    \<and> inode_map d' = (if inode_map d ino = None then (inode_map d)(ino \<mapsto> path_push dir name)
                      else inode_map d)"
  using assms by (rule disk_lookup_Ok) blast

theorem lookup_result_witness:
  "\<exists>dir meta w. inode_map disk_srv 1 = Some dir
    \<and> os_metadata mem_os (path_push dir (ascii ''a'')) (dk_world disk_srv) = (Ok meta, w)
    \<and> (65 :: u64) = md_ino meta
    \<and> dk_world (disk_srv\<lparr>inode_map := [1 \<mapsto> srv, 65 \<mapsto> ascii ''/srv/a'']\<rparr>) = w
    \<and> inode_map (disk_srv\<lparr>inode_map := [1 \<mapsto> srv, 65 \<mapsto> ascii ''/srv/a'']\<rparr>)
      = (if inode_map disk_srv 65 = None then (inode_map disk_srv)(65 \<mapsto> path_push dir (ascii ''a''))
         else inode_map disk_srv)"
  by (rule lookup_result [OF lookup_a])

subsection \<open>Removing and renaming\<close>

text \<open>C25: A successful removal made the one call the node's type asks for, recursive for a
  directory, forgets exactly that inode, and every later use of it is refused.\<close>

theorem remove_result:
  assumes "disk_remove os i d = (Ok u, d')"
  shows "\<exists>p meta w w'. inode_map d i = Some p \<and> os_metadata os p (dk_world d) = (Ok meta, w)
    \<and> (if mode_is S_IFDIR (md_mode meta) then os_remove_dir_all os p else os_remove_file os p) w
      = (Ok (), w')
    \<and> d' = \<lparr>inode_map = (inode_map d)(i := None), dk_world = w'\<rparr>
    \<and> disk_get_attr os i d' = (Err inode_not_found, d')"
  using assms by (rule disk_remove_Ok) (auto intro: unknown_inode)

definition disk_a :: "mem_world disk" where
  "disk_a = disk_srv\<lparr>inode_map := [1 \<mapsto> srv, 65 \<mapsto> ascii ''/srv/a'']\<rparr>"

lemma remove_a: "disk_remove mem_os 65 disk_a = (Ok (), \<lparr>inode_map = [1 \<mapsto> srv],
    dk_world = mem_srv\<lparr>mw_nodes := mem_without (ascii ''/srv/a'') (mw_nodes mem_srv)\<rparr>\<rparr>)"
proof -
  have "([1 :: u64 \<mapsto> srv, 65 \<mapsto> p])(65 := None) = [1 \<mapsto> srv]" for p by (rule ext) simp
  then show ?thesis
    by (simp add: disk_a_def disk_remove_def disk_eval mode_is_def S_IFDIR_def S_IFREG_def S_IFMT_def)
qed

theorem remove_result_witness:
  "disk_get_attr mem_os 65 (snd (disk_remove mem_os 65 disk_a))
   = (Err inode_not_found, snd (disk_remove mem_os 65 disk_a))"
  using remove_result [OF remove_a] by (auto simp: remove_a)

text \<open>C26: A successful renaming makes the operating system's call from the path known for the inode
  to the pushed destination below the path known for the directory, after dealing with what was
  there; afterwards the pushed path is the inode's. A destination that existed was another inode
  and is forgotten. Nothing else changes in the map: paths below a renamed directory are not
  rewritten.\<close>

theorem rename_result:
  assumes "disk_rename os i dest name d = (Ok u, d')"
  shows "\<exists>old dir e w. inode_map d i = Some old \<and> inode_map d dest = Some dir
    \<and> io_match (disk_lookup os dest name) (clear_destination os i) (\<lambda>_. io_return ()) d = (Ok (), e)
    \<and> ((\<exists>k. fst (disk_lookup os dest name d) = Ok k \<and> k \<noteq> i \<and> inode_map e = (inode_map d)(k := None))
       \<or> (\<exists>x. fst (disk_lookup os dest name d) = Err x \<and> inode_map e = inode_map d))
    \<and> os_rename os old (path_push dir name) (dk_world e) = (Ok (), w)
    \<and> d' = \<lparr>inode_map = (inode_map e)(i \<mapsto> path_push dir name), dk_world = w\<rparr>"
  using assms
proof (rule disk_rename_Ok)
  fix old dir e w
  assume e: "inode_map e i = Some old" "inode_map e dest = Some dir"
    "os_rename os old (path_push dir name) (dk_world e) = (Ok (), w)"
    "d' = \<lparr>inode_map = (inode_map e)(i \<mapsto> path_push dir name), dk_world = w\<rparr>"
    "clearing os i dest name d = (Ok (), e)"
  have "inode_map d i = Some old \<and> inode_map d dest = Some dir
      \<and> ((\<exists>k. fst (disk_lookup os dest name d) = Ok k \<and> k \<noteq> i \<and> inode_map e = (inode_map d)(k := None))
       \<or> (\<exists>x. fst (disk_lookup os dest name d) = Err x \<and> inode_map e = inode_map d))"
    using clearing_Ok [OF e(5)] e(1,2) by (auto split: if_splits)
  with e(3,4,5) show ?thesis by blast
qed

theorem rename_result_witness:
  "\<exists>(e :: mem_world disk) w. disk_rename mem_os 65 1 (ascii ''b'') disk_a
      = (Ok (), \<lparr>inode_map = (inode_map e)(65 \<mapsto> ascii ''/srv/b''), dk_world = w\<rparr>)
    \<and> inode_map e = inode_map disk_a
    \<and> os_rename mem_os (ascii ''/srv/a'') (ascii ''/srv/b'') (dk_world e) = (Ok (), w)"
proof -
  have "\<exists>d'. disk_rename mem_os 65 1 (ascii ''b'') disk_a = (Ok (), d')"
    by (simp add: disk_a_def disk_rename_def disk_lookup_def disk_eval mem_error_def)
  then obtain d' where run: "disk_rename mem_os 65 1 (ascii ''b'') disk_a = (Ok (), d')" ..
  have "fst (disk_lookup mem_os 1 (ascii ''b'') disk_a) = Err (mem_error KNotFound)"
    by (simp add: disk_a_def disk_lookup_def disk_eval)
  moreover have "path_push srv (ascii ''b'') = ascii ''/srv/b''"
    by (simp add: path_push_def srv_def is_absolute_def slash_def ascii_def)
  moreover have "inode_map disk_a 65 = Some (ascii ''/srv/a'')" "inode_map disk_a 1 = Some srv"
    by (simp_all add: disk_a_def)
  moreover from rename_result [OF run] obtain old dir and e :: "mem_world disk" and w where
    "inode_map disk_a 65 = Some old"
    "inode_map disk_a 1 = Some dir"
    "(\<exists>k. fst (disk_lookup mem_os 1 (ascii ''b'') disk_a) = Ok k \<and> k \<noteq> 65
        \<and> inode_map e = (inode_map disk_a)(k := None))
      \<or> (\<exists>x. fst (disk_lookup mem_os 1 (ascii ''b'') disk_a) = Err x \<and> inode_map e = inode_map disk_a)"
    "os_rename mem_os old (path_push dir (ascii ''b'')) (dk_world e) = (Ok (), w)"
    "d' = \<lparr>inode_map = (inode_map e)(65 \<mapsto> path_push dir (ascii ''b'')), dk_world = w\<rparr>"
    by blast
  ultimately show ?thesis using run by (intro exI [where x = e] exI [where x = w]) auto
qed

text \<open>C39: Renaming a regular file onto its own name deletes it: the destination lookup finds the
  file itself, it is removed as the thing to be overwritten, and its own path is then gone.\<close>

theorem rename_onto_itself_deletes:
  assumes "inode_map d i = Some p" and "inode_map d dest = Some dir"
    and "os_metadata os (path_push dir name) (dk_world d) = (Ok meta, dk_world d)"
    and "os_metadata os p (dk_world d) = (Ok meta, dk_world d)"
    and "md_ino meta = i" and "file_type_from_std (md_mode meta) = Some RegularFile"
    and "md_accessed meta = Ok at" and "md_modified meta = Ok mt"
    and "from_unix (md_ctime meta) = Some ct"
    and "os_remove_file os p (dk_world d) = (Ok (), w)"
  shows "disk_rename os i dest name d
    = (Err inode_not_found, \<lparr>inode_map = (inode_map d)(i := None), dk_world = w\<rparr>)"
proof -
  have "\<not> mode_is S_IFDIR (md_mode meta)"
    using assms(6) file_type_from_std_dir [of "md_mode meta"] by simp
  with assms have remove: "disk_remove os i d
      = (Ok (), \<lparr>inode_map = (inode_map d)(i := None), dk_world = w\<rparr>)"
    by (simp add: disk_remove_def sys_def map_remove_def io_bind_def)
  have attr: "\<exists>a. disk_get_attr os i d = (Ok a, d) \<and> fa_file_type a = RegularFile"
    using assms by (simp add: disk_get_attr_def sys_def io_bind_def)
  have look: "disk_lookup os dest name d = (Ok i, d)"
    using assms by (simp add: disk_lookup_def Let_def sys_def or_insert_def io_bind_def)
  from attr have "clear_destination os i i d = disk_remove os i d"
    by (auto simp: clear_destination_def io_bind_def)
  with look remove show ?thesis
    by (simp add: disk_rename_def io_bind_def io_match_def)
qed

theorem rename_onto_itself_deletes_witness:
  "disk_rename mem_os 65 1 (ascii ''a'') disk_a
    = (Err inode_not_found, \<lparr>inode_map = (inode_map disk_a)(65 := None),
        dk_world = mem_srv\<lparr>mw_nodes := mem_without (ascii ''/srv/a'') (mw_nodes mem_srv)\<rparr>\<rparr>)"
proof (rule rename_onto_itself_deletes [where meta = "mem_metadata
    \<lparr>mn_ino = 65, mn_mode = S_IFREG, mn_data = ascii ''hello''\<rparr>"])
  show "inode_map disk_a 65 = Some (ascii ''/srv/a'')" "inode_map disk_a 1 = Some srv"
    by (simp_all add: disk_a_def)
qed (simp_all add: disk_a_def disk_eval file_type_from_std_def mode_is_def mode_defs from_unix_def
    epoch_plus_secs_def)

subsection \<open>Names, listings and reads\<close>

text \<open>C38: A lookup of an absolute name ignores the directory: whatever exists at that path on the
  server's machine is handed out under its own path, inside the exported directory or not.\<close>

theorem absolute_name_escapes:
  assumes "inode_map d i = Some dir" and "is_absolute name"
    and "os_metadata os name (dk_world d) = (Ok meta, w)" and "inode_map d (md_ino meta) = None"
  shows "disk_lookup os i name d = (Ok (md_ino meta),
    \<lparr>inode_map = (inode_map d)(md_ino meta \<mapsto> name), dk_world = w\<rparr>)"
  using assms by (simp add: disk_lookup_def path_push_def Let_def sys_def or_insert_def io_bind_def)

theorem absolute_name_escapes_witness:
  "disk_lookup mem_os 1 (ascii ''/etc'') disk_srv = (Ok 66,
    \<lparr>inode_map = [1 \<mapsto> srv, 66 \<mapsto> ascii ''/etc''], dk_world = mem_srv\<rparr>)
   \<and> \<not> inside srv (ascii ''/etc'')"
proof -
  let ?meta = "mem_metadata \<lparr>mn_ino = 66, mn_mode = S_IFREG, mn_data = ascii ''secret''\<rparr>"
  have "disk_lookup mem_os 1 (ascii ''/etc'') disk_srv = (Ok (md_ino ?meta),
      \<lparr>inode_map = (inode_map disk_srv)(md_ino ?meta \<mapsto> ascii ''/etc''), dk_world = mem_srv\<rparr>)"
    by (rule absolute_name_escapes [of _ _ srv]) (simp_all add: disk_eval)
  moreover have "\<not> inside srv (ascii ''/etc'')"
    by (simp add: inside_def srv_def ascii_def)
  ultimately show ?thesis by (simp add: mem_metadata_def disk_srv_def disk_new_def ROOT_INODE_def)
qed

text \<open>C27: A listing succeeds exactly when the inode's path opens as a directory stream, the parent
  can be asked, and the stream comes to an end with every entry's type known. It is the directory
  itself, its parent (the inode of the parent path, or the directory's own when there is none or
  it cannot be had), and then one entry for every item of the stream in its order, with the
  item's inode, name and type; the map is unchanged.\<close>

theorem read_dir_result:
  "disk_read_dir os i d = (Ok es, d') \<longleftrightarrow> (\<exists>p dir w parent w1 items listing.
      inode_map d i = Some p
    \<and> os_read_dir os p (dk_world d) = (Ok dir, w)
    \<and> (case path_parent p of
         None \<Rightarrow> parent = i \<and> w1 = w
       | Some q \<Rightarrow> (\<exists>meta. os_metadata os q w = (Ok meta, w1) \<and> parent = md_ino meta)
                 \<or> (\<exists>x. os_metadata os q w = (Err x, w1) \<and> parent = i))
    \<and> stream_gives os dir w1 items (dk_world d')
    \<and> list_all2 listed items listing \<and> inode_map d' = inode_map d
    \<and> es = [\<lparr>de_inode = i, de_file_type = Directory, de_filename = [dot]\<rparr>,
            \<lparr>de_inode = parent, de_file_type = Directory, de_filename = [dot, dot]\<rparr>] @ listing)"
proof -
  have parent: "parent_ino os i q (d\<lparr>dk_world := w\<rparr>) = (Ok parent, d1) \<longleftrightarrow>
      (\<exists>w1. d1 = d\<lparr>dk_world := w1\<rparr> \<and> (case q of
         None \<Rightarrow> parent = i \<and> w1 = w
       | Some q \<Rightarrow> (\<exists>meta. os_metadata os q w = (Ok meta, w1) \<and> parent = md_ino meta)
                 \<or> (\<exists>x. os_metadata os q w = (Err x, w1) \<and> parent = i)))" for q w parent d1
    by (cases q) (auto simp: parent_ino_def io_match_def sys_def split: prod.splits io_result.splits)
  have same: "d' = d\<lparr>dk_world := dk_world d'\<rparr> \<longleftrightarrow> inode_map d' = inode_map d"
    by (cases d, cases d') auto
  show ?thesis (is "?run \<longleftrightarrow> ?spec")
  proof
    assume ?run
    then obtain p dir w parent w1 items listing where "inode_map d i = Some p"
      "os_read_dir os p (dk_world d) = (Ok dir, w)"
      "case path_parent p of
         None \<Rightarrow> parent = i \<and> w1 = w
       | Some q \<Rightarrow> (\<exists>meta. os_metadata os q w = (Ok meta, w1) \<and> parent = md_ino meta)
                 \<or> (\<exists>x. os_metadata os q w = (Err x, w1) \<and> parent = i)"
      "stream_gives os dir w1 items (dk_world d')" "list_all2 listed items listing"
      "inode_map d' = inode_map d"
      "es = [\<lparr>de_inode = i, de_file_type = Directory, de_filename = [dot]\<rparr>,
            \<lparr>de_inode = parent, de_file_type = Directory, de_filename = [dot, dot]\<rparr>] @ listing"
      unfolding disk_read_dir_Ok parent by (elim exE conjE) (simp add: same)
    then show ?spec by blast
  next
    assume ?spec
    then obtain p dir w up w1 items listing where p: "inode_map d i = Some p"
      "os_read_dir os p (dk_world d) = (Ok dir, w)"
      and asked: "case path_parent p of
         None \<Rightarrow> up = i \<and> w1 = w
       | Some q \<Rightarrow> (\<exists>meta. os_metadata os q w = (Ok meta, w1) \<and> up = md_ino meta)
                 \<or> (\<exists>x. os_metadata os q w = (Err x, w1) \<and> up = i)"
      and rest: "stream_gives os dir w1 items (dk_world d')" "list_all2 listed items listing"
      "inode_map d' = inode_map d"
      "es = [\<lparr>de_inode = i, de_file_type = Directory, de_filename = [dot]\<rparr>,
        \<lparr>de_inode = up, de_file_type = Directory, de_filename = [dot, dot]\<rparr>] @ listing" by blast
    have "parent_ino os i (path_parent p) (d\<lparr>dk_world := w\<rparr>) = (Ok up, d\<lparr>dk_world := w1\<rparr>)"
      unfolding parent using asked by blast
    with p rest show ?run
      unfolding disk_read_dir_Ok
      by (intro exI [where x = p] exI [where x = dir] exI [where x = w] exI [where x = up]
          exI [where x = "d\<lparr>dk_world := w1\<rparr>"] exI [where x = items] exI [where x = listing])
         (simp add: same)
  qed
qed

lemma parents: "path_parent (ascii ''/srv'') = Some (ascii ''/'')"
  "path_parent (ascii ''/srv/a'') = Some (ascii ''/srv'')" "path_parent (ascii ''/etc'') = Some (ascii ''/'')"
  by code_simp+

lemma listing_srv: "mem_listing srv mem_srv
    = [\<lparr>oe_ino = 65, oe_mode = Ok S_IFREG, oe_name = ascii ''a''\<rparr>]"
  by code_simp

lemma stream_srv: "stream_gives mem_os srv mem_srv
    [\<lparr>oe_ino = 65, oe_mode = Ok S_IFREG, oe_name = ascii ''a''\<rparr>] (mem_srv\<lparr>mw_pos := 1\<rparr>)"
proof -
  have "mw_pos mem_srv = 0" by (simp add: mem_srv_def)
  then have "os_next_entry mem_os srv mem_srv
      = (Ok (Some \<lparr>oe_ino = 65, oe_mode = Ok S_IFREG, oe_name = ascii ''a''\<rparr>), mem_srv\<lparr>mw_pos := 1\<rparr>)"
    by (simp add: mem_os_def mem_next_def listing_srv)
  moreover have "os_next_entry mem_os srv (mem_srv\<lparr>mw_pos := 1\<rparr>) = (Ok None, mem_srv\<lparr>mw_pos := 1\<rparr>)"
    by (simp add: mem_os_def mem_next_def listing_srv)
  ultimately show ?thesis by (rule stream_item [OF _ stream_end])
qed

lemma read_dir_srv: "disk_read_dir mem_os 1 disk_srv = (Ok
    [\<lparr>de_inode = 1, de_file_type = Directory, de_filename = [dot]\<rparr>,
     \<lparr>de_inode = 1, de_file_type = Directory, de_filename = [dot, dot]\<rparr>,
     \<lparr>de_inode = 65, de_file_type = RegularFile, de_filename = ascii ''a''\<rparr>],
    disk_srv\<lparr>dk_world := mem_srv\<lparr>mw_pos := 1\<rparr>\<rparr>)"
proof -
  have path: "inode_map disk_srv 1 = Some srv" "dk_world disk_srv = mem_srv"
    by (simp_all add: disk_srv_def disk_new_def ROOT_INODE_def)
  have opened: "os_read_dir mem_os srv mem_srv = (Ok srv, mem_srv)"
    by (simp add: disk_eval mode_is_def mode_defs)
  have parent: "os_metadata mem_os (ascii ''/'') mem_srv = (Err (mem_error KNotFound), mem_srv)"
    by (simp add: disk_eval)
  have "listed \<lparr>oe_ino = 65, oe_mode = Ok S_IFREG, oe_name = ascii ''a''\<rparr>
      \<lparr>de_inode = 65, de_file_type = RegularFile, de_filename = ascii ''a''\<rparr>"
    by (simp add: listed_def file_type_from_std_def mode_is_def mode_defs)
  with path opened parent stream_srv parents(1) show ?thesis
    unfolding disk_read_dir_Ok
    by (intro exI [where x = srv] exI [where x = mem_srv] exI [where x = 1] exI [where x = disk_srv]
        exI [where x = "[\<lparr>oe_ino = 65, oe_mode = Ok S_IFREG, oe_name = ascii ''a''\<rparr>]"]
        exI [where x = "[\<lparr>de_inode = 65, de_file_type = RegularFile, de_filename = ascii ''a''\<rparr>]"])
       (simp add: parent_ino_def io_match_def sys_def srv_def)
qed

text \<open>A read of \<open>2 ^ 63\<close> bytes or more panics once the file is open, whatever the file holds:
  the buffer of the asked length is made before anything is read.\<close>

lemma read_length_panics:
  assumes "inode_map d i = Some p" and "2 ^ 63 \<le> unat len"
    and "os_open os (open_options_new\<lparr>oo_read := True\<rparr>) p (dk_world d) = (Ok fd, w)"
  shows "disk_read os i offset len d = (Panics, d\<lparr>dk_world := w\<rparr>)"
  using assms by (simp add: disk_read_def sys_def io_bind_def zeroed_buffer_def)

lemma read_length_example:
  "disk_read mem_os 65 0 0xFFFFFFFFFFFFFFFF disk_a = (Panics, disk_a\<lparr>dk_world := mem_srv\<rparr>)"
  by (rule read_length_panics [where p = "ascii ''/srv/a''" and fd = "ascii ''/srv/a''"])
     (simp_all add: disk_a_def disk_eval open_options_new_def)

lemma create_flags:
  "create_options fl = \<lparr>oo_read = False, oo_write = True, oo_create = True,
     oo_create_new = bit fl 7, oo_truncate = bit fl 9\<rparr>"
proof -
  have "fl AND 0x80 \<noteq> 0 \<longleftrightarrow> bit fl 7" and "fl AND 0x200 \<noteq> 0 \<longleftrightarrow> bit fl 9"
    using bit_iff_and_push_bit_not_eq_0 [of fl 7] bit_iff_and_push_bit_not_eq_0 [of fl 9] by simp_all
  then show ?thesis
    by (simp add: create_options_def O_EXCL_def O_TRUNC_def open_options_new_def Let_def)
qed

text \<open>C40: A successful creation opened the pushed path for writing, creating it when missing,
  refusing one that exists exactly when bit 7 (\<open>O_EXCL\<close>) of the flags is set and emptying it
  exactly when bit 9 (\<open>O_TRUNC\<close>) is; then set the mode asked for on that path, whoever made the
  file, and handed out the inode of the opened file, remembering the path for it unless the inode
  already has one.\<close>

theorem create_file_result:
  assumes "disk_create_file os i perms flags name d = (Ok ino, d')"
  shows "\<exists>dir fd meta w1 w2 w3. inode_map d i = Some dir
    \<and> os_open os \<lparr>oo_read = False, oo_write = True, oo_create = True, oo_create_new = bit flags 7,
         oo_truncate = bit flags 9\<rparr> (path_push dir name) (dk_world d) = (Ok fd, w1)
    \<and> os_set_permissions os (path_push dir name) (ucast perms) w1 = (Ok (), w2)
    \<and> os_fd_metadata os fd w2 = (Ok meta, w3) \<and> ino = md_ino meta
    \<and> d' = \<lparr>inode_map = (if inode_map d ino = None then (inode_map d)(ino \<mapsto> path_push dir name)
           else inode_map d), dk_world = w3\<rparr>"
  using assms
  by (auto simp: disk_create_file_def Let_def get_path_Ok sys_Ok or_insert_Ok create_flags
      elim!: io_bind_OkE)

text \<open>An exclusive creation of a new file, by what the property says of it.\<close>

theorem create_file_result_witness:
  "inode_map (snd (disk_create_file mem_os 1 0x1A4 0x80 (ascii ''n'') disk_srv))
   = [1 \<mapsto> srv, 100 \<mapsto> ascii ''/srv/n'']"
proof -
  have "\<exists>d'. disk_create_file mem_os 1 0x1A4 0x80 (ascii ''n'') disk_srv = (Ok 100, d')"
    by (simp add: disk_create_file_def create_options_def disk_eval)
  then obtain d' where run: "disk_create_file mem_os 1 0x1A4 0x80 (ascii ''n'') disk_srv = (Ok 100, d')" ..
  have "inode_map disk_srv 100 = None" "inode_map disk_srv 1 = Some srv" "inode_map disk_srv = [1 \<mapsto> srv]"
    by (simp_all add: disk_srv_def disk_new_def ROOT_INODE_def)
  moreover have "path_push srv (ascii ''n'') = ascii ''/srv/n''"
    by (simp add: path_push_def srv_def is_absolute_def slash_def ascii_def)
  ultimately show ?thesis using create_file_result [OF run] run by auto
qed

text \<open>When the operating system's texts, times, names and lengths fit the wire, so does every
  result of the disk backend: its replies can all be encoded and read back.\<close>

theorem disk_results_fit_the_wire:
  assumes "os_fits os"
  shows "wf_backend (disk_backend os)"
  using assms by (rule disk_backend_wf)

theorem disk_results_fit_the_wire_witness: "wf_backend (disk_backend mem_os)"
  by (rule disk_results_fit_the_wire) (rule mem_os_fits)

end
