(* ===== verification/Client.thy ===== *)
theory Client
  imports Handlers
begin

text \<open>
  The client's protocol handler (\<open>fs/handler.rs\<close>): request ids and reply listeners, the
  receive loop that routes messages to them, the waiting loops, and \<open>ClientHandler\<close>'s
  implementation of the backend operations. What the other side does is the parameter
  \<open>xfer\<close>: given the bytes sent, either the write fails (with the error's text) or these are the
  pieces of input that arrive while the caller waits, and whether the stream then ends.
  Calls take \<open>&mut self\<close>, so they run one after another.
\<close>

subsection \<open>Listeners and the receive loop\<close>

text \<open>
  \<open>reply_listeners\<close> maps a request id to the sending end of an unbounded channel. The channel
  is shown by its receiving end: the messages queued in it, or that it was dropped.
\<close>

datatype chan = Live "message list" | Dropped

type_synonym listeners = "u32 \<rightharpoonup> chan"

record 't client =
  cl_next_id :: u32
  cl_listeners :: listeners
  cl_buffer :: bytes           \<comment> \<open>input read but not yet decoded\<close>
  cl_receiving :: bool         \<comment> \<open>the receive loop is still running\<close>
  cl_transport :: 't

type_synonym 't xfer = "bytes \<Rightarrow> 't \<Rightarrow> (ustring + bytes list \<times> bool) \<times> 't"

fun receive_loop :: "(bin_error + message) list \<Rightarrow> listeners \<Rightarrow> listeners" where
  "receive_loop [] listeners = listeners"
| "receive_loop (Inl e # items) listeners = receive_loop items listeners"
| "receive_loop (Inr msg # items) listeners =
     (case listeners (request_id msg) of
        Some (Live q) \<Rightarrow> receive_loop items (listeners(request_id msg \<mapsto> Live (q @ [msg])))
      | Some Dropped \<Rightarrow> receive_loop items (listeners(request_id msg := None))
      | None \<Rightarrow> receive_loop items listeners)"

text \<open>The items the framed reader yields for one batch of input, the last one its error.\<close>

fun stream_items :: "message list \<times> bin_error option \<times> bytes \<Rightarrow> (bin_error + message) list" where
  "stream_items (ms, None, rest) = map Inr ms"
| "stream_items (ms, Some e, rest) = map Inr ms @ [Inl e]"

definition pump :: "bytes list \<Rightarrow> bool \<Rightarrow> 't client \<Rightarrow> 't client" where
  "pump chunks closed c =
     (if cl_receiving c then
        (case decode_stream (cl_buffer c) chunks of (ms, err, rest) \<Rightarrow>
           c\<lparr>cl_listeners := receive_loop (stream_items (ms, err, rest)) (cl_listeners c),
             cl_buffer := rest, cl_receiving := (err = None \<and> \<not> closed)\<rparr>)
      else c)"

subsection \<open>Waiting for replies\<close>

text \<open>
  A waiting loop is run on the messages queued for it; \<open>alive\<close> says that a sender of its
  channel still exists, so that a receive on the empty queue waits.
\<close>

fun await_success :: "message list \<Rightarrow> bool \<Rightarrow> unit io_result" where
  "await_success [] alive = recv_end alive"
| "await_success (SuccessRes rid # q) alive = Ok ()"
| "await_success (Error rid code msg # q) alive = Err (io_error_new (kind_of_code code) msg)"
| "await_success (_ # q) alive = await_success q alive"

definition next_message :: "message list \<Rightarrow> bool \<Rightarrow> (message \<times> message list) io_result" where
  "next_message q alive = (case q of
      [] \<Rightarrow> recv_end alive
    | msg # q' \<Rightarrow> (case error_try_from msg of Inr e \<Rightarrow> Err e | Inl _ \<Rightarrow> Ok (msg, q')))"

text \<open>\<open>loop { match next_message(..).await? { .. } }\<close> with the arms that return given by \<open>f\<close>.\<close>

lemma next_message_shorter: "next_message q alive = Ok (m, q') \<Longrightarrow> length q' < length q"
  by (auto simp: next_message_def recv_end_def split: list.splits sum.splits if_splits)

function reply_loop :: "(message \<Rightarrow> 'a io_result option) \<Rightarrow> message list \<Rightarrow> bool \<Rightarrow> 'a io_result" where
  "reply_loop f q alive = (case next_message q alive of
      Ok (msg, q') \<Rightarrow> (case f msg of Some r \<Rightarrow> r | None \<Rightarrow> reply_loop f q' alive)
    | Err e \<Rightarrow> Err e | Panics \<Rightarrow> Panics | Hangs \<Rightarrow> Hangs)"
  by pat_completeness auto
termination
  by (relation "measure (\<lambda>(f, q, alive). length q)") (auto dest: next_message_shorter)

declare reply_loop.simps [simp del]

fun lookup_reply :: "message \<Rightarrow> u64 io_result option" where
  "lookup_reply (LookupRes _ inode) = Some (Ok inode)"
| "lookup_reply _ = None"

fun attr_reply :: "message \<Rightarrow> file_attr io_result option" where
  "attr_reply (FileAttrRes rid ft sz bl a m c p l u g r k) =
     (case file_attr_from_message (FileAttrRes rid ft sz bl a m c p l u g r k) of
        Ok (Some attr) \<Rightarrow> Some (Ok attr) | _ \<Rightarrow> Some Panics)"
| "attr_reply _ = None"

fun stats_reply :: "message \<Rightarrow> fs_stats io_result option" where
  "stats_reply (StatsRes rid k b f a t n l z) =
     (case fs_stats_from_message (StatsRes rid k b f a t n l z) of
        Some st \<Rightarrow> Some (Ok st) | None \<Rightarrow> Some Panics)"
| "stats_reply _ = None"

subsection \<open>Sending\<close>

definition register_listener :: "u32 \<Rightarrow> listeners \<Rightarrow> listeners" where
  "register_listener req_id listeners = listeners(req_id \<mapsto> Live [])"

text \<open>The receiver goes out of scope: at the end of a call, or when the send failed.\<close>

definition drop_receiver :: "u32 \<Rightarrow> 't client \<Rightarrow> 't client" where
  "drop_receiver i c = (case cl_listeners c i of
      Some (Live _) \<Rightarrow> c\<lparr>cl_listeners := (cl_listeners c)(i \<mapsto> Dropped)\<rparr>
    | _ \<Rightarrow> c)"

definition send_msg :: "'t xfer \<Rightarrow> message \<Rightarrow> ('t client, u32) io" where
  "send_msg xfer msg c =
     (let i = cl_next_id c;
          msg' = set_request_id i msg;
          c1 = c\<lparr>cl_listeners := register_listener i (cl_listeners c), cl_next_id := i + 1\<rparr>
      in case xfer (write_message msg') (cl_transport c) of
           (Inr (chunks, closed), t) \<Rightarrow> (Ok i, pump chunks closed (c1\<lparr>cl_transport := t\<rparr>))
         | (Inl e, t) \<Rightarrow>
             (Err (io_error_new KOther e), drop_receiver i (c1\<lparr>cl_transport := t\<rparr>)))"

text \<open>Waiting on the listener of request \<open>i\<close> with \<open>w\<close>, then dropping it.\<close>

definition await_on :: "(message list \<Rightarrow> bool \<Rightarrow> 'a io_result) \<Rightarrow> u32 \<Rightarrow> ('t client, 'a) io" where
  "await_on w i c = (case cl_listeners c i of
      Some (Live q) \<Rightarrow> (w q True, drop_receiver i c)
    | Some Dropped \<Rightarrow> (w [] True, c)
    | None \<Rightarrow> (w [] False, c))"

definition call :: "'t xfer \<Rightarrow> message \<Rightarrow> (message list \<Rightarrow> bool \<Rightarrow> 'a io_result) \<Rightarrow> ('t client, 'a) io" where
  "call xfer msg w = io_bind (send_msg xfer msg) (await_on w)"

text \<open>\<open>.map_err(|e| io::Error::other(e))\<close> on the send.\<close>

definition map_err_other :: "('s, 'a) io \<Rightarrow> ('s, 'a) io" where
  "map_err_other m s = (case m s of (Err e, s') \<Rightarrow> (Err (io_error_other (err_text e)), s') | r \<Rightarrow> r)"

definition call_other :: "'t xfer \<Rightarrow> message \<Rightarrow> (message list \<Rightarrow> bool \<Rightarrow> 'a io_result) \<Rightarrow> ('t client, 'a) io" where
  "call_other xfer msg w = io_bind (map_err_other (send_msg xfer msg)) (await_on w)"

subsection \<open>The handshake\<close>

fun error_code_debug :: "error_code \<Rightarrow> ustring" where
  "error_code_debug Internal = ascii ''Internal''"
| "error_code_debug Invalid = ascii ''Invalid''"
| "error_code_debug NotFound = ascii ''NotFound''"
| "error_code_debug Exists = ascii ''Exists''"
| "error_code_debug Unsupported = ascii ''Unsupported''"

text \<open>\<open>dbg\<close> renders a message for the error text (\<open>{other:?}\<close>).\<close>

definition init_reply :: "(message \<Rightarrow> ustring) \<Rightarrow> message list \<Rightarrow> bool \<Rightarrow> unit io_result" where
  "init_reply dbg q alive = (case q of
      InitRes _ True # _ \<Rightarrow> Ok ()
    | InitRes _ False # _ \<Rightarrow> Err (io_error_new KConnectionRefused
        (ascii ''server rejected the INIT handshake''))
    | Error _ code msg # _ \<Rightarrow> Err (io_error_new KConnectionRefused
        (ascii ''server returned an error during INIT: '' @ error_code_debug code @ ascii '': '' @ msg))
    | other # _ \<Rightarrow> Err (io_error_new KInvalidData (ascii ''unexpected reply to INIT_REQ: '' @ dbg other))
    | [] \<Rightarrow> (if alive then Hangs
        else Err (io_error_new KUnexpectedEof (ascii ''connection closed during the INIT handshake''))))"

definition client_fresh :: "'t \<Rightarrow> 't client" where
  "client_fresh t = \<lparr>cl_next_id = 0, cl_listeners = Map.empty, cl_buffer = [], cl_receiving = True,
     cl_transport = t\<rparr>"

definition client_init :: "(message \<Rightarrow> ustring) \<Rightarrow> 't xfer \<Rightarrow> ('t client, unit) io" where
  "client_init dbg xfer = call xfer (InitReq 0 0) (init_reply dbg)"

definition client_new :: "(message \<Rightarrow> ustring) \<Rightarrow> 't xfer \<Rightarrow> 't \<Rightarrow> unit io_result \<times> 't client" where
  "client_new dbg xfer t = client_init dbg xfer (client_fresh t)"

subsection \<open>The backend operations\<close>

definition client_lookup :: "'t xfer \<Rightarrow> u64 \<Rightarrow> path \<Rightarrow> ('t client, u64) io" where
  "client_lookup xfer dir_inode filename =
     call_other xfer (LookupReq 0 dir_inode filename) (reply_loop lookup_reply)"

definition client_get_attr :: "'t xfer \<Rightarrow> u64 \<Rightarrow> ('t client, file_attr) io" where
  "client_get_attr xfer inode = call xfer (GetAttrReq 0 inode) (reply_loop attr_reply)"

definition client_set_attr :: "'t xfer \<Rightarrow> u64 \<Rightarrow> u64 option \<Rightarrow> system_time option
    \<Rightarrow> system_time option \<Rightarrow> u16 option \<Rightarrow> u32 option \<Rightarrow> u32 option \<Rightarrow> ('t client, unit) io" where
  "client_set_attr xfer inode sz atime mtime permissions uid gid =
     call xfer (SetAttrReq 0 inode sz (map_option to_unix atime) (map_option to_unix mtime)
       permissions uid gid) await_success"

definition client_stats :: "'t xfer \<Rightarrow> ('t client, fs_stats) io" where
  "client_stats xfer = call xfer (StatsReq 0) (reply_loop stats_reply)"

definition client_create_file :: "'t xfer \<Rightarrow> u64 \<Rightarrow> u16 \<Rightarrow> u32 \<Rightarrow> path \<Rightarrow> ('t client, u64) io" where
  "client_create_file xfer dir_inode permissions unix_flags filename =
     call_other xfer (CreateReq 0 dir_inode permissions unix_flags False filename)
       (reply_loop lookup_reply)"

definition client_create_dir :: "'t xfer \<Rightarrow> u64 \<Rightarrow> u16 \<Rightarrow> path \<Rightarrow> ('t client, u64) io" where
  "client_create_dir xfer parent_inode permissions dir_name =
     call_other xfer (CreateReq 0 parent_inode permissions 0 True dir_name) (reply_loop lookup_reply)"

definition client_read :: "'t xfer \<Rightarrow> u64 \<Rightarrow> u64 \<Rightarrow> u64 \<Rightarrow> ('t client, bytes) io" where
  "client_read xfer inode offset len =
     call_other xfer (ReadReq 0 inode offset len) combine_read_chunks"

definition client_write :: "'t xfer \<Rightarrow> u64 \<Rightarrow> u64 \<Rightarrow> bytes \<Rightarrow> ('t client, unit) io" where
  "client_write xfer inode offset data = call xfer (WriteReq 0 inode offset data) await_success"

definition client_read_dir :: "(bin_error \<Rightarrow> ustring) \<Rightarrow> 't xfer \<Rightarrow> u64 \<Rightarrow> ('t client, dir_entry list) io" where
  "client_read_dir fmt xfer inode =
     io_bind (call_other xfer (ReaddirReq 0 inode) combine_read_chunks)
       (\<lambda>data. case parse_dir_entries data of
           Inr es \<Rightarrow> io_return es
         | Inl e \<Rightarrow> io_fail (io_error_other (fmt e)))"

definition client_remove :: "'t xfer \<Rightarrow> u64 \<Rightarrow> ('t client, unit) io" where
  "client_remove xfer inode = call xfer (RmReq 0 inode) await_success"

definition client_rename :: "'t xfer \<Rightarrow> u64 \<Rightarrow> u64 \<Rightarrow> path \<Rightarrow> ('t client, unit) io" where
  "client_rename xfer inode dest_dir_inode dest_filename =
     call xfer (MoveReq 0 inode dest_dir_inode dest_filename) await_success"

definition client_backend :: "(bin_error \<Rightarrow> ustring) \<Rightarrow> 't xfer \<Rightarrow> 't client fs_backend" where
  "client_backend fmt xfer =
     \<lparr>be_lookup = client_lookup xfer, be_get_attr = client_get_attr xfer,
      be_set_attr = client_set_attr xfer, be_stats = client_stats xfer,
      be_create_file = client_create_file xfer, be_create_dir = client_create_dir xfer,
      be_read = client_read xfer, be_write = client_write xfer,
      be_read_dir = client_read_dir fmt xfer, be_remove = client_remove xfer,
      be_rename = client_rename xfer\<rparr>"

subsection \<open>Routing\<close>

fun item_messages :: "(bin_error + message) list \<Rightarrow> message list" where
  "item_messages [] = []"
| "item_messages (Inl e # items) = item_messages items"
| "item_messages (Inr m # items) = m # item_messages items"

lemma item_messages_stream [simp]: "item_messages (stream_items (ms, err, rest)) = ms"
proof -
  have "item_messages (map Inr ms @ es) = ms @ item_messages es" for es
    by (induction ms) simp_all
  from this [of "[]"] this show ?thesis by (cases err) simp_all
qed

text \<open>A live listener is given exactly the messages with its request id, in order of arrival.\<close>

lemma receive_loop_live:
  "listeners i = Some (Live q) \<Longrightarrow>
   receive_loop items listeners i
     = Some (Live (q @ filter (\<lambda>m. request_id m = i) (item_messages items)))"
  by (induction items listeners arbitrary: q rule: receive_loop.induct)
     (auto split: option.splits chan.splits)

text \<open>Ids that no message carries keep their entry; a dropped receiver's entry goes at most once.\<close>

lemma receive_loop_other:
  "i \<notin> request_id ` set (item_messages items) \<Longrightarrow> receive_loop items listeners i = listeners i"
  by (induction items listeners rule: receive_loop.induct) (auto split: option.splits chan.splits)

subsection \<open>One call\<close>

lemma pump_next_id [simp]: "cl_next_id (pump chunks closed c) = cl_next_id c"
  by (simp add: pump_def split: prod.splits)

lemma pump_transport [simp]: "cl_transport (pump chunks closed c) = cl_transport c"
  by (simp add: pump_def split: prod.splits)

lemma drop_receiver_fields [simp]:
  "cl_next_id (drop_receiver i c) = cl_next_id c"
  "cl_buffer (drop_receiver i c) = cl_buffer c"
  "cl_receiving (drop_receiver i c) = cl_receiving c"
  "cl_transport (drop_receiver i c) = cl_transport c"
  "dom (cl_listeners (drop_receiver i c)) = dom (cl_listeners c)"
  by (auto simp: drop_receiver_def split: option.splits chan.splits)

lemma pump_live:
  assumes "cl_listeners c i = Some (Live q)"
  shows "\<exists>q'. cl_listeners (pump chunks closed c) i = Some (Live q')"
  using receive_loop_live [of "cl_listeners c" i q] assms by (auto simp: pump_def split: prod.splits)

lemma send_msg_Ok:
  assumes "send_msg xfer m c = (Ok i, c')"
  shows "i = cl_next_id c" and "cl_next_id c' = cl_next_id c + 1"
    and "\<exists>q. cl_listeners c' i = Some (Live q)"
proof -
  from assms obtain chunks closed t where
    i: "i = cl_next_id c" and c': "c' = pump chunks closed (c\<lparr>cl_listeners :=
      register_listener i (cl_listeners c), cl_next_id := i + 1, cl_transport := t\<rparr>)"
    by (auto simp: send_msg_def Let_def split: prod.splits sum.splits)
  show "i = cl_next_id c" by (rule i)
  show "cl_next_id c' = cl_next_id c + 1" using i c' by simp
  show "\<exists>q. cl_listeners c' i = Some (Live q)"
    unfolding c' by (rule pump_live) (simp add: register_listener_def)
qed

lemma send_msg_next_id: "cl_next_id (snd (send_msg xfer m c)) = cl_next_id c + 1"
  by (auto simp: send_msg_def Let_def split: prod.splits sum.splits)

lemma send_msg_not_lost: "fst (send_msg xfer m c) \<noteq> Panics \<and> fst (send_msg xfer m c) \<noteq> Hangs"
  by (auto simp: send_msg_def Let_def split: prod.splits sum.splits)

lemma send_msg_Err: "send_msg xfer m c = (Err e, c') \<Longrightarrow> err_kind e = KOther"
  by (auto simp: send_msg_def Let_def split: prod.splits sum.splits)

lemma await_on_next_id [simp]: "cl_next_id (snd (await_on w i c)) = cl_next_id c"
  by (auto simp: await_on_def split: option.splits chan.splits)

text \<open>Every call takes one request id, whatever happens.\<close>

lemma call_next_id:
  "cl_next_id (snd (call xfer m w c)) = cl_next_id c + 1"
  "cl_next_id (snd (call_other xfer m w c)) = cl_next_id c + 1"
  using send_msg_next_id [of xfer m c]
  by (auto simp: call_def call_other_def map_err_other_def io_bind_def
      split: prod.splits io_result.splits)

text \<open>The waiting loop always runs with its sender alive.\<close>

lemma call_cases:
  "(\<exists>e c'. call xfer m w c = (Err e, c') \<and> err_kind e = KOther)
   \<or> (\<exists>q c'. call xfer m w c = (w q True, c'))"
proof (cases "send_msg xfer m c")
  case (Pair r c')
  show ?thesis
  proof (cases r)
    case (Ok i)
    with Pair obtain q where "cl_listeners c' i = Some (Live q)"
      using send_msg_Ok(3) by blast
    with Pair Ok show ?thesis by (auto simp: call_def await_on_def)
  next
    case (Err e)
    with Pair send_msg_Err [of xfer m c e c'] show ?thesis by (auto simp: call_def)
  qed (use Pair send_msg_not_lost [of xfer m c] in auto)
qed

lemma call_other_cases:
  "(\<exists>e c'. call_other xfer m w c = (Err e, c') \<and> err_kind e = KOther)
   \<or> (\<exists>q c'. call_other xfer m w c = (w q True, c'))"
proof (cases "send_msg xfer m c")
  case (Pair r c')
  show ?thesis
  proof (cases r)
    case (Ok i)
    with Pair obtain q where "cl_listeners c' i = Some (Live q)"
      using send_msg_Ok(3) by blast
    with Pair Ok show ?thesis by (auto simp: call_other_def map_err_other_def io_bind_def await_on_def)
  next
    case (Err e)
    with Pair show ?thesis by (auto simp: call_other_def map_err_other_def io_bind_def io_error_other_def)
  qed (use Pair send_msg_not_lost [of xfer m c] in auto)
qed

subsection \<open>The listener map\<close>

text \<open>What a call's exchange with the peer decodes.\<close>

definition heard :: "'t xfer \<Rightarrow> message \<Rightarrow> 't client \<Rightarrow> message list" where
  "heard xfer m c = (case fst (xfer (write_message (set_request_id (cl_next_id c) m)) (cl_transport c)) of
      Inr (chunks, closed) \<Rightarrow> if cl_receiving c then fst (decode_stream (cl_buffer c) chunks) else []
    | Inl e \<Rightarrow> [])"

text \<open>The receive loop drops a listener when it cannot deliver to it, and at no other time.\<close>

lemma receive_loop_None:
  "receive_loop items ls j = None
     \<longleftrightarrow> ls j = None \<or> (ls j = Some Dropped \<and> j \<in> request_id ` set (item_messages items))"
proof (induction items arbitrary: ls)
  case (Cons item items)
  show ?case
  proof (cases item)
    case (Inr msg)
    show ?thesis
    proof (cases "ls (request_id msg)")
      case (Some ch)
      with Inr Cons.IH show ?thesis by (cases ch) auto
    qed (use Inr Cons.IH in auto)
  qed (use Cons.IH in simp)
qed simp

lemma receive_loop_dom:
  "dom (receive_loop items ls)
    = dom ls - {j. ls j = Some Dropped \<and> j \<in> request_id ` set (item_messages items)}"
  unfolding dom_def receive_loop_None by auto

lemma pump_dom:
  "dom (cl_listeners (pump chunks closed c)) = dom (cl_listeners c) - {j. cl_listeners c j = Some Dropped
    \<and> j \<in> request_id ` set (if cl_receiving c then fst (decode_stream (cl_buffer c) chunks) else [])}"
  by (auto simp: pump_def receive_loop_dom split: prod.splits)

lemma send_msg_dom:
  "dom (cl_listeners (snd (send_msg xfer m c))) = insert (cl_next_id c) (dom (cl_listeners c)
     - {j. cl_listeners c j = Some Dropped \<and> j \<in> request_id ` set (heard xfer m c)})"
  by (auto simp: send_msg_def heard_def Let_def pump_dom register_listener_def split: prod.splits sum.splits)

lemma await_on_dom [simp]: "dom (cl_listeners (snd (await_on w i c))) = dom (cl_listeners c)"
  by (simp add: await_on_def split: option.split chan.split)

lemma call_dom:
  "dom (cl_listeners (snd (call xfer m w c))) = dom (cl_listeners (snd (send_msg xfer m c)))"
  "dom (cl_listeners (snd (call_other xfer m w c))) = dom (cl_listeners (snd (send_msg xfer m c)))"
  by (auto simp: call_def call_other_def map_err_other_def io_bind_def simp del: domIff
      split: prod.splits io_result.splits)

subsection \<open>Which errors a caller can see\<close>

text \<open>The kinds an error message can carry, and the kind of a failed send.\<close>

definition reported_kind :: "error_kind \<Rightarrow> bool" where
  "reported_kind k \<longleftrightarrow> k \<in> {KOther, KInvalidInput, KNotFound, KAlreadyExists, KUnsupported}"

lemma reported_kind_of_code [simp]: "reported_kind (kind_of_code c)"
  by (cases c) (simp_all add: reported_kind_def)

definition errors_reported :: "(message list \<Rightarrow> bool \<Rightarrow> 'a io_result) \<Rightarrow> bool" where
  "errors_reported w \<longleftrightarrow> (\<forall>q e. w q True = Err e \<longrightarrow> reported_kind (err_kind e))"

lemma await_success_reported: "errors_reported await_success"
proof -
  have "alive \<Longrightarrow> await_success q alive = Err e \<Longrightarrow> reported_kind (err_kind e)" for q alive e
    by (induction q alive rule: await_success.induct) (auto simp: recv_end_def)
  then show ?thesis by (simp add: errors_reported_def)
qed

lemma combine_reported: "errors_reported combine_read_chunks"
proof -
  have "alive \<Longrightarrow> combine_loop q alive m n = Err e \<Longrightarrow> reported_kind (err_kind e)" for q alive m n e
    by (induction q alive m n rule: combine_loop.induct)
       (auto simp: recv_end_def Let_def split: if_splits)
  then show ?thesis by (simp add: errors_reported_def combine_read_chunks_def)
qed

lemma next_message_Err:
  "next_message q True = Err e \<Longrightarrow> reported_kind (err_kind e)"
  by (auto simp: next_message_def recv_end_def split: list.splits sum.splits elim!: error_try_from.elims)

lemma reply_loop_reported:
  assumes "\<And>m e. f m \<noteq> Some (Err e)"
  shows "errors_reported (reply_loop f)"
proof -
  have "reply_loop f q True = Err e \<Longrightarrow> reported_kind (err_kind e)" for q e
    using assms
  proof (induction f q "True" rule: reply_loop.induct)
    case (1 f q)
    show ?case
    proof (cases "next_message q True")
      case (Ok v)
      then obtain m q' where v: "next_message q True = Ok (m, q')" by (cases v) auto
      with 1 show ?thesis by (cases "f m") (auto simp: reply_loop.simps [of f q])
    qed (use 1 next_message_Err in \<open>auto simp: reply_loop.simps [of f q]\<close>)
  qed
  then show ?thesis by (simp add: errors_reported_def)
qed

lemma matchers_no_Err:
  "lookup_reply m \<noteq> Some (Err e)" "attr_reply m \<noteq> Some (Err e)" "stats_reply m \<noteq> Some (Err e)"
  by (cases m; auto split: option.splits io_result.splits)+

lemmas waiters_reported = await_success_reported combine_reported
  reply_loop_reported [where f = lookup_reply, OF matchers_no_Err(1)]
  reply_loop_reported [where f = attr_reply, OF matchers_no_Err(2)]
  reply_loop_reported [where f = stats_reply, OF matchers_no_Err(3)]

lemma call_reported:
  assumes "errors_reported w"
  shows "fst (call xfer m w c) = Err e \<Longrightarrow> reported_kind (err_kind e)"
    and "fst (call_other xfer m w c) = Err e \<Longrightarrow> reported_kind (err_kind e)"
proof -
  have other: "reported_kind KOther" by (simp add: reported_kind_def)
  show "fst (call xfer m w c) = Err e \<Longrightarrow> reported_kind (err_kind e)"
    using assms other call_cases [of xfer m w c] by (auto simp: errors_reported_def)
  show "fst (call_other xfer m w c) = Err e \<Longrightarrow> reported_kind (err_kind e)"
    using assms other call_other_cases [of xfer m w c] by (auto simp: errors_reported_def)
qed

subsection \<open>Properties\<close>

text \<open>C18: The receive loop gives a waiting request exactly the messages that carry its id, in the
  order they arrive, skipping undecodable input, and leaves alone every listener whose id no
  message carries: no request sees another's reply.\<close>

theorem replies_reach_their_listener:
  assumes "listeners i = Some (Live q)"
  shows "receive_loop items listeners i
      = Some (Live (q @ filter (\<lambda>m. request_id m = i) (item_messages items)))
    \<and> (\<forall>j. j \<notin> request_id ` set (item_messages items) \<longrightarrow> receive_loop items listeners j = listeners j)"
  using receive_loop_live [where listeners = listeners, OF assms] receive_loop_other by blast

theorem replies_reach_their_listener_witness:
  "receive_loop [Inr (SuccessRes 4), Inl BadMagic, Inr (SuccessRes 5)] [4 \<mapsto> Live [], 5 \<mapsto> Live []] 4
      = Some (Live [SuccessRes 4])"
  using replies_reach_their_listener [where listeners = "[4 \<mapsto> Live [], 5 \<mapsto> Live []]" and i = 4
      and q = "[]" and items = "[Inr (SuccessRes 4), Inl BadMagic, Inr (SuccessRes 5)]"]
  by simp

text \<open>C34: A call's listener is never given up when the call ends, however it ends and whatever the
  peer does: after the call the map has the call's request id and all the ids it had before,
  except those of ended calls for which a further message was decoded during this call. Without
  such late messages it grows by one entry per request.\<close>

theorem listeners_accumulate:
  "dom (cl_listeners (snd (call xfer m w c))) = insert (cl_next_id c) (dom (cl_listeners c)
     - {j. cl_listeners c j = Some Dropped \<and> j \<in> request_id ` set (heard xfer m c)})
   \<and> dom (cl_listeners (snd (call_other xfer m w c))) = dom (cl_listeners (snd (call xfer m w c)))"
  by (simp add: call_dom send_msg_dom)

text \<open>A peer that closes the stream without answering\<close>

definition closing :: "'t xfer" where
  "closing _ t = (Inr ([], True), t)"

lemma call_closing:
  "w [] True = Hangs \<Longrightarrow> fst (call closing m w c) = Hangs"
  "w [] True = Hangs \<Longrightarrow> fst (call_other closing m w c) = Hangs"
  by (simp_all add: call_def call_other_def map_err_other_def io_bind_def send_msg_def closing_def
      Let_def pump_def register_listener_def await_on_def)

lemma waits_on_empty:
  "await_success [] True = Hangs" "combine_read_chunks [] True = Hangs"
  "reply_loop f [] True = Hangs" "init_reply dbg [] True = Hangs"
  by (simp_all add: recv_end_def combine_read_chunks_def reply_loop.simps next_message_def
      init_reply_def)

text \<open>C33: A closed connection does not end the calls on it. The sending half of a call's own
  channel stays in the listener map, so when the peer closes the stream without a reply every
  operation, and the handshake, waits for ever; the code's errors for a closed channel are never
  returned.\<close>

theorem closed_connection_hangs:
  "fst (client_lookup closing d name c) = Hangs \<and> fst (client_get_attr closing i c) = Hangs
   \<and> fst (client_set_attr closing i sz atime mtime perms uid gid c) = Hangs
   \<and> fst (client_stats closing c) = Hangs
   \<and> fst (client_create_file closing d perms' flags name c) = Hangs
   \<and> fst (client_create_dir closing d perms' name c) = Hangs
   \<and> fst (client_read closing i offset len c) = Hangs
   \<and> fst (client_write closing i offset data c) = Hangs
   \<and> fst (client_read_dir fmt closing i c) = Hangs
   \<and> fst (client_remove closing i c) = Hangs \<and> fst (client_rename closing i d name c) = Hangs
   \<and> fst (client_init dbg closing c) = Hangs"
proof -
  have bind: "fst (io_bind m f s) = Hangs" if "fst (m s) = Hangs"
    for m :: "('a client, bytes) io" and f :: "bytes \<Rightarrow> ('a client, dir_entry list) io" and s
    using that by (cases "m s") (simp add: io_bind_def)
  show ?thesis
    unfolding client_lookup_def client_get_attr_def client_set_attr_def client_stats_def
      client_create_file_def client_create_dir_def client_read_def client_write_def
      client_read_dir_def client_remove_def client_rename_def client_init_def
    by (intro conjI call_closing bind waits_on_empty)
qed

text \<open>The handshake succeeds exactly when the first message for it accepts it; any other first
  message is refused or invalid, whatever follows.\<close>

theorem handshake_accepts_iff:
  "init_reply dbg q alive = Ok () \<longleftrightarrow> (\<exists>rid q'. q = InitRes rid True # q')"
  by (auto simp: init_reply_def split: list.splits message.splits bool.splits)

end
