(* ===== verification/Server.thy ===== *)
theory Server
  imports Handlers
begin

text \<open>
  The server's connections (\<open>server/mod.rs\<close>). Every connection has a reader that spawns a task per
  message, a channel of 32 replies, and a writer task that takes replies from the channel one at
  a time and writes them to the peer. The tasks of all connections share the backend's mutex: a
  task holds it from its backend call until all its replies are in its connection's channel (the
  guard lives to the end of the match arm), and the replies of a chunked read go out in any
  order. Connections are numbered; messages carry the number of their connection. Steps are a
  relation; \<open>run_seq\<close> is the sequential server it is compared with.
\<close>

subsection \<open>The sequential server\<close>

type_synonym conn = nat

text \<open>
  Handling one message after another: the replies of all of them, and the state. A handler
  that panics sends nothing; one that hangs stops everything after it.
\<close>

fun run_seq :: "(bin_error \<Rightarrow> ustring) \<Rightarrow> 's fs_backend \<Rightarrow> (conn \<times> message) list \<Rightarrow> 's
    \<Rightarrow> (conn \<times> message) list \<times> 's" where
  "run_seq fmt B [] s = ([], s)"
| "run_seq fmt B ((i, m) # ms) s = (case handle_msg fmt B m s of
      (Ok rs, s') \<Rightarrow> (case run_seq fmt B ms s' of (rs', s'') \<Rightarrow> (map (Pair i) rs @ rs', s''))
    | (Hangs, s') \<Rightarrow> ([], s')
    | (_, s') \<Rightarrow> run_seq fmt B ms s')"

subsection \<open>Server states and steps\<close>

text \<open>The mutex: free, held by a task with replies still to send, or held by one that never returns.\<close>

datatype lock = Free | Replying conn "message multiset" | Stuck

text \<open>The other end of a connection, as a write finds it: taking bytes, not reading, or closed.\<close>

datatype peer_end = Taking | Stalled | Gone

record 's server =
  sv_received :: "(conn \<times> message) list"     \<comment> \<open>every decoded message, in order of arrival\<close>
  sv_tasks :: "(conn \<times> message) multiset"    \<comment> \<open>spawned handler tasks that have not run yet\<close>
  sv_fs :: 's                                 \<comment> \<open>the backend behind the mutex\<close>
  sv_lock :: lock
  sv_sent :: "(conn \<times> message) list"         \<comment> \<open>replies put into the channels, in order\<close>
  sv_queue :: "(conn \<times> message) list"        \<comment> \<open>the channels' contents, oldest first\<close>
  sv_writing :: "(conn \<times> message) list"      \<comment> \<open>taken by a writer task, not yet written\<close>
  sv_written :: "(conn \<times> message) list"      \<comment> \<open>written to the peers, in order\<close>
  sv_lost :: "(conn \<times> message) list"         \<comment> \<open>dropped with a warning: the write failed\<close>
  sv_peer :: "conn \<Rightarrow> peer_end"

definition server_init :: "'s \<Rightarrow> 's server" where
  "server_init fs = \<lparr>sv_received = [], sv_tasks = {#}, sv_fs = fs, sv_lock = Free, sv_sent = [],
     sv_queue = [], sv_writing = [], sv_written = [], sv_lost = [], sv_peer = (\<lambda>_. Taking)\<rparr>"

text \<open>The part of a list that belongs to one connection.\<close>

definition on :: "conn \<Rightarrow> (conn \<times> message) list \<Rightarrow> message list" where
  "on i xs = map snd (filter (\<lambda>x. fst x = i) xs)"

text \<open>\<open>mpsc::channel(32)\<close>: a send waits until the channel holds fewer than 32 messages.\<close>

definition CHANNEL :: nat where
  "CHANNEL = 32"

definition has_room :: "conn \<Rightarrow> 's server \<Rightarrow> bool" where
  "has_room i c \<longleftrightarrow> length (on i (sv_queue c)) < CHANNEL"

text \<open>A handler that does its work without the mutex.\<close>

fun lock_free :: "message \<Rightarrow> bool" where
  "lock_free (InitReq _ _) = True"
| "lock_free (SetAttrReq _ _ _ atime mtime _ _ _) = (time_field atime = None \<or> time_field mtime = None)"
| "lock_free m = (\<not> is_request m)"

text \<open>
  The first five kinds of step are those of the handler tasks; \<open>take\<close>, \<open>write_out\<close> and \<open>write_fails\<close>
  those of a connection's writer task, which holds one message at a time and waits while its
  peer does not read; \<open>receive\<close> is a reader's and \<open>peer\<close> the network's.
\<close>

inductive server_step :: "(bin_error \<Rightarrow> ustring) \<Rightarrow> 's fs_backend \<Rightarrow> 's server \<Rightarrow> 's server \<Rightarrow> bool"
  for fmt :: "bin_error \<Rightarrow> ustring" and B :: "'s fs_backend" where
  receive: "server_step fmt B c
     (c\<lparr>sv_received := sv_received c @ [(i, m)], sv_tasks := add_mset (i, m) (sv_tasks c)\<rparr>)"
| silent: "(i, m) \<in># sv_tasks c \<Longrightarrow> lock_free m \<Longrightarrow> handle_msg fmt B m (sv_fs c) = (r, fs')
   \<Longrightarrow> r = Panics \<or> r = Ok []
   \<Longrightarrow> server_step fmt B c (c\<lparr>sv_tasks := sv_tasks c - {#(i, m)#}\<rparr>)"
| without_lock: "(i, m) \<in># sv_tasks c \<Longrightarrow> lock_free m
   \<Longrightarrow> handle_msg fmt B m (sv_fs c) = (Ok [r], fs') \<Longrightarrow> has_room i c
   \<Longrightarrow> server_step fmt B c
     (c\<lparr>sv_tasks := sv_tasks c - {#(i, m)#},
        sv_sent := sv_sent c @ [(i, r)], sv_queue := sv_queue c @ [(i, r)]\<rparr>)"
| handle: "(i, m) \<in># sv_tasks c \<Longrightarrow> \<not> lock_free m \<Longrightarrow> sv_lock c = Free
   \<Longrightarrow> handle_msg fmt B m (sv_fs c) = (Ok rs, fs')
   \<Longrightarrow> server_step fmt B c
     (c\<lparr>sv_tasks := sv_tasks c - {#(i, m)#}, sv_fs := fs', sv_lock := Replying i (mset rs)\<rparr>)"
| send: "sv_lock c = Replying i rs \<Longrightarrow> r \<in># rs \<Longrightarrow> has_room i c
   \<Longrightarrow> server_step fmt B c
     (c\<lparr>sv_lock := Replying i (rs - {#r#}),
        sv_sent := sv_sent c @ [(i, r)], sv_queue := sv_queue c @ [(i, r)]\<rparr>)"
| unlock: "sv_lock c = Replying i {#} \<Longrightarrow> server_step fmt B c (c\<lparr>sv_lock := Free\<rparr>)"
| panic: "(i, m) \<in># sv_tasks c \<Longrightarrow> \<not> lock_free m \<Longrightarrow> sv_lock c = Free
   \<Longrightarrow> handle_msg fmt B m (sv_fs c) = (Panics, fs')
   \<Longrightarrow> server_step fmt B c (c\<lparr>sv_tasks := sv_tasks c - {#(i, m)#}, sv_fs := fs'\<rparr>)"
| hang: "(i, m) \<in># sv_tasks c \<Longrightarrow> \<not> lock_free m \<Longrightarrow> sv_lock c = Free
   \<Longrightarrow> handle_msg fmt B m (sv_fs c) = (Hangs, fs')
   \<Longrightarrow> server_step fmt B c
     (c\<lparr>sv_tasks := sv_tasks c - {#(i, m)#}, sv_fs := fs', sv_lock := Stuck\<rparr>)"
| take: "sv_queue c = xs @ (i, r) # ys \<Longrightarrow> on i xs = [] \<Longrightarrow> on i (sv_writing c) = []
   \<Longrightarrow> server_step fmt B c (c\<lparr>sv_queue := xs @ ys, sv_writing := sv_writing c @ [(i, r)]\<rparr>)"
| write_out: "(i, r) \<in> set (sv_writing c) \<Longrightarrow> sv_peer c i = Taking
   \<Longrightarrow> server_step fmt B c
     (c\<lparr>sv_writing := remove1 (i, r) (sv_writing c), sv_written := sv_written c @ [(i, r)]\<rparr>)"
| write_fails: "(i, r) \<in> set (sv_writing c) \<Longrightarrow> sv_peer c i = Gone
   \<Longrightarrow> server_step fmt B c
     (c\<lparr>sv_writing := remove1 (i, r) (sv_writing c), sv_lost := sv_lost c @ [(i, r)]\<rparr>)"
| peer: "sv_peer c i \<noteq> Gone \<Longrightarrow> p \<noteq> sv_peer c i
   \<Longrightarrow> server_step fmt B c (c\<lparr>sv_peer := (sv_peer c)(i := p)\<rparr>)"

inductive server_reach :: "(bin_error \<Rightarrow> ustring) \<Rightarrow> 's fs_backend \<Rightarrow> 's \<Rightarrow> 's server \<Rightarrow> bool"
  for fmt B fs0 where
  start: "server_reach fmt B fs0 (server_init fs0)"
| step: "server_reach fmt B fs0 c \<Longrightarrow> server_step fmt B c c' \<Longrightarrow> server_reach fmt B fs0 c'"

inductive_cases server_stepE: "server_step fmt B c c'"

lemma server_reach_steps:
  assumes "(\<lambda>a b. server_step fmt B a b \<and> P a b)\<^sup>*\<^sup>* c d" and "server_reach fmt B fs0 c"
  shows "server_reach fmt B fs0 d"
  using assms by (induction rule: rtranclp_induct) (auto intro: server_reach.step)

subsection \<open>Every run is a sequential run\<close>

fun unsent :: "lock \<Rightarrow> (conn \<times> message) multiset" where
  "unsent (Replying i rs) = image_mset (Pair i) rs"
| "unsent _ = {#}"

lemma lock_free_handle:
  "lock_free m \<Longrightarrow> handle_msg fmt B m s = (r, s') \<Longrightarrow> s' = s \<and> r \<noteq> Hangs \<and> (\<forall>e. r \<noteq> Err e)"
  by (cases m) (auto split: option.splits)

lemma handle_msg_not_Err: "handle_msg fmt B m s \<noteq> (Err e, s')"
  by (cases m) (auto simp: reply_with_def reply_chunks_def
      split: option.splits prod.splits io_result.splits sum.splits)

text \<open>
  The state reached after handling \<open>ms\<close> in that order. \<open>settled\<close> says that no handler of the
  sequence hung, except possibly the last one.
\<close>

fun settled :: "(bin_error \<Rightarrow> ustring) \<Rightarrow> 's fs_backend \<Rightarrow> (conn \<times> message) list \<Rightarrow> 's \<Rightarrow> bool" where
  "settled fmt B [] s = True"
| "settled fmt B ((i, m) # ms) s = (case handle_msg fmt B m s of
      (Hangs, s') \<Rightarrow> False
    | (_, s') \<Rightarrow> settled fmt B ms s')"

lemma run_seq_append:
  "settled fmt B ms s \<Longrightarrow> run_seq fmt B (ms @ ms') s =
     (case run_seq fmt B ms s of (rs, s') \<Rightarrow>
        (case run_seq fmt B ms' s' of (rs', s'') \<Rightarrow> (rs @ rs', s'')))"
  by (induction ms arbitrary: s) (auto split: prod.splits io_result.splits)

lemma settled_append:
  "settled fmt B ms s \<Longrightarrow>
   settled fmt B (ms @ ms') s = settled fmt B ms' (snd (run_seq fmt B ms s))"
  by (induction ms arbitrary: s) (auto split: prod.splits io_result.splits)

definition serial :: "(bin_error \<Rightarrow> ustring) \<Rightarrow> 's fs_backend \<Rightarrow> 's \<Rightarrow> 's server
    \<Rightarrow> (conn \<times> message) list \<Rightarrow> bool" where
  "serial fmt B fs0 c ms \<longleftrightarrow>
     mset ms + sv_tasks c = mset (sv_received c)
   \<and> (sv_lock c \<noteq> Stuck \<longrightarrow> settled fmt B ms fs0)
   \<and> snd (run_seq fmt B ms fs0) = sv_fs c
   \<and> mset (fst (run_seq fmt B ms fs0)) = mset (sv_sent c) + unsent (sv_lock c)"

text \<open>
  Placing a handler that needs no mutex in front of the order changes nothing but the replies:
  it neither reads nor writes the backend.
\<close>

lemma run_seq_lock_free_Cons:
  assumes "lock_free m" and "handle_msg fmt B m s = (r, s')"
  shows "run_seq fmt B ((i, m) # ms) t =
    (case run_seq fmt B ms t of (rs, t') \<Rightarrow> ((case r of Ok rs0 \<Rightarrow> map (Pair i) rs0 | _ \<Rightarrow> []) @ rs, t'))"
    and "settled fmt B ((i, m) # ms) t = settled fmt B ms t"
proof -
  have "handle_msg fmt B m t = (r, t)"
    using assms by (cases m) (auto split: option.splits)
  moreover have "r \<noteq> Hangs \<and> (\<forall>e. r \<noteq> Err e)" using lock_free_handle [OF assms] by simp
  ultimately show "run_seq fmt B ((i, m) # ms) t =
    (case run_seq fmt B ms t of (rs, t') \<Rightarrow> ((case r of Ok rs0 \<Rightarrow> map (Pair i) rs0 | _ \<Rightarrow> []) @ rs, t'))"
    and "settled fmt B ((i, m) # ms) t = settled fmt B ms t"
    by (auto split: io_result.splits prod.splits)
qed

lemma task_moves:
  "m \<in># T \<Longrightarrow> mset ms + T = R \<Longrightarrow> add_mset m (mset ms) + (T - {#m#}) = R"
  by (auto dest!: multi_member_split)

lemma serial_snoc:
  assumes "serial fmt B fs0 c ms" and "(i, m) \<in># sv_tasks c" and "sv_lock c = Free"
    and "handle_msg fmt B m (sv_fs c) = (r, fs')"
  shows "mset (ms @ [(i, m)]) + (sv_tasks c - {#(i, m)#}) = mset (sv_received c)"
    and "settled fmt B (ms @ [(i, m)]) fs0 = (r \<noteq> Hangs)"
    and "snd (run_seq fmt B (ms @ [(i, m)]) fs0) = fs'"
    and "mset (fst (run_seq fmt B (ms @ [(i, m)]) fs0))
       = mset (sv_sent c) + mset (case r of Ok rs \<Rightarrow> map (Pair i) rs | _ \<Rightarrow> [])"
proof -
  have ser: "mset ms + sv_tasks c = mset (sv_received c)" "settled fmt B ms fs0"
    "snd (run_seq fmt B ms fs0) = sv_fs c"
    "mset (fst (run_seq fmt B ms fs0)) = mset (sv_sent c)"
    using assms(1,3) by (auto simp: serial_def)
  show "mset (ms @ [(i, m)]) + (sv_tasks c - {#(i, m)#}) = mset (sv_received c)"
    using task_moves [OF assms(2) ser(1)] by simp
  show "settled fmt B (ms @ [(i, m)]) fs0 = (r \<noteq> Hangs)"
    using settled_append [OF ser(2), of "[(i, m)]"] ser(3) assms(4) by (auto split: io_result.splits)
  show "snd (run_seq fmt B (ms @ [(i, m)]) fs0) = fs'"
    using run_seq_append [OF ser(2), of "[(i, m)]"] ser(3) assms(4)
    by (auto split: io_result.splits prod.splits)
  show "mset (fst (run_seq fmt B (ms @ [(i, m)]) fs0))
       = mset (sv_sent c) + mset (case r of Ok rs \<Rightarrow> map (Pair i) rs | _ \<Rightarrow> [])"
    using run_seq_append [OF ser(2), of "[(i, m)]"] ser(3,4) assms(4)
    by (auto split: io_result.splits prod.splits)
qed

lemma serial_cong:
  assumes "serial fmt B fs0 c ms" and "sv_received c' = sv_received c" and "sv_tasks c' = sv_tasks c"
    and "sv_fs c' = sv_fs c" and "sv_lock c' = sv_lock c" and "sv_sent c' = sv_sent c"
  shows "serial fmt B fs0 c' ms"
  using assms by (simp add: serial_def)

lemma serial_lock_free:
  assumes "serial fmt B fs0 c ms" and "(i, m) \<in># sv_tasks c" and "lock_free m"
    and "handle_msg fmt B m (sv_fs c) = (r, fs')"
    and "sv_received c' = sv_received c" and "sv_tasks c' = sv_tasks c - {#(i, m)#}"
    and "sv_fs c' = sv_fs c" and "sv_lock c' = sv_lock c"
    and "mset (sv_sent c') = mset (sv_sent c) + mset (case r of Ok rs0 \<Rightarrow> map (Pair i) rs0 | _ \<Rightarrow> [])"
  shows "serial fmt B fs0 c' ((i, m) # ms)"
proof -
  note pre = run_seq_lock_free_Cons [OF assms(3,4)]
  have moved: "mset ((i, m) # ms) + sv_tasks c' = mset (sv_received c')"
  proof -
    have "mset ms + sv_tasks c = mset (sv_received c)" using assms(1) by (simp add: serial_def)
    from task_moves [OF assms(2) this] show ?thesis by (simp only: assms(5,6) mset.simps)
  qed
  obtain rs t where run: "run_seq fmt B ms fs0 = (rs, t)" by fastforce
  with assms(1) have "t = sv_fs c" "mset rs = mset (sv_sent c) + unsent (sv_lock c)"
    "sv_lock c \<noteq> Stuck \<longrightarrow> settled fmt B ms fs0" by (simp_all add: serial_def)
  with moved assms(7-9) pre [where i = i and ms = ms and t = fs0] run show ?thesis
    by (simp add: serial_def ac_simps del: run_seq.simps settled.simps)
qed

lemma server_step_serial:
  assumes "server_step fmt B c c'" and "serial fmt B fs0 c ms"
  shows "\<exists>ms'. serial fmt B fs0 c' ms'"
  using assms(1)
proof (cases rule: server_step.cases)
  case (receive i m)
  with assms(2) have "serial fmt B fs0 c' ms" by (simp add: serial_def)
  then show ?thesis ..
next
  case (silent i m r fs')
  have "serial fmt B fs0 c' ((i, m) # ms)"
    by (rule serial_lock_free [OF assms(2) silent(2,3,4)]) (use silent(1,5) in auto)
  then show ?thesis ..
next
  case (without_lock i m r fs')
  have "serial fmt B fs0 c' ((i, m) # ms)"
    by (rule serial_lock_free [OF assms(2) without_lock(2,3,4)]) (use without_lock(1) in auto)
  then show ?thesis ..
next
  case (handle i m rs fs')
  have "serial fmt B fs0 c' (ms @ [(i, m)])"
    using serial_snoc [OF assms(2) handle(2,4,5)] handle(1) by (simp add: serial_def)
  then show ?thesis ..
next
  case (send i rs r)
  then have "serial fmt B fs0 c' ms"
    using assms(2) by (auto simp: serial_def dest!: multi_member_split)
  then show ?thesis ..
next
  case unlock
  then have "serial fmt B fs0 c' ms" using assms(2) by (simp add: serial_def)
  then show ?thesis ..
next
  case (panic i m fs')
  have "serial fmt B fs0 c' (ms @ [(i, m)])"
    using serial_snoc [OF assms(2) panic(2,4,5)] panic(1,4) by (simp add: serial_def)
  then show ?thesis ..
next
  case (hang i m fs')
  have "serial fmt B fs0 c' (ms @ [(i, m)])"
    using serial_snoc [OF assms(2) hang(2,4,5)] hang(1,4) by (simp add: serial_def)
  then show ?thesis ..
next
  case (take xs i r ys)
  have "serial fmt B fs0 c' ms" by (rule serial_cong [OF assms(2)]) (simp_all add: take(1))
  then show ?thesis ..
next
  case (write_out i r)
  have "serial fmt B fs0 c' ms" by (rule serial_cong [OF assms(2)]) (simp_all add: write_out(1))
  then show ?thesis ..
next
  case (write_fails i r)
  have "serial fmt B fs0 c' ms" by (rule serial_cong [OF assms(2)]) (simp_all add: write_fails(1))
  then show ?thesis ..
next
  case (peer i p)
  have "serial fmt B fs0 c' ms" by (rule serial_cong [OF assms(2)]) (simp_all add: peer(1))
  then show ?thesis ..
qed

lemma server_reach_serial: "server_reach fmt B fs0 c \<Longrightarrow> \<exists>ms. serial fmt B fs0 c ms"
proof (induction rule: server_reach.induct)
  case start
  have "serial fmt B fs0 (server_init fs0) []" by (simp add: serial_def server_init_def)
  then show ?case ..
next
  case (step c c')
  then show ?case by (blast dest: server_step_serial)
qed

text \<open>
  With one request outstanding the server is the one that \<open>server_xfer\<close> (theory \<open>Remote\<close>) puts at
  the client's other end: the state after \<open>handle_msg\<close>, and its replies in some order.
\<close>

lemma one_request_served:
  assumes "server_reach fmt B fs0 c" and "sv_tasks c = {#}" and "sv_lock c = Free"
    and "sv_received c = [(i, m)]" and "handle_msg fmt B m fs0 = (r, s')"
  shows "sv_fs c = s' \<and> r \<noteq> Hangs
    \<and> (\<exists>rs. mset rs = mset (case r of Ok rs \<Rightarrow> rs | _ \<Rightarrow> []) \<and> sv_sent c = map (Pair i) rs)"
proof -
  from server_reach_serial [OF assms(1)] obtain ms where ser: "serial fmt B fs0 c ms" ..
  with assms(2,4) have "mset ms = {#(i, m)#}" by (simp add: serial_def)
  then have ms: "ms = [(i, m)]" by simp
  let ?rs = "case r of Ok rs \<Rightarrow> rs | _ \<Rightarrow> []"
  have facts: "settled fmt B [(i, m)] fs0" "snd (run_seq fmt B [(i, m)] fs0) = sv_fs c"
    "mset (fst (run_seq fmt B [(i, m)] fs0)) = mset (sv_sent c)"
    using ser assms(3) by (simp_all add: serial_def ms)
  have "fst (run_seq fmt B [(i, m)] fs0) = map (Pair i) ?rs" "snd (run_seq fmt B [(i, m)] fs0) = s'"
    "r \<noteq> Hangs"
    using assms(5) facts(1) handle_msg_not_Err [of fmt B m fs0] by (cases r; simp)+
  with facts have sent: "mset (sv_sent c) = mset (map (Pair i) ?rs)" and "sv_fs c = s'" by simp_all
  have "fst x = i" if "x \<in> set (sv_sent c)" for x
    using that mset_eq_setD [OF sent] by auto
  then have "sv_sent c = map (Pair i) (map snd (sv_sent c))" by (induction "sv_sent c") (auto intro: map_idI [symmetric])
  moreover have "mset (map snd (sv_sent c)) = mset ?rs"
    using arg_cong [OF sent, of "image_mset snd"] by (simp add: multiset.map_comp comp_def)
  ultimately show ?thesis using \<open>sv_fs c = s'\<close> \<open>r \<noteq> Hangs\<close> by blast
qed

subsection \<open>The handshake keeps no session\<close>

fun is_init :: "conn \<times> message \<Rightarrow> bool" where
  "is_init (i, InitReq rid version) = True"
| "is_init _ = False"

fun is_init_res :: "conn \<times> message \<Rightarrow> bool" where
  "is_init_res (i, InitRes rid accepted) = True"
| "is_init_res _ = False"

fun version_check :: "conn \<times> message \<Rightarrow> conn \<times> message" where
  "version_check (i, InitReq rid version) = (i, InitRes rid (version = 0))"
| "version_check x = x"

lemma handle_msg_no_init_res:
  assumes "handle_msg fmt B m s = (Ok rs, s')" and "\<not> is_init (i, m)"
  shows "filter is_init_res (map (Pair i) rs) = []"
proof -
  have "\<not> is_init_res (i, r)" if "r \<in> set rs" for r
  proof (cases "is_request m")
    case True
    with assms that handle_msg_answer [OF True assms(1)] show ?thesis
      by (cases m; cases r) (auto simp: list_all_iff)
  next
    case False
    with assms(1) that handle_msg_response_ignored [of m fmt B s] show ?thesis by simp
  qed
  then show ?thesis by auto
qed

text \<open>
  Whatever requests \<open>INIT_REQ\<close>s stand between, they are answered by their version alone and the
  others are served as if they were not there.
\<close>

lemma run_seq_init:
  assumes "settled fmt B ms s"
  shows "snd (run_seq fmt B ms s) = snd (run_seq fmt B (filter (\<lambda>x. \<not> is_init x) ms) s)
    \<and> filter (\<lambda>x. \<not> is_init_res x) (fst (run_seq fmt B ms s))
      = fst (run_seq fmt B (filter (\<lambda>x. \<not> is_init x) ms) s)
    \<and> filter is_init_res (fst (run_seq fmt B ms s)) = map version_check (filter is_init ms)"
  using assms
proof (induction ms arbitrary: s)
  case (Cons x ms)
  obtain i m where x: "x = (i, m)" by fastforce
  obtain v s' where h: "handle_msg fmt B m s = (v, s')" by fastforce
  show ?case
  proof (cases "is_init x")
    case True
    then obtain rid version where "m = InitReq rid version" by (cases m) (auto simp: x)
    with Cons.IH [of s] Cons.prems x show ?thesis by (auto split: prod.splits)
  next
    case False
    show ?thesis
    proof (cases v)
      case (Ok rs)
      have none: "filter is_init_res (map (Pair i) rs) = []"
        using handle_msg_no_init_res [OF h [unfolded Ok]] False x by simp
      then have "filter (\<lambda>x. \<not> is_init_res x) (map (Pair i) rs) = map (Pair i) rs"
        by (auto simp: filter_empty_conv intro!: filter_True)
      with none Cons.IH [of s'] Cons.prems False h Ok x show ?thesis
        by (auto split: prod.splits simp del: filter_map)
    next
      case Panics
      with Cons.IH [of s'] Cons.prems False h x show ?thesis by simp
    qed (use Cons.prems h x handle_msg_not_Err [of fmt B m s] in auto)
  qed
qed simp

subsection \<open>Every reply answers a request that arrived\<close>

lemma run_seq_answers:
  "(i, r) \<in> set (fst (run_seq fmt B ms s)) \<Longrightarrow>
     \<exists>m. (i, m) \<in> set ms \<and> is_request m \<and> request_id r = request_id m \<and> reply_fits m r"
proof (induction ms arbitrary: s)
  case (Cons x ms)
  obtain j m where x: "x = (j, m)" by fastforce
  obtain v s' where h: "handle_msg fmt B m s = (v, s')" by fastforce
  show ?case
  proof (cases v)
    case (Ok rs)
    with Cons.prems h x consider "i = j" "r \<in> set rs" | "(i, r) \<in> set (fst (run_seq fmt B ms s'))"
      by (auto split: prod.splits)
    then show ?thesis
    proof cases
      case 1
      have "is_request m"
        using h Ok 1 handle_msg_response_ignored [of m fmt B s] by fastforce
      with 1 h Ok x handle_msg_answer [of m fmt B s rs s'] show ?thesis
        by (auto simp: list_all_iff)
    next
      case 2
      from Cons.IH [OF this] show ?thesis by auto
    qed
  next
    case (Err e)
    with h show ?thesis by (simp add: handle_msg_not_Err)
  next
    case Panics
    with Cons.prems h x Cons.IH [of s'] show ?thesis by auto
  next
    case Hangs
    with Cons.prems h x show ?thesis by simp
  qed
qed simp

lemma server_reply_answers:
  assumes "server_reach fmt B fs0 c" and "(i, r) \<in> set (sv_sent c)"
  shows "\<exists>m. (i, m) \<in> set (sv_received c) \<and> is_request m \<and> request_id r = request_id m \<and> reply_fits m r"
proof -
  from server_reach_serial [OF assms(1)] obtain ms where ser: "serial fmt B fs0 c ms" ..
  then have "(i, r) \<in># mset (fst (run_seq fmt B ms fs0))" using assms(2) by (simp add: serial_def)
  then have "(i, r) \<in> set (fst (run_seq fmt B ms fs0))" by simp
  from run_seq_answers [OF this] obtain m where m: "(i, m) \<in> set ms"
    "is_request m" "request_id r = request_id m" "reply_fits m r" by blast
  have "mset ms + sv_tasks c = mset (sv_received c)" using ser by (simp add: serial_def)
  then have "(i, m) \<in># mset (sv_received c)" using m(1) by (metis set_mset_mset union_iff)
  with m show ?thesis by auto
qed

subsection \<open>The channels are bounded queues\<close>

lemma on_simps [simp]:
  "on i [] = []"
  "on i (x # xs) = (if fst x = i then snd x # on i xs else on i xs)"
  "on i (xs @ ys) = on i xs @ on i ys"
  by (simp_all add: on_def)

lemma on_member: "(i, r) \<in> set xs \<longleftrightarrow> r \<in> set (on i xs)"
  by (force simp: on_def)

lemma on_remove1: "on i (remove1 (j, r) xs) = (if i = j then remove1 r (on i xs) else on i xs)"
  by (induction xs) auto

lemma on_only: "r \<in> set (on i xs) \<Longrightarrow> length (on i xs) \<le> 1 \<Longrightarrow> on i xs = [r]"
  by (cases "on i xs") auto

text \<open>
  What a connection's tasks have sent is what its writer has written, lost, holds and has still to
  take, in this order.
\<close>

definition channel_ok :: "'s server \<Rightarrow> conn \<Rightarrow> bool" where
  "channel_ok c i \<longleftrightarrow>
     on i (sv_sent c) = on i (sv_written c) @ on i (sv_lost c) @ on i (sv_writing c) @ on i (sv_queue c)
   \<and> length (on i (sv_queue c)) \<le> CHANNEL \<and> length (on i (sv_writing c)) \<le> 1
   \<and> (on i (sv_lost c) = [] \<or> sv_peer c i = Gone)"

lemma server_step_channel_ok:
  assumes "server_step fmt B c c'" and "channel_ok c i"
  shows "channel_ok c' i"
  using assms(1)
proof (cases rule: server_step.cases)
  case (take xs j r ys)
  then show ?thesis using assms(2) by (auto simp: channel_ok_def)
next
  case (write_out j r)
  then show ?thesis
    using assms(2) on_only [of r i "sv_writing c"] by (auto simp: channel_ok_def on_member on_remove1)
next
  case (write_fails j r)
  then show ?thesis
    using assms(2) on_only [of r i "sv_writing c"] by (auto simp: channel_ok_def on_member on_remove1)
qed (use assms(2) in \<open>auto simp: channel_ok_def has_room_def\<close>)

lemma server_reach_channel_ok: "server_reach fmt B fs0 c \<Longrightarrow> channel_ok c i"
proof (induction rule: server_reach.induct)
  case start
  show ?case by (simp add: channel_ok_def server_init_def)
next
  case (step c c')
  then show ?case by (blast intro: server_step_channel_ok)
qed

subsection \<open>Progress and termination\<close>

text \<open>The steps the server takes on its own: no message arrives and no peer changes.\<close>

definition server_internal :: "(bin_error \<Rightarrow> ustring) \<Rightarrow> 's fs_backend \<Rightarrow> 's server \<Rightarrow> 's server \<Rightarrow> bool" where
  "server_internal fmt B c c' \<longleftrightarrow>
     server_step fmt B c c' \<and> sv_received c' = sv_received c \<and> sv_peer c' = sv_peer c"

text \<open>All handler tasks have run; and all their replies have left.\<close>

definition quiescent :: "'s server \<Rightarrow> bool" where
  "quiescent c \<longleftrightarrow> sv_tasks c = {#} \<and> sv_lock c = Free"

definition finished :: "'s server \<Rightarrow> bool" where
  "finished c \<longleftrightarrow> quiescent c \<and> sv_queue c = [] \<and> sv_writing c = []"

fun lock_weight :: "lock \<Rightarrow> nat" where
  "lock_weight (Replying i rs) = Suc (size rs)"
| "lock_weight _ = 0"

lemma length_remove1_less: "x \<in> set xs \<Longrightarrow> length (remove1 x xs) < length xs"
  by (induction xs) auto

lemma server_internal_decreases:
  assumes "server_internal fmt B c c'"
  shows "(c', c) \<in> measures [\<lambda>c. size (sv_tasks c), \<lambda>c. lock_weight (sv_lock c),
    \<lambda>c. length (sv_queue c), \<lambda>c. length (sv_writing c)]"
  using assms unfolding server_internal_def
  by (auto elim!: server_stepE simp: size_Diff1_less size_Suc_Diff1 length_remove1_less fun_upd_idem_iff)

lemma server_internal_wf: "wfP (\<lambda>c' c. server_internal fmt B c c')"
  unfolding wfp_def
  by (rule wf_subset [OF wf_measures]) (auto dest: server_internal_decreases)

lemma server_internal_reach:
  "(server_internal fmt B)\<^sup>*\<^sup>* c d \<Longrightarrow> server_reach fmt B fs0 c \<Longrightarrow> server_reach fmt B fs0 d"
  by (induction rule: rtranclp_induct) (auto simp: server_internal_def intro: server_reach.step)

lemma server_internal_peer: "(server_internal fmt B)\<^sup>*\<^sup>* c d \<Longrightarrow> sv_peer d = sv_peer c"
  by (induction rule: rtranclp_induct) (auto simp: server_internal_def)

text \<open>A writer task can go on unless its peer stalls.\<close>

lemma writer_progress:
  assumes "(i, r) \<in> set (sv_writing c)" and "sv_peer c i \<noteq> Stalled"
  shows "\<exists>c'. server_internal fmt B c c'"
  using assms server_step.write_out [OF assms(1)] server_step.write_fails [OF assms(1)]
  by (cases "sv_peer c i") (fastforce simp: server_internal_def)+

lemma queue_progress:
  assumes "sv_queue c \<noteq> []" and "sv_writing c = []"
  shows "\<exists>c'. server_internal fmt B c c'"
proof -
  from assms(1) obtain i r ys where "sv_queue c = [] @ (i, r) # ys" by (cases "sv_queue c") auto
  from server_step.take [OF this] assms(2) show ?thesis by (fastforce simp: server_internal_def)
qed

text \<open>A handler task can go on while its connection's channel has room and the mutex is not stuck.\<close>

lemma lock_free_replies:
  "lock_free m \<Longrightarrow> handle_msg fmt B m s = (v, s') \<Longrightarrow> v = Panics \<or> v = Ok [] \<or> (\<exists>r. v = Ok [r])"
  by (cases m) (auto split: option.splits)

lemma task_progress:
  assumes "(i, m) \<in># sv_tasks c" and "has_room i c" and "sv_lock c = Free"
  shows "\<exists>c'. server_internal fmt B c c'"
proof -
  obtain v fs' where h: "handle_msg fmt B m (sv_fs c) = (v, fs')" by fastforce
  show ?thesis
  proof (cases "lock_free m")
    case True
    from lock_free_replies [OF this h] show ?thesis
    proof (elim disjE exE)
      fix r assume "v = Ok [r]"
      with server_step.without_lock [OF assms(1) True _ assms(2)] h show ?thesis
        by (fastforce simp: server_internal_def)
    qed (use server_step.silent [OF assms(1) True h] in \<open>auto simp: server_internal_def\<close>)
  next
    case False
    note steps = server_step.handle [OF assms(1) False assms(3)]
      server_step.panic [OF assms(1) False assms(3)] server_step.hang [OF assms(1) False assms(3)]
    show ?thesis
      using h steps handle_msg_not_Err [of fmt B m "sv_fs c"]
      by (cases v) (fastforce simp: server_internal_def simp del: handle_msg.simps)+
  qed
qed

lemma reply_progress:
  assumes "sv_lock c = Replying i rs" and "has_room i c"
  shows "\<exists>c'. server_internal fmt B c c'"
proof (cases "rs = {#}")
  case True
  with server_step.unlock assms(1) show ?thesis by (fastforce simp: server_internal_def)
next
  case False
  then obtain r where "r \<in># rs" by (meson multiset_nonemptyE)
  from server_step.send [OF assms(1) this assms(2)] show ?thesis
    by (fastforce simp: server_internal_def)
qed

lemma server_progress:
  assumes "\<not> finished c" and "sv_lock c \<noteq> Stuck"
    and "\<not> (\<exists>i r. (i, r) \<in> set (sv_writing c) \<and> sv_peer c i = Stalled)"
  shows "\<exists>c'. server_internal fmt B c c'"
proof (cases "sv_writing c = [] \<and> sv_queue c = []")
  case False
  then consider i r where "(i, r) \<in> set (sv_writing c)" | "sv_queue c \<noteq> []" "sv_writing c = []"
    by (metis list.set_intros(1) neq_Nil_conv surj_pair)
  then show ?thesis
  proof cases
    case 1
    with assms(3) show ?thesis by (blast intro: writer_progress)
  next
    case 2
    then show ?thesis by (rule queue_progress)
  qed
next
  case True
  then have room: "has_room i c" for i by (simp add: has_room_def CHANNEL_def)
  show ?thesis
  proof (cases "sv_lock c")
    case Free
    with assms(1) True obtain i m where "(i, m) \<in># sv_tasks c"
      by (auto simp: finished_def quiescent_def dest: multiset_nonemptyE)
    from task_progress [OF this room Free] show ?thesis .
  next
    case (Replying i rs)
    from reply_progress [OF this room] show ?thesis .
  qed (use assms(2) in simp)
qed

text \<open>So every run of internal steps can be driven to an end, and the end is one of three.\<close>

lemma server_settles:
  "\<exists>d. (server_internal fmt B)\<^sup>*\<^sup>* c d \<and> (\<nexists>e. server_internal fmt B d e)"
proof (induction c rule: wfp_induct_rule [OF server_internal_wf [of fmt B]])
  case (1 c)
  show ?case
  proof (cases "\<exists>e. server_internal fmt B c e")
    case True
    then obtain e where e: "server_internal fmt B c e" ..
    from 1 [OF this] obtain d where "(server_internal fmt B)\<^sup>*\<^sup>* e d" "\<nexists>e. server_internal fmt B d e"
      by blast
    with e show ?thesis by (meson converse_rtranclp_into_rtranclp)
  qed blast
qed

lemma server_end:
  assumes "server_reach fmt B fs0 c" and "(server_internal fmt B)\<^sup>*\<^sup>* c d"
    and "\<nexists>e. server_internal fmt B d e"
  shows "(finished d \<and> (\<forall>i. on i (sv_sent d) = on i (sv_written d) @ on i (sv_lost d)
       \<and> (on i (sv_lost d) = [] \<or> sv_peer c i = Gone)))
    \<or> sv_lock d = Stuck \<or> (\<exists>i r. (i, r) \<in> set (sv_writing d) \<and> sv_peer c i = Stalled)"
proof (cases "finished d")
  case True
  have "channel_ok d i" for i
    using server_internal_reach [OF assms(2,1)] by (rule server_reach_channel_ok)
  with True server_internal_peer [OF assms(2)] show ?thesis
    by (simp add: channel_ok_def finished_def)
next
  case False
  with server_progress assms(3) have "sv_lock d = Stuck
      \<or> (\<exists>i r. (i, r) \<in> set (sv_writing d) \<and> sv_peer d i = Stalled)" by blast
  with server_internal_peer [OF assms(2)] show ?thesis by simp
qed

subsection \<open>A client that stops reading\<close>

text \<open>
  The mutex is held by a task of connection \<open>i\<close> whose replies do not fit the channel, the writer
  task holds a message, and the peer does not read. Nothing but that peer can end this.
\<close>

definition blocked :: "'s server \<Rightarrow> conn \<Rightarrow> bool" where
  "blocked c i \<longleftrightarrow> (\<exists>rs. sv_lock c = Replying i rs \<and> rs \<noteq> {#}) \<and> \<not> has_room i c
     \<and> on i (sv_writing c) \<noteq> [] \<and> sv_peer c i = Stalled"

text \<open>The requests of all connections that a handler needs the mutex for.\<close>

definition needs_lock :: "(conn \<times> message) multiset \<Rightarrow> (conn \<times> message) multiset" where
  "needs_lock M = filter_mset (\<lambda>x. \<not> lock_free (snd x)) M"

definition stalled_step :: "(bin_error \<Rightarrow> ustring) \<Rightarrow> 's fs_backend \<Rightarrow> conn \<Rightarrow> 's server \<Rightarrow> 's server \<Rightarrow> bool" where
  "stalled_step fmt B i c c' \<longleftrightarrow> server_step fmt B c c' \<and> sv_peer c' i = Stalled"

lemma blocked_step:
  assumes "stalled_step fmt B i c c'" and "blocked c i"
    and "needs_lock (mset (sv_received c)) = H + needs_lock (sv_tasks c)"
  shows "blocked c' i \<and> sv_fs c' = sv_fs c \<and> sv_lock c' = sv_lock c
    \<and> needs_lock (mset (sv_received c')) = H + needs_lock (sv_tasks c')"
  using assms unfolding stalled_step_def
  by (elim conjE server_stepE)
     (auto simp: blocked_def has_room_def needs_lock_def on_remove1 filter_diff_mset split: if_splits)

lemma blocked_stays:
  assumes "(stalled_step fmt B i)\<^sup>*\<^sup>* c c'" and "blocked c i"
    and "needs_lock (mset (sv_received c)) = H + needs_lock (sv_tasks c)"
  shows "blocked c' i \<and> sv_fs c' = sv_fs c \<and> sv_lock c' = sv_lock c
    \<and> needs_lock (mset (sv_received c')) = H + needs_lock (sv_tasks c')"
  using assms
proof (induction rule: rtranclp_induct)
  case (step d e)
  then have "blocked d i" "needs_lock (mset (sv_received d)) = H + needs_lock (sv_tasks d)"
    "sv_fs d = sv_fs c" "sv_lock d = sv_lock c" by simp_all
  with blocked_step [OF step(2)] show ?case by simp
qed simp

text \<open>Requests that are answered without the mutex are enough to fill the channel.\<close>

lemma init_served:
  assumes "server_reach fmt B fs0 c" and "sv_tasks c = {#}" and "has_room i c"
  shows "server_reach fmt B fs0 (c\<lparr>sv_received := sv_received c @ [(i, InitReq rid v)], sv_tasks := {#},
     sv_sent := sv_sent c @ [(i, InitRes rid (v = 0))], sv_queue := sv_queue c @ [(i, InitRes rid (v = 0))]\<rparr>)"
proof -
  let ?d = "c\<lparr>sv_received := sv_received c @ [(i, InitReq rid v)], sv_tasks := {#(i, InitReq rid v)#}\<rparr>"
  have "server_reach fmt B fs0 ?d"
    using server_reach.step [OF assms(1) server_step.receive [of _ _ _ i "InitReq rid v"]] assms(2) by simp
  moreover have "has_room i ?d" using assms(3) by (simp add: has_room_def)
  ultimately have "server_reach fmt B fs0 (?d\<lparr>sv_tasks := sv_tasks ?d - {#(i, InitReq rid v)#},
      sv_sent := sv_sent ?d @ [(i, InitRes rid (v = 0))], sv_queue := sv_queue ?d @ [(i, InitRes rid (v = 0))]\<rparr>)"
    by (intro server_reach.step [OF _ server_step.without_lock [where m = "InitReq rid v"]]) simp_all
  then show ?thesis by simp
qed

lemma flooded:
  assumes "n \<le> CHANNEL"
  shows "\<exists>c. server_reach fmt B fs0 c \<and> sv_received c = replicate (Suc n) (i, InitReq 0 0)
    \<and> sv_tasks c = {#} \<and> sv_fs c = fs0 \<and> sv_lock c = Free
    \<and> sv_queue c = replicate n (i, InitRes 0 True) \<and> sv_writing c = [(i, InitRes 0 True)]
    \<and> sv_peer c i = Stalled"
  using assms
proof (induction n)
  case 0
  let ?s = "(server_init fs0)\<lparr>sv_peer := (\<lambda>_. Taking)(i := Stalled)\<rparr>"
  let ?r = "(i, InitRes 0 True)"
  let ?q = "?s\<lparr>sv_received := [(i, InitReq 0 0)], sv_sent := [?r], sv_queue := [?r]\<rparr>"
  have "server_reach fmt B fs0 ?s"
    using server_reach.step [OF server_reach.start server_step.peer [of "server_init fs0" i Stalled]]
    by (simp add: server_init_def)
  then have "server_reach fmt B fs0 ?q"
    using init_served [of fmt B fs0 ?s i 0 0] by (simp add: server_init_def has_room_def CHANNEL_def)
  from server_reach.step [OF this server_step.take [of _ "[]" i "InitRes 0 True" "[]"]]
  have "server_reach fmt B fs0 (?q\<lparr>sv_queue := [], sv_writing := [?r]\<rparr>)"
    by (simp add: server_init_def)
  then show ?case
    by (intro exI [where x = "?q\<lparr>sv_queue := [], sv_writing := [?r]\<rparr>"] conjI) (simp_all add: server_init_def)
next
  case (Suc n)
  then obtain c where c: "server_reach fmt B fs0 c" "sv_received c = replicate (Suc n) (i, InitReq 0 0)"
    "sv_tasks c = {#}" "sv_fs c = fs0" "sv_lock c = Free" "sv_queue c = replicate n (i, InitRes 0 True)"
    "sv_writing c = [(i, InitRes 0 True)]" "sv_peer c i = Stalled" by auto
  have "on i (replicate n (i, InitRes 0 True)) = replicate n (InitRes 0 True)" by (induction n) simp_all
  with c Suc.prems have "has_room i c" by (simp add: has_room_def)
  let ?d = "c\<lparr>sv_received := sv_received c @ [(i, InitReq 0 0)], sv_tasks := {#},
     sv_sent := sv_sent c @ [(i, InitRes 0 True)], sv_queue := sv_queue c @ [(i, InitRes 0 True)]\<rparr>"
  have "server_reach fmt B fs0 ?d"
    using init_served [OF c(1,3) \<open>has_room i c\<close>, of 0 0] by simp
  moreover have "sv_received ?d = replicate (Suc (Suc n)) (i, InitReq 0 0)"
    "sv_queue ?d = replicate (Suc n) (i, InitRes 0 True)"
    using c(2,6) by (simp_all add: replicate_append_same)
  moreover have "sv_tasks ?d = {#}" "sv_fs ?d = fs0" "sv_lock ?d = Free"
    "sv_writing ?d = [(i, InitRes 0 True)]" "sv_peer ?d i = Stalled"
    using c by simp_all
  ultimately show ?case by blast
qed

lemma client_blocks_server:
  assumes "\<not> lock_free m" and "handle_msg fmt B m fs0 = (Ok rs, fs')" and "rs \<noteq> []"
  shows "\<exists>c. server_reach fmt B fs0 c \<and> fst ` set (sv_received c) = {i} \<and> sv_fs c = fs' \<and> blocked c i
    \<and> needs_lock (sv_tasks c) = {#} \<and> needs_lock (mset (sv_received c)) = {#(i, m)#}"
proof -
  obtain c where c: "server_reach fmt B fs0 c" "sv_received c = replicate (Suc CHANNEL) (i, InitReq 0 0)"
    "sv_tasks c = {#}" "sv_fs c = fs0" "sv_lock c = Free"
    "sv_queue c = replicate CHANNEL (i, InitRes 0 True)"
    "sv_writing c = [(i, InitRes 0 True)]" "sv_peer c i = Stalled"
    using flooded [of CHANNEL fmt B fs0 i] by (auto simp del: replicate_Suc)
  let ?d = "c\<lparr>sv_received := sv_received c @ [(i, m)], sv_tasks := {#(i, m)#}\<rparr>"
  let ?e = "?d\<lparr>sv_tasks := {#}, sv_fs := fs', sv_lock := Replying i (mset rs)\<rparr>"
  have d: "server_reach fmt B fs0 ?d"
    using server_reach.step [OF c(1) server_step.receive [of _ _ _ i m]] c(3) by simp
  have "server_step fmt B ?d ?e"
    using server_step.handle [of i m ?d fmt B rs fs'] assms(1,2) c(4,5) by simp
  with d have e: "server_reach fmt B fs0 ?e" by (rule server_reach.step)
  have full: "on i (replicate k (i, InitRes 0 True)) = replicate k (InitRes 0 True)" for k
    by (induction k) simp_all
  have inits: "needs_lock (mset (replicate k (i, InitReq 0 0))) = {#}" for k
    by (induction k) (simp_all add: needs_lock_def)
  have "needs_lock (mset (replicate (Suc CHANNEL) (i, InitReq 0 0) @ [(i, m)])) = {#(i, m)#}"
    using inits [of "Suc CHANNEL"] assms(1) by (simp add: needs_lock_def del: replicate_Suc mset_replicate)
  then have "needs_lock (mset (sv_received ?e)) = {#(i, m)#}" by (simp add: c(2) del: replicate_Suc)
  moreover have "blocked ?e i"
    using assms(3) by (simp add: blocked_def has_room_def c(6-8) full)
  moreover have "fst ` set (sv_received ?e) = {i}" by (auto simp: c(2))
  moreover have "sv_fs ?e = fs'" "needs_lock (sv_tasks ?e) = {#}" by (simp_all add: needs_lock_def)
  ultimately show ?thesis using e by blast
qed

end
