(* ===== verification/Remote.thy ===== *)
theory Remote
  imports Client Server
begin

text \<open>
  Client and server joined by a byte stream: the server decodes what the client wrote, handles
  it on its backend, and its encoded replies come back in any order of messages and cut into
  any pieces (the parameters \<open>arrange\<close> and \<open>pieces\<close>). The theorems say that the client's backend
  operations then do what the server's backend does, up to what the wire cannot carry. The client
  waits for the reply to each request before it sends the next, so the server has one request at
  a time (\<open>one_request_served\<close> of theory \<open>Server\<close>), and it reads while it waits, so the channel drains.
\<close>

subsection \<open>The server end of the connection\<close>

record 's peer =
  pr_fs :: 's
  pr_buffer :: bytes      \<comment> \<open>input not yet decoded\<close>
  pr_open :: bool         \<comment> \<open>the reader loop is still running\<close>
  pr_stuck :: bool        \<comment> \<open>a handler never returned the mutex\<close>

definition server_xfer :: "(bin_error \<Rightarrow> ustring) \<Rightarrow> 's fs_backend \<Rightarrow> (message list \<Rightarrow> message list)
    \<Rightarrow> (bytes \<Rightarrow> bytes list) \<Rightarrow> 's peer xfer" where
  "server_xfer fmt B arrange pieces bs p =
     (if pr_stuck p then (Inr ([], False), p)
      else if pr_open p then
        (case decode_all (pr_buffer p @ bs) of (ms, err, rest) \<Rightarrow>
         (case run_seq fmt B (map (Pair 0) ms) (pr_fs p) of (rs, s') \<Rightarrow>
           (Inr (pieces (concat (map write_message (arrange (map snd rs)))), err \<noteq> None),
            \<lparr>pr_fs = s', pr_buffer = rest, pr_open = (err = None),
             pr_stuck = (\<not> settled fmt B (map (Pair 0) ms) (pr_fs p))\<rparr>)))
      else (Inr ([], True), p))"

definition remote_fs :: "'s peer client \<Rightarrow> 's" where
  "remote_fs c = pr_fs (cl_transport c)"

text \<open>Nothing half-read on either side, and both reader loops running.\<close>

definition healthy :: "'s peer client \<Rightarrow> bool" where
  "healthy c \<longleftrightarrow> cl_buffer c = [] \<and> cl_receiving c
     \<and> pr_buffer (cl_transport c) = [] \<and> pr_open (cl_transport c) \<and> \<not> pr_stuck (cl_transport c)"

definition peer_fresh :: "'s \<Rightarrow> 's peer" where
  "peer_fresh s = \<lparr>pr_fs = s, pr_buffer = [], pr_open = True, pr_stuck = False\<rparr>"

lemma healthy_fresh [simp]: "healthy (client_fresh (peer_fresh s))"
  by (simp add: healthy_def client_fresh_def peer_fresh_def)

lemma remote_fs_fresh [simp]: "remote_fs (client_fresh (peer_fresh s)) = s"
  by (simp add: remote_fs_def client_fresh_def peer_fresh_def)

subsection \<open>Faithful delivery\<close>

locale delivery =
  fixes arrange :: "message list \<Rightarrow> message list" and pieces :: "bytes \<Rightarrow> bytes list"
  assumes arrange_mset: "mset (arrange rs) = mset rs"
    and pieces_concat: "concat (pieces bs) = bs"
begin

lemma arrange_wf: "list_all wf_message rs \<Longrightarrow> list_all wf_message (arrange rs)"
  using mset_eq_setD [OF arrange_mset [of rs]] by (simp add: list_all_iff)

lemma arrange_single [simp]: "arrange [r] = [r]"
  using arrange_mset [of "[r]"] by simp

lemma arrange_empty [simp]: "arrange [] = []"
  using arrange_mset [of "[]"] by simp

lemma server_xfer_one:
  assumes "wf_message m" and "pr_buffer p = []" and "pr_open p" and "\<not> pr_stuck p"
    and "handle_msg fmt B m (pr_fs p) = (r, s')"
  shows "server_xfer fmt B arrange pieces (write_message m) p =
    (Inr (pieces (concat (map write_message (arrange (case r of Ok rs \<Rightarrow> rs | _ \<Rightarrow> [])))), False),
     \<lparr>pr_fs = s', pr_buffer = [], pr_open = True, pr_stuck = (r = Hangs)\<rparr>)"
proof -
  have "decode_all (write_message m) = ([m], None, [])"
    using decode_all_messages [of "[m]"] assms(1) by simp
  with assms show ?thesis
    by (auto simp: server_xfer_def comp_def split: io_result.splits)
qed

text \<open>One call against such a server: the waiting loop is run on the handler's replies.\<close>

lemma call_served:
  assumes "wf_backend B" and "healthy c" and "is_request m"
    and "wf_message (set_request_id (cl_next_id c) m)"
    and "is_request (set_request_id (cl_next_id c) m)"
    and h: "handle_msg fmt B (set_request_id (cl_next_id c) m) (remote_fs c) = (r, s')"
  shows "\<exists>c'. call (server_xfer fmt B arrange pieces) m w c = (w (arrange (case r of Ok rs \<Rightarrow> rs | _ \<Rightarrow> [])) True, c')
    \<and> call_other (server_xfer fmt B arrange pieces) m w c = (w (arrange (case r of Ok rs \<Rightarrow> rs | _ \<Rightarrow> [])) True, c')
    \<and> remote_fs c' = s' \<and> (r \<noteq> Hangs \<longrightarrow> healthy c') \<and> cl_next_id c' = cl_next_id c + 1
    \<and> dom (cl_listeners c') = insert (cl_next_id c) (dom (cl_listeners c))"
proof -
  let ?i = "cl_next_id c" and ?m = "set_request_id (cl_next_id c) m"
  let ?rs = "case r of Ok rs \<Rightarrow> rs | _ \<Rightarrow> []"
  let ?t = "\<lparr>pr_fs = s', pr_buffer = [], pr_open = True, pr_stuck = (r = Hangs)\<rparr>"
  let ?ls = "(cl_listeners c)(?i \<mapsto> Live [])"
  have xf: "server_xfer fmt B arrange pieces (write_message ?m) (cl_transport c)
      = (Inr (pieces (concat (map write_message (arrange ?rs))), False), ?t)"
    using assms(2,4) h by (intro server_xfer_one) (auto simp: healthy_def remote_fs_def)
  have wf: "list_all wf_message (arrange ?rs)"
    using handle_msg_wf [OF assms(1)] h by (intro arrange_wf) (auto split: io_result.splits)
  have ids: "filter (\<lambda>x. request_id x = ?i) (arrange ?rs) = arrange ?rs"
    using h mset_eq_setD [OF arrange_mset [of ?rs]]
    by (intro filter_True)
       (auto simp: list_all_iff split: io_result.splits dest!: handle_msg_answer [OF assms(5)])
  have loop: "receive_loop (map Inr (arrange ?rs)) ?ls = ?ls(?i \<mapsto> Live (arrange ?rs))"
  proof
    fix j
    have items: "item_messages (map Inr (arrange ?rs)) = arrange ?rs"
      using item_messages_stream [of "arrange ?rs" None "[]"] by simp
    show "receive_loop (map Inr (arrange ?rs)) ?ls j = (?ls(?i \<mapsto> Live (arrange ?rs))) j"
    proof (cases "j = ?i")
      case True
      then show ?thesis
        using receive_loop_live [of ?ls ?i "[]" "map Inr (arrange ?rs)"] ids items by simp
    next
      case False
      moreover have "j \<notin> request_id ` set (item_messages (map Inr (arrange ?rs)))"
        using ids items False by (auto simp: filter_id_conv)
      ultimately show ?thesis
        using receive_loop_other [of j "map Inr (arrange ?rs)" ?ls] by simp
    qed
  qed
  let ?c1 = "c\<lparr>cl_listeners := ?ls(?i \<mapsto> Live (arrange ?rs)), cl_next_id := ?i + 1,
      cl_transport := ?t\<rparr>"
  have stream: "decode_stream [] (pieces (concat (map write_message (arrange ?rs)))) = (arrange ?rs, None, [])"
    using wf pieces_concat by (intro decode_stream_messages) auto
  have pump: "pump (pieces (concat (map write_message (arrange ?rs)))) False
      (c\<lparr>cl_listeners := ?ls, cl_next_id := ?i + 1, cl_transport := ?t\<rparr>) = ?c1"
    using assms(2) stream loop by (simp add: pump_def healthy_def)
  have send: "send_msg (server_xfer fmt B arrange pieces) m c = (Ok ?i, ?c1)"
    using pump by (simp add: send_msg_def Let_def xf register_listener_def)
  have await: "await_on w ?i ?c1 = (w (arrange ?rs) True, drop_receiver ?i ?c1)"
    by (simp add: await_on_def)
  show ?thesis
  proof (intro exI conjI)
    show "call (server_xfer fmt B arrange pieces) m w c = (w (arrange ?rs) True, drop_receiver ?i ?c1)"
      using send await by (simp add: call_def)
    show "call_other (server_xfer fmt B arrange pieces) m w c = (w (arrange ?rs) True, drop_receiver ?i ?c1)"
      using send await by (simp add: call_other_def map_err_other_def io_bind_def)
    show "r \<noteq> Hangs \<longrightarrow> healthy (drop_receiver ?i ?c1)"
      using assms(2) by (simp add: healthy_def)
  qed (simp_all add: remote_fs_def insert_absorb)
qed

end

interpretation whole: delivery id "\<lambda>bs. [bs]"
  by unfold_locales simp_all

interpretation bytewise: delivery rev "map (\<lambda>b. [b])"
proof unfold_locales
  show "concat (map (\<lambda>b. [b]) bs) = bs" for bs :: bytes by (induction bs) simp_all
qed simp

subsection \<open>The remote backend implements the local one\<close>

text \<open>
  \<open>simulates f local remote\<close>: from a healthy connection the remote operation gives the local
  result, values through \<open>f\<close> and errors through the error codes, and leaves the server's
  backend as the local operation does. A local operation that panics or hangs leaves the
  caller waiting; only a hang ends the connection's use.
\<close>

definition simulates :: "('a \<Rightarrow> 'b) \<Rightarrow> ('s, 'a) io \<Rightarrow> ('s peer client, 'b) io \<Rightarrow> bool" where
  "simulates f local remote \<longleftrightarrow> (\<forall>c. healthy c \<longrightarrow>
     (case local (remote_fs c) of (r, s') \<Rightarrow>
        \<exists>c'. remote c = (wire_result f r, c') \<and> remote_fs c' = s' \<and> (r \<noteq> Hangs \<longrightarrow> healthy c')
           \<and> cl_next_id c' = cl_next_id c + 1
           \<and> dom (cl_listeners c') = insert (cl_next_id c) (dom (cl_listeners c))))"

text \<open>
  The shape shared by the operations: the handler runs \<open>local\<close> on the backend and answers by
  \<open>ans\<close>, and the waiting loop turns the answer, in any order, into the result.
\<close>

definition answers_with :: "u32 \<Rightarrow> 'a io_result \<times> 's \<Rightarrow> ('a \<Rightarrow> message list) \<Rightarrow> message list io_result \<times> 's" where
  "answers_with rid rs ans = (case rs of
      (Ok x, s) \<Rightarrow> (Ok (ans x), s)
    | (Err e, s) \<Rightarrow> (Ok [message_from_error rid e], s)
    | (Panics, s) \<Rightarrow> (Panics, s)
    | (Hangs, s) \<Rightarrow> (Hangs, s))"

lemma reply_with_answers: "reply_with rid f r = answers_with rid r (\<lambda>x. [f x])"
  by (simp add: reply_with_def answers_with_def)

lemma reply_chunks_answers: "reply_chunks rid r = answers_with rid r (assemble_read_res_chunks rid)"
  by (simp add: reply_chunks_def answers_with_def)

text \<open>A waiting loop that reports the error a message carries, and waits on an empty queue.\<close>

definition waits :: "(message list \<Rightarrow> bool \<Rightarrow> 'a io_result) \<Rightarrow> bool" where
  "waits w \<longleftrightarrow> w [] True = Hangs \<and> (\<forall>rid e. w [message_from_error rid e] True = Err (wire_error e))"

lemma waits_success: "waits await_success"
  by (simp add: waits_def recv_end_def message_from_error_def wire_error_def)

lemma waits_combine: "waits combine_read_chunks"
  by (simp add: waits_def combine_read_chunks_def recv_end_def message_from_error_def wire_error_def)

lemma waits_reply_loop: "waits (reply_loop f)"
  by (simp add: waits_def reply_loop.simps next_message_def recv_end_def error_over_wire)

context delivery
begin

lemma call_simulates:
  assumes B: "wf_backend B" and "is_request m"
    and "\<And>i. is_request (set_request_id i m)" and "\<And>i. wf_message (set_request_id i m)"
    and h: "\<And>i s. handle_msg fmt B (set_request_id i m) s = answers_with i (local s) (ans i)"
    and w: "waits w" and "\<And>i s x s'. local s = (Ok x, s') \<Longrightarrow> w (arrange (ans i x)) True = Ok (f x)"
  shows "simulates f local (call (server_xfer fmt B arrange pieces) m w)"
    and "simulates f local (call_other (server_xfer fmt B arrange pieces) m w)"
proof -
  have "\<exists>c'. call (server_xfer fmt B arrange pieces) m w c = (wire_result f r, c')
      \<and> call_other (server_xfer fmt B arrange pieces) m w c = (wire_result f r, c')
      \<and> remote_fs c' = s' \<and> (r \<noteq> Hangs \<longrightarrow> healthy c') \<and> cl_next_id c' = cl_next_id c + 1
      \<and> dom (cl_listeners c') = insert (cl_next_id c) (dom (cl_listeners c))"
    if c: "healthy c" and l: "local (remote_fs c) = (r, s')" for c r s'
  proof -
    let ?r = "fst (answers_with (cl_next_id c) (r, s') (ans (cl_next_id c)))"
    have "handle_msg fmt B (set_request_id (cl_next_id c) m) (remote_fs c) = (?r, s')"
      using h [of "cl_next_id c" "remote_fs c"] l
      by (simp add: answers_with_def split: io_result.splits)
    from call_served [OF B c assms(2) assms(4) assms(3) this, of w]
    have "\<exists>c'. call (server_xfer fmt B arrange pieces) m w c
          = (w (arrange (case ?r of Ok rs \<Rightarrow> rs | _ \<Rightarrow> [])) True, c')
      \<and> call_other (server_xfer fmt B arrange pieces) m w c
          = (w (arrange (case ?r of Ok rs \<Rightarrow> rs | _ \<Rightarrow> [])) True, c')
      \<and> remote_fs c' = s' \<and> (?r \<noteq> Hangs \<longrightarrow> healthy c') \<and> cl_next_id c' = cl_next_id c + 1
      \<and> dom (cl_listeners c') = insert (cl_next_id c) (dom (cl_listeners c))" .
    moreover have "w (arrange (case ?r of Ok rs \<Rightarrow> rs | _ \<Rightarrow> [])) True = wire_result f r"
      using w assms(7) l by (cases r) (auto simp: answers_with_def waits_def)
    moreover have "?r = Hangs \<longleftrightarrow> r = Hangs"
      by (cases r) (auto simp: answers_with_def)
    ultimately show ?thesis by simp
  qed
  then show "simulates f local (call (server_xfer fmt B arrange pieces) m w)"
    and "simulates f local (call_other (server_xfer fmt B arrange pieces) m w)"
    unfolding simulates_def by (blast | fastforce)+
qed

lemma simulates_lookup:
  assumes "wf_backend B" and "length name < 256"
  shows "simulates id (be_lookup B d name) (client_lookup (server_xfer fmt B arrange pieces) d name)"
  unfolding client_lookup_def
  by (rule call_simulates(2) [OF assms(1), where ans = "\<lambda>i x. [LookupRes i x]"])
     (use assms(2) in \<open>simp_all add: reply_with_answers waits_reply_loop reply_loop.simps next_message_def\<close>)

lemma simulates_create_file:
  assumes "wf_backend B" and "length name < 256"
  shows "simulates id (be_create_file B d perms flags name)
    (client_create_file (server_xfer fmt B arrange pieces) d perms flags name)"
  unfolding client_create_file_def
  by (rule call_simulates(2) [OF assms(1), where ans = "\<lambda>i x. [LookupRes i x]"])
     (use assms(2) in \<open>simp_all add: reply_with_answers waits_reply_loop reply_loop.simps next_message_def\<close>)

lemma simulates_create_dir:
  assumes "wf_backend B" and "length name < 256"
  shows "simulates id (be_create_dir B d perms name)
    (client_create_dir (server_xfer fmt B arrange pieces) d perms name)"
  unfolding client_create_dir_def
  by (rule call_simulates(2) [OF assms(1), where ans = "\<lambda>i x. [LookupRes i x]"])
     (use assms(2) in \<open>simp_all add: reply_with_answers waits_reply_loop reply_loop.simps next_message_def\<close>)

lemma simulates_get_attr:
  assumes "wf_backend B"
  shows "simulates wire_attr (be_get_attr B i) (client_get_attr (server_xfer fmt B arrange pieces) i)"
  unfolding client_get_attr_def
proof (rule call_simulates(1) [OF assms, where ans = "\<lambda>i x. [file_attr_into_message x i]"])
  fix i' s a s' assume "be_get_attr B i s = (Ok a, s')"
  then have "valid_attr a" by (rule wf_backend_values(1) [OF assms])
  from file_attr_roundtrip [OF this, of i']
  show "reply_loop attr_reply (arrange [file_attr_into_message a i']) True = Ok (wire_attr a)"
    by (simp add: reply_loop.simps next_message_def file_attr_into_message_def)
qed (simp_all add: reply_with_answers waits_reply_loop)

lemma simulates_stats:
  assumes "wf_backend B"
  shows "simulates id (be_stats B) (client_stats (server_xfer fmt B arrange pieces))"
  unfolding client_stats_def
  by (rule call_simulates(1) [OF assms, where ans = "\<lambda>i x. [fs_stats_into_message x i]"])
     (simp_all add: reply_with_answers waits_reply_loop reply_loop.simps next_message_def
       fs_stats_into_message_def)

lemma time_field_unix:
  "(case t of None \<Rightarrow> True | Some x \<Rightarrow> valid_time x)
   \<Longrightarrow> time_field (map_option to_unix t) = Some (map_option wire_time t)"
  by (cases t) (simp_all add: from_unix_to_unix)

lemma simulates_set_attr:
  assumes "wf_backend B"
    and "case atime of None \<Rightarrow> True | Some x \<Rightarrow> valid_time x"
    and "case mtime of None \<Rightarrow> True | Some x \<Rightarrow> valid_time x"
  shows "simulates id
    (be_set_attr B i sz (map_option wire_time atime) (map_option wire_time mtime) perms uid gid)
    (client_set_attr (server_xfer fmt B arrange pieces) i sz atime mtime perms uid gid)"
  unfolding client_set_attr_def
  by (rule call_simulates(1) [OF assms(1), where ans = "\<lambda>i x. [SuccessRes i]"])
     (simp_all add: reply_with_answers waits_success time_field_unix [OF assms(2)]
       time_field_unix [OF assms(3)])

lemma simulates_read:
  assumes "wf_backend B"
  shows "simulates id (be_read B i offset len) (client_read (server_xfer fmt B arrange pieces) i offset len)"
  unfolding client_read_def
proof (rule call_simulates(2) [OF assms, where ans = assemble_read_res_chunks])
  fix i' s data s' assume "be_read B i offset len s = (Ok data, s')"
  then have "length data < 2 ^ 64" by (rule wf_backend_values(2) [OF assms])
  then show "combine_read_chunks (arrange (assemble_read_res_chunks i' data)) True = Ok (id data)"
    using combine_assembled [OF _ arrange_mset, of data i' "[]" True] by simp
qed (simp_all add: reply_chunks_answers waits_combine)

lemma simulates_write:
  assumes "wf_backend B" and "length data < 4294967296"
  shows "simulates id (be_write B i offset data) (client_write (server_xfer fmt B arrange pieces) i offset data)"
  unfolding client_write_def
  by (rule call_simulates(1) [OF assms(1), where ans = "\<lambda>i x. [SuccessRes i]"])
     (use assms(2) in \<open>simp_all add: reply_with_answers waits_success\<close>)

lemma simulates_remove:
  assumes "wf_backend B"
  shows "simulates id (be_remove B i) (client_remove (server_xfer fmt B arrange pieces) i)"
  unfolding client_remove_def
  by (rule call_simulates(1) [OF assms, where ans = "\<lambda>i x. [SuccessRes i]"])
     (simp_all add: reply_with_answers waits_success)

lemma simulates_rename:
  assumes "wf_backend B" and "length name < 256"
  shows "simulates id (be_rename B i d name) (client_rename (server_xfer fmt B arrange pieces) i d name)"
  unfolding client_rename_def
  by (rule call_simulates(1) [OF assms(1), where ans = "\<lambda>i x. [SuccessRes i]"])
     (use assms(2) in \<open>simp_all add: reply_with_answers waits_success\<close>)

lemma simulates_listing:
  assumes "wf_backend B"
  shows "simulates (\<lambda>es. concat (map write_dir_entry es)) (be_read_dir B i)
    (call_other (server_xfer fmt B arrange pieces) (ReaddirReq 0 i) combine_read_chunks)"
proof (rule call_simulates(2) [OF assms,
    where ans = "\<lambda>rid es. assemble_read_res_chunks rid (concat (map write_dir_entry es))"])
  fix i' s es s' assume "be_read_dir B i s = (Ok es, s')"
  then have "listing_fits es" by (rule wf_backend_values(3) [OF assms])
  then show "combine_read_chunks (arrange (assemble_read_res_chunks i' (concat (map write_dir_entry es)))) True
      = Ok (concat (map write_dir_entry es))"
    using combine_assembled [OF _ arrange_mset, of "concat (map write_dir_entry es)" i' "[]" True]
    by (simp add: listing_fits_def)
qed (auto simp: answers_with_def serialize_eq reply_chunks_def waits_combine
      split: prod.splits io_result.splits)

lemma simulates_read_dir:
  fixes B :: "'s fs_backend"
  assumes "wf_backend B"
  shows "simulates id (be_read_dir B i) (client_read_dir fmt (server_xfer fmt B arrange pieces) i)"
  unfolding simulates_def
proof (intro allI impI)
  fix c :: "'s peer client"
  assume c: "healthy c"
  obtain r s' where l: "be_read_dir B i (remote_fs c) = (r, s')" by fastforce
  with c simulates_listing [OF assms, of i fmt] obtain c' where
    call: "call_other (server_xfer fmt B arrange pieces) (ReaddirReq 0 i) combine_read_chunks c
        = (wire_result (\<lambda>es. concat (map write_dir_entry es)) r, c')"
    and post: "remote_fs c' = s' \<and> (r \<noteq> Hangs \<longrightarrow> healthy c') \<and> cl_next_id c' = cl_next_id c + 1
           \<and> dom (cl_listeners c') = insert (cl_next_id c) (dom (cl_listeners c))"
    unfolding simulates_def by fastforce
  have "client_read_dir fmt (server_xfer fmt B arrange pieces) i c = (wire_result id r, c')"
  proof (cases r)
    case (Ok es)
    with l have "listing_fits es" using wf_backend_values(3) [OF assms] by blast
    then have "parse_dir_entries (concat (map write_dir_entry es)) = Inr es"
      by (intro parse_serialized) (simp add: listing_fits_def)
    with Ok call show ?thesis by (simp add: client_read_dir_def)
  qed (use call in \<open>simp_all add: client_read_dir_def\<close>)
  with l post show "case be_read_dir B i (remote_fs c) of (r, s') \<Rightarrow>
        \<exists>c'. client_read_dir fmt (server_xfer fmt B arrange pieces) i c = (wire_result id r, c')
           \<and> remote_fs c' = s' \<and> (r \<noteq> Hangs \<longrightarrow> healthy c') \<and> cl_next_id c' = cl_next_id c + 1
           \<and> dom (cl_listeners c') = insert (cl_next_id c) (dom (cl_listeners c))"
    by auto
qed

end

subsection \<open>The server end is the concurrent server\<close>

text \<open>
  A run of the concurrent server that received one request and finished, nothing lost, has written
  what \<open>server_xfer\<close> answers for the order in which that run's replies went out.
\<close>

lemma server_xfer_of_steps:
  assumes "server_reach fmt B s c" and "finished c" and "sv_received c = [(i, m)]"
    and "on i (sv_lost c) = []" and "wf_message m"
  shows "\<exists>arrange. (\<forall>rs. mset (arrange rs) = mset rs)
    \<and> server_xfer fmt B arrange (\<lambda>bs. [bs]) (write_message m) (peer_fresh s)
      = (Inr ([concat (map write_message (on i (sv_written c)))], False), peer_fresh (sv_fs c))"
proof -
  obtain r s' where h: "handle_msg fmt B m s = (r, s')" by fastforce
  let ?rs = "case r of Ok rs \<Rightarrow> rs | _ \<Rightarrow> []"
  from assms(2) have "sv_tasks c = {#}" "sv_lock c = Free" by (simp_all add: finished_def quiescent_def)
  from one_request_served [OF assms(1) this assms(3) h] obtain rs where
    run: "sv_fs c = s'" "r \<noteq> Hangs" "mset rs = mset ?rs" "sv_sent c = map (Pair i) rs" by blast
  have "on i (map (Pair i) rs) = rs" by (induction rs) simp_all
  with run(4) server_reach_channel_ok [OF assms(1), of i] assms(2,4)
  have written: "on i (sv_written c) = rs" by (simp add: channel_ok_def finished_def)
  let ?arrange = "\<lambda>xs. if xs = ?rs then rs else xs"
  have perm: "mset (?arrange xs) = mset xs" for xs using run(3) by simp
  then have "delivery ?arrange (\<lambda>bs. [bs])" by (intro delivery.intro) simp_all
  then have "server_xfer fmt B ?arrange (\<lambda>bs. [bs]) (write_message m) (peer_fresh s)
      = (Inr ([concat (map write_message rs)], False), peer_fresh (sv_fs c))"
    using run(1,2) h delivery.server_xfer_one [OF \<open>delivery ?arrange (\<lambda>bs. [bs])\<close> assms(5),
        of "peer_fresh s" fmt B r s'] by (simp add: peer_fresh_def)
  with perm show ?thesis unfolding written by (intro exI [where x = ?arrange]) simp
qed

end
