(* ===== verification/Fuse.thy ===== *)
theory Fuse
  imports Handlers Io_Logic
begin

text \<open>
  The FUSE side of the client (\<open>client/fuse.rs\<close>): every kernel request runs backend operations
  under a mutex and answers through its reply object. A reply is the value of the handler; the
  backend is any \<open>FsBackend\<close>.
\<close>

subsection \<open>The types of the FUSE library that the code fills in\<close>

datatype fuser_file_type =
    NamedPipe | CharDeviceNode | BlockDeviceNode | DirectoryNode | RegularFileNode | SymlinkNode
  | SocketNode

text \<open>\<open>From<FileType> for fuser::FileType\<close>\<close>

fun file_type_into_fuser :: "file_type \<Rightarrow> fuser_file_type" where
  "file_type_into_fuser Pipe = NamedPipe"
| "file_type_into_fuser CharDevice = CharDeviceNode"
| "file_type_into_fuser BlockDevice = BlockDeviceNode"
| "file_type_into_fuser Directory = DirectoryNode"
| "file_type_into_fuser RegularFile = RegularFileNode"
| "file_type_into_fuser Symlink = SymlinkNode"
| "file_type_into_fuser Socket = SocketNode"

record fuser_attr =
  fr_ino :: u64
  fr_size :: u64
  fr_blocks :: u64
  fr_atime :: system_time
  fr_mtime :: system_time
  fr_ctime :: system_time
  fr_crtime :: system_time
  fr_kind :: fuser_file_type
  fr_perm :: u16
  fr_nlink :: u32
  fr_uid :: u32
  fr_gid :: u32
  fr_rdev :: u32
  fr_blksize :: u32
  fr_flags :: u32

text \<open>One \<open>reply.add(ino, offset, kind, name)\<close>\<close>

record fuser_dirent =
  fd_ino :: u64
  fd_offset :: u64
  fd_kind :: fuser_file_type
  fd_name :: bytes

datatype time_or_now = SpecificTime system_time | Now

text \<open>
  What a handler answers: the method called on the reply object with its arguments, in whole
  seconds for the time to live. \<open>NoReply\<close> is a handler that returns without calling one.
\<close>

datatype fuse_reply =
    ReplyEntry nat fuser_attr u64
  | ReplyAttr nat fuser_attr
  | ReplyCreated nat fuser_attr u64 u64 u32
  | ReplyOk
  | ReplyError i32
  | ReplyData bytes
  | ReplyWritten u32
  | ReplyStatfs u64 u64 u64 u64 u64 u32 u32 u32
  | ReplyDirectory "fuser_dirent list"
  | NoReply

subsection \<open>Conversions\<close>

definition TTL :: nat where
  "TTL = 0"

definition to_fuser_attr :: "u64 \<Rightarrow> file_attr \<Rightarrow> fuser_attr" where
  "to_fuser_attr ino attr =
     \<lparr>fr_ino = ino, fr_size = fa_size attr, fr_blocks = fa_blocks attr,
      fr_atime = fa_access_time attr, fr_mtime = fa_modification_time attr,
      fr_ctime = fa_change_time attr, fr_crtime = 0,
      fr_kind = file_type_into_fuser (fa_file_type attr), fr_perm = fa_permissions attr,
      fr_nlink = fa_n_hard_links attr, fr_uid = fa_uid attr, fr_gid = fa_gid attr,
      fr_rdev = fa_rdev attr, fr_blksize = fa_block_size attr, fr_flags = 0\<rparr>"

text \<open>The constants of \<open>libc\<close> on Linux\<close>

definition ENOENT :: i32 where "ENOENT = 2"
definition EIO :: i32 where "EIO = 5"
definition EACCES :: i32 where "EACCES = 13"
definition EEXIST :: i32 where "EEXIST = 17"
definition EINVAL :: i32 where "EINVAL = 22"

fun errno_of_kind :: "error_kind \<Rightarrow> i32" where
  "errno_of_kind KNotFound = ENOENT"
| "errno_of_kind KPermissionDenied = EACCES"
| "errno_of_kind KAlreadyExists = EEXIST"
| "errno_of_kind KInvalidInput = EINVAL"
| "errno_of_kind _ = EIO"

definition io_to_errno :: "io_error \<Rightarrow> i32" where
  "io_to_errno e = errno_of_kind (err_kind e)"

text \<open>\<open>now\<close> is what the clock says when the time is resolved.\<close>

fun resolve_time :: "system_time \<Rightarrow> time_or_now option \<Rightarrow> system_time option" where
  "resolve_time now (Some Now) = Some now"
| "resolve_time now (Some (SpecificTime t)) = Some t"
| "resolve_time now None = None"

subsection \<open>The mutex around the backend\<close>

text \<open>
  \<open>std::sync::Mutex\<close>: a panic while the guard is alive poisons it, after which
  \<open>lock().unwrap()\<close> panics; an operation that never returns keeps it locked.
\<close>

datatype mutex = Unlocked | Poisoned | Held

record 'b fuse =
  fu_backend :: 'b
  fu_lock :: mutex

definition fuse_new :: "'b \<Rightarrow> 'b fuse" where
  "fuse_new b = \<lparr>fu_backend = b, fu_lock = Unlocked\<rparr>"

text \<open>\<open>async_rt.block_on(async { let mut backend = self.backend.lock().unwrap(); .. })\<close>\<close>

definition block_on :: "('b, 'a) io \<Rightarrow> ('b fuse, 'a) io" where
  "block_on m fu = (case fu_lock fu of
      Poisoned \<Rightarrow> (Panics, fu)
    | Held \<Rightarrow> (Hangs, fu)
    | Unlocked \<Rightarrow> (case m (fu_backend fu) of
          (Ok x, b) \<Rightarrow> (Ok x, fu\<lparr>fu_backend := b\<rparr>)
        | (Err e, b) \<Rightarrow> (Err e, fu\<lparr>fu_backend := b\<rparr>)
        | (Panics, b) \<Rightarrow> (Panics, fu\<lparr>fu_backend := b, fu_lock := Poisoned\<rparr>)
        | (Hangs, b) \<Rightarrow> (Hangs, fu\<lparr>fu_backend := b, fu_lock := Held\<rparr>)))"

text \<open>\<open>match .. { Ok(x) => reply.., Err(e) => reply.error(io_to_errno(&e)) }\<close>\<close>

definition answer :: "('b, 'a) io \<Rightarrow> ('a \<Rightarrow> fuse_reply) \<Rightarrow> ('b fuse, fuse_reply) io" where
  "answer m f = io_match (block_on m) (\<lambda>x. io_return (f x))
     (\<lambda>e. io_return (ReplyError (io_to_errno e)))"

subsection \<open>Handlers\<close>

definition fuse_lookup :: "'b fs_backend \<Rightarrow> u64 \<Rightarrow> bytes \<Rightarrow> ('b fuse, fuse_reply) io" where
  "fuse_lookup B parent name =
     answer (io_bind (be_lookup B parent name) (\<lambda>ino.
             io_bind (be_get_attr B ino) (\<lambda>attr. io_return (ino, attr))))
       (\<lambda>(ino, attr). ReplyEntry TTL (to_fuser_attr ino attr) 0)"

definition fuse_getattr :: "'b fs_backend \<Rightarrow> u64 \<Rightarrow> ('b fuse, fuse_reply) io" where
  "fuse_getattr B ino =
     answer (be_get_attr B ino) (\<lambda>attr. ReplyAttr TTL (to_fuser_attr ino attr))"

definition fuse_setattr :: "'b fs_backend \<Rightarrow> system_time \<Rightarrow> system_time \<Rightarrow> u64 \<Rightarrow> u32 option
    \<Rightarrow> u32 option \<Rightarrow> u32 option \<Rightarrow> u64 option \<Rightarrow> time_or_now option \<Rightarrow> time_or_now option
    \<Rightarrow> ('b fuse, fuse_reply) io" where
  "fuse_setattr B now now' ino mode uid gid sz atime mtime =
     (let permissions = map_option (\<lambda>m. ucast m) mode;
          at = resolve_time now atime;
          mt = resolve_time now' mtime
      in answer (io_bind (be_set_attr B ino sz at mt permissions uid gid) (\<lambda>_. be_get_attr B ino))
           (\<lambda>attr. ReplyAttr TTL (to_fuser_attr ino attr)))"

definition fuse_mkdir :: "'b fs_backend \<Rightarrow> u64 \<Rightarrow> bytes \<Rightarrow> u32 \<Rightarrow> ('b fuse, fuse_reply) io" where
  "fuse_mkdir B parent name mode =
     answer (io_bind (be_create_dir B parent (ucast mode) name) (\<lambda>ino.
             io_bind (be_get_attr B ino) (\<lambda>attr. io_return (ino, attr))))
       (\<lambda>(ino, attr). ReplyEntry TTL (to_fuser_attr ino attr) 0)"

definition fuse_unlink :: "'b fs_backend \<Rightarrow> u64 \<Rightarrow> bytes \<Rightarrow> ('b fuse, fuse_reply) io" where
  "fuse_unlink B parent name =
     answer (io_bind (be_lookup B parent name) (\<lambda>ino. be_remove B ino)) (\<lambda>_. ReplyOk)"

definition fuse_rmdir :: "'b fs_backend \<Rightarrow> u64 \<Rightarrow> bytes \<Rightarrow> ('b fuse, fuse_reply) io" where
  "fuse_rmdir B parent name =
     answer (io_bind (be_lookup B parent name) (\<lambda>ino. be_remove B ino)) (\<lambda>_. ReplyOk)"

definition fuse_rename :: "'b fs_backend \<Rightarrow> u64 \<Rightarrow> bytes \<Rightarrow> u64 \<Rightarrow> bytes \<Rightarrow> ('b fuse, fuse_reply) io" where
  "fuse_rename B parent name newparent newname =
     answer (io_bind (be_lookup B parent name) (\<lambda>ino. be_rename B ino newparent newname))
       (\<lambda>_. ReplyOk)"

definition fuse_read :: "'b fs_backend \<Rightarrow> u64 \<Rightarrow> u64 \<Rightarrow> u32 \<Rightarrow> ('b fuse, fuse_reply) io" where
  "fuse_read B ino offset sz = answer (be_read B ino offset (ucast sz)) ReplyData"

definition fuse_write :: "'b fs_backend \<Rightarrow> u64 \<Rightarrow> u64 \<Rightarrow> bytes \<Rightarrow> ('b fuse, fuse_reply) io" where
  "fuse_write B ino offset data =
     answer (be_write B ino offset data) (\<lambda>_. ReplyWritten (of_nat (length data)))"

definition fuse_flush :: "('b fuse, fuse_reply) io" where
  "fuse_flush = io_return ReplyOk"

text \<open>
  \<open>reply.add\<close> belongs to the FUSE library: \<open>full added e\<close> is its answer that \<open>e\<close> no longer fits
  after \<open>added\<close>. The loop then returns.
\<close>

fun fill_directory :: "(fuser_dirent list \<Rightarrow> fuser_dirent \<Rightarrow> bool) \<Rightarrow> fuser_dirent list
    \<Rightarrow> fuser_dirent list \<Rightarrow> fuse_reply" where
  "fill_directory full added [] = ReplyDirectory added"
| "fill_directory full added (e # es) =
     (if full added e then NoReply else fill_directory full (added @ [e]) es)"

definition fuser_dirent_of :: "nat \<times> dir_entry \<Rightarrow> fuser_dirent" where
  "fuser_dirent_of ie = (case ie of (i, e) \<Rightarrow>
     \<lparr>fd_ino = de_inode e, fd_offset = of_nat (i + 1),
      fd_kind = file_type_into_fuser (de_file_type e), fd_name = de_filename e\<rparr>)"

definition fuse_readdir :: "'b fs_backend \<Rightarrow> (fuser_dirent list \<Rightarrow> fuser_dirent \<Rightarrow> bool) \<Rightarrow> u64
    \<Rightarrow> u64 \<Rightarrow> ('b fuse, fuse_reply) io" where
  "fuse_readdir B full ino offset =
     answer (be_read_dir B ino)
       (\<lambda>entries. fill_directory full []
          (map fuser_dirent_of (drop (unat offset) (enumerate 0 entries))))"

definition fuse_create :: "'b fs_backend \<Rightarrow> u64 \<Rightarrow> bytes \<Rightarrow> u32 \<Rightarrow> i32 \<Rightarrow> ('b fuse, fuse_reply) io" where
  "fuse_create B parent name mode flags =
     answer (io_bind (be_create_file B parent (ucast mode) flags name) (\<lambda>ino.
             io_bind (be_get_attr B ino) (\<lambda>attr. io_return (ino, attr))))
       (\<lambda>(ino, attr). ReplyCreated TTL (to_fuser_attr ino attr) 0 0 0)"

definition fuse_statfs :: "'b fs_backend \<Rightarrow> ('b fuse, fuse_reply) io" where
  "fuse_statfs B = answer (be_stats B) (\<lambda>s. ReplyStatfs (st_total_blocks s) (st_free_blocks s)
     (st_avail_blocks s) (st_total_inodes s) (st_free_inodes s) (st_block_size s)
     (st_max_filename_len s) (st_fragment_size s))"

subsection \<open>The requests of the kernel\<close>

datatype fuse_request =
    FuseLookup u64 bytes
  | FuseGetattr u64
  | FuseSetattr u64 "u32 option" "u32 option" "u32 option" "u64 option" "time_or_now option"
      "time_or_now option"
  | FuseMkdir u64 bytes u32
  | FuseUnlink u64 bytes
  | FuseRmdir u64 bytes
  | FuseRename u64 bytes u64 bytes
  | FuseRead u64 u64 u32
  | FuseWrite u64 u64 bytes
  | FuseFlush u64
  | FuseReaddir u64 u64
  | FuseCreate u64 bytes u32 i32
  | FuseStatfs u64

fun fuse_handle :: "'b fs_backend \<Rightarrow> (fuser_dirent list \<Rightarrow> fuser_dirent \<Rightarrow> bool) \<Rightarrow> system_time
    \<Rightarrow> system_time \<Rightarrow> fuse_request \<Rightarrow> ('b fuse, fuse_reply) io" where
  "fuse_handle B full now now' (FuseLookup parent name) = fuse_lookup B parent name"
| "fuse_handle B full now now' (FuseGetattr ino) = fuse_getattr B ino"
| "fuse_handle B full now now' (FuseSetattr ino mode uid gid sz atime mtime) =
     fuse_setattr B now now' ino mode uid gid sz atime mtime"
| "fuse_handle B full now now' (FuseMkdir parent name mode) = fuse_mkdir B parent name mode"
| "fuse_handle B full now now' (FuseUnlink parent name) = fuse_unlink B parent name"
| "fuse_handle B full now now' (FuseRmdir parent name) = fuse_rmdir B parent name"
| "fuse_handle B full now now' (FuseRename parent name newparent newname) =
     fuse_rename B parent name newparent newname"
| "fuse_handle B full now now' (FuseRead ino offset sz) = fuse_read B ino offset sz"
| "fuse_handle B full now now' (FuseWrite ino offset data) = fuse_write B ino offset data"
| "fuse_handle B full now now' (FuseFlush ino) = fuse_flush"
| "fuse_handle B full now now' (FuseReaddir ino offset) = fuse_readdir B full ino offset"
| "fuse_handle B full now now' (FuseCreate parent name mode flags) =
     fuse_create B parent name mode flags"
| "fuse_handle B full now now' (FuseStatfs ino) = fuse_statfs B"

end
