(* ===== verification/Mount.thy ===== *)
theory Mount
  imports Remote Fuse
begin

text \<open>
  The mounted filesystem: the FUSE handlers over any backend, and over the client of a remote
  server. What a mount answers is what the server's backend would have answered locally, up to
  what the wire makes of times and error kinds.
\<close>

subsection \<open>Handlers and the mutex\<close>

lemma block_on_unlocked:
  "fu_lock fu = Unlocked \<Longrightarrow> m (fu_backend fu) = (Ok x, b) \<Longrightarrow> block_on m fu = (Ok x, fu\<lparr>fu_backend := b\<rparr>)"
  "fu_lock fu = Unlocked \<Longrightarrow> m (fu_backend fu) = (Err e, b) \<Longrightarrow> block_on m fu = (Err e, fu\<lparr>fu_backend := b\<rparr>)"
  by (simp_all add: block_on_def)

lemma answer_never_Err: "answer m f fu \<noteq> (Err e, fu')"
  by (cases "fu_lock fu"; cases "m (fu_backend fu)"; cases "fst (m (fu_backend fu))")
     (auto simp: answer_def io_match_def block_on_def)

text \<open>A handler that runs to its end leaves the mutex as it found it.\<close>

lemma answer_Ok:
  assumes "answer m f fu = (Ok rep, fu')"
  shows "fu_lock fu = Unlocked" and "fu_lock fu' = Unlocked"
    and "(\<exists>x. m (fu_backend fu) = (Ok x, fu_backend fu') \<and> rep = f x)
       \<or> (\<exists>e. m (fu_backend fu) = (Err e, fu_backend fu') \<and> rep = ReplyError (io_to_errno e))"
  using assms
  by (cases "m (fu_backend fu)"; cases "fst (m (fu_backend fu))"; cases "fu_lock fu";
      auto simp: answer_def io_match_def block_on_def)+

lemma answer_poisoned: "fu_lock fu = Poisoned \<Longrightarrow> answer m f fu = (Panics, fu)"
  by (simp add: answer_def io_match_def block_on_def)

lemma answer_held: "fu_lock fu = Held \<Longrightarrow> answer m f fu = (Hangs, fu)"
  by (simp add: answer_def io_match_def block_on_def)

lemmas fuse_handlers = fuse_lookup_def fuse_getattr_def fuse_setattr_def fuse_mkdir_def
  fuse_unlink_def fuse_rmdir_def fuse_rename_def fuse_read_def fuse_write_def fuse_readdir_def
  fuse_create_def fuse_statfs_def

lemma answer_panics:
  "fu_lock fu = Unlocked \<Longrightarrow> m (fu_backend fu) = (Panics, b) \<Longrightarrow>
   answer m f fu = (Panics, fu\<lparr>fu_backend := b, fu_lock := Poisoned\<rparr>)"
  by (simp add: answer_def io_match_def block_on_def)

lemma answer_Panics: "answer m f fu = (Panics, fu') \<Longrightarrow> fu_lock fu' = Poisoned"
  by (cases "m (fu_backend fu)"; cases "fst (m (fu_backend fu))"; cases "fu_lock fu";
      auto simp: answer_def io_match_def block_on_def)

subsection \<open>Directory replies\<close>

lemma fill_directory_fits:
  assumes "\<And>k e. k < length es \<Longrightarrow> \<not> full (added @ take k es) (es ! k)"
  shows "fill_directory full added es = ReplyDirectory (added @ es)"
  using assms
proof (induction es arbitrary: added)
  case (Cons e es)
  have "\<not> full added e" using Cons.prems [of 0] by simp
  moreover have "fill_directory full (added @ [e]) es = ReplyDirectory ((added @ [e]) @ es)"
    using Cons.prems [of "Suc _"] by (intro Cons.IH) simp
  ultimately show ?case by simp
qed simp

lemma fill_directory_full:
  assumes "k < length es" and "full (added @ take k es) (es ! k)"
  shows "fill_directory full added es = NoReply"
  using assms
proof (induction es arbitrary: added k)
  case (Cons e es)
  show ?case
  proof (cases k)
    case 0
    with Cons.prems show ?thesis by simp
  next
    case (Suc j)
    with Cons.prems Cons.IH [of j "added @ [e]"] show ?thesis by simp
  qed
qed simp

lemma fill_directory_iff:
  "fill_directory full added es =
     (if \<exists>k < length es. full (added @ take k es) (es ! k) then NoReply else ReplyDirectory (added @ es))"
  using fill_directory_fits [of es full added] fill_directory_full [of _ es full added] by auto

subsection \<open>Refinement of composed operations\<close>

text \<open>
  \<open>refines f local remote\<close>: from a healthy connection the remote operation, however many calls
  it makes, gives the local result and leaves the server's backend as the local one does.
\<close>

definition refines :: "('a \<Rightarrow> 'b) \<Rightarrow> ('s, 'a) io \<Rightarrow> ('s peer client, 'b) io \<Rightarrow> bool" where
  "refines f local remote \<longleftrightarrow> (\<forall>c. healthy c \<longrightarrow>
     (case local (remote_fs c) of (r, s') \<Rightarrow>
        \<exists>c'. remote c = (wire_result f r, c') \<and> remote_fs c' = s' \<and> (r \<noteq> Hangs \<longrightarrow> healthy c')))"

lemma refines_simulates: "simulates f local remote \<Longrightarrow> refines f local remote"
  unfolding simulates_def refines_def by (fastforce split: prod.splits)

lemma refinesD:
  "refines f local remote \<Longrightarrow> healthy c \<Longrightarrow> local (remote_fs c) = (r, s') \<Longrightarrow>
   \<exists>c'. remote c = (wire_result f r, c') \<and> remote_fs c' = s' \<and> (r \<noteq> Hangs \<longrightarrow> healthy c')"
  by (fastforce simp: refines_def)

lemma refines_return: "refines f (io_return x) (io_return (f x))"
  by (simp add: refines_def)

lemma refines_bind:
  fixes m :: "('s, 'a) io"
  assumes "refines f m m'" and "\<And>x. refines g (k x) (k' (f x))"
  shows "refines g (io_bind m k) (io_bind m' k')"
  unfolding refines_def
proof (intro allI impI)
  fix c :: "'s peer client" assume c: "healthy c"
  obtain r s' where m: "m (remote_fs c) = (r, s')" by fastforce
  from refinesD [OF assms(1) c m] obtain c' where
    m': "m' c = (wire_result f r, c')" "remote_fs c' = s'" "r \<noteq> Hangs \<longrightarrow> healthy c'" by blast
  show "case io_bind m k (remote_fs c) of (r, s') \<Rightarrow> \<exists>c'. io_bind m' k' c = (wire_result g r, c')
      \<and> remote_fs c' = s' \<and> (r \<noteq> Hangs \<longrightarrow> healthy c')"
  proof (cases r)
    case (Ok x)
    with m' have "healthy c'" "m' c = (Ok (f x), c')" by auto
    with refinesD [OF assms(2) this(1), of x] m m' Ok show ?thesis
      by (auto split: prod.split)
  qed (use m m' in auto)
qed

subsection \<open>Transparency\<close>

definition wire_fuser_attr :: "fuser_attr \<Rightarrow> fuser_attr" where
  "wire_fuser_attr a = a\<lparr>fr_atime := wire_time (fr_atime a), fr_mtime := wire_time (fr_mtime a),
     fr_ctime := wire_time (fr_ctime a)\<rparr>"

text \<open>What the wire makes of a reply: whole seconds, and no error of its own for \<open>EACCES\<close>.\<close>

fun wire_reply :: "fuse_reply \<Rightarrow> fuse_reply" where
  "wire_reply (ReplyEntry ttl a g) = ReplyEntry ttl (wire_fuser_attr a) g"
| "wire_reply (ReplyAttr ttl a) = ReplyAttr ttl (wire_fuser_attr a)"
| "wire_reply (ReplyCreated ttl a g fh fl) = ReplyCreated ttl (wire_fuser_attr a) g fh fl"
| "wire_reply (ReplyError n) = ReplyError (if n = EACCES then EIO else n)"
| "wire_reply r = r"

fun wire_request :: "system_time \<Rightarrow> system_time \<Rightarrow> fuse_request \<Rightarrow> fuse_request" where
  "wire_request now now' (FuseSetattr ino mode uid gid sz atime mtime) =
     FuseSetattr ino mode uid gid sz
       (map_option (\<lambda>t. SpecificTime (wire_time t)) (resolve_time now atime))
       (map_option (\<lambda>t. SpecificTime (wire_time t)) (resolve_time now' mtime))"
| "wire_request now now' r = r"

text \<open>Names within the length byte, data within its length field, representable times.\<close>

fun fits_request :: "system_time \<Rightarrow> system_time \<Rightarrow> fuse_request \<Rightarrow> bool" where
  "fits_request now now' (FuseLookup _ name) = (length name < 256)"
| "fits_request now now' (FuseSetattr _ _ _ _ _ atime mtime) =
     ((case resolve_time now atime of None \<Rightarrow> True | Some t \<Rightarrow> valid_time t)
    \<and> (case resolve_time now' mtime of None \<Rightarrow> True | Some t \<Rightarrow> valid_time t))"
| "fits_request now now' (FuseMkdir _ name _) = (length name < 256)"
| "fits_request now now' (FuseUnlink _ name) = (length name < 256)"
| "fits_request now now' (FuseRmdir _ name) = (length name < 256)"
| "fits_request now now' (FuseRename _ name _ newname) = (length name < 256 \<and> length newname < 256)"
| "fits_request now now' (FuseWrite _ _ data) = (length data < 4294967296)"
| "fits_request now now' (FuseCreate _ name _ _) = (length name < 256)"
| "fits_request now now' _ = True"

definition transparent :: "('s fuse, fuse_reply) io \<Rightarrow> ('s peer client fuse, fuse_reply) io \<Rightarrow> bool" where
  "transparent local remote \<longleftrightarrow> (\<forall>c. healthy c \<longrightarrow>
     (case local (fuse_new (remote_fs c)) of (r, l) \<Rightarrow>
        \<exists>fu. remote (fuse_new c) = (wire_result wire_reply r, fu)
           \<and> remote_fs (fu_backend fu) = fu_backend l
           \<and> ((\<exists>rep. r = Ok rep) \<longrightarrow> fu_lock fu = Unlocked \<and> healthy (fu_backend fu))))"

lemma errno_wire: "io_to_errno (wire_error e) = (if io_to_errno e = EACCES then EIO else io_to_errno e)"
  by (cases "err_kind e")
     (simp_all add: io_to_errno_def wire_error_def ENOENT_def EIO_def EACCES_def EEXIST_def EINVAL_def)

lemma transparent_answer:
  fixes m :: "('s, 'a) io"
  assumes "refines f m m'" and "\<And>x. g' (f x) = wire_reply (g x)"
  shows "transparent (answer m g) (answer m' g')"
  unfolding transparent_def
proof (intro allI impI)
  fix c :: "'s peer client" assume c: "healthy c"
  obtain r s' where m: "m (remote_fs c) = (r, s')" by fastforce
  from refinesD [OF assms(1) c m] obtain c' where
    m': "m' c = (wire_result f r, c')" "remote_fs c' = s'" "r \<noteq> Hangs \<longrightarrow> healthy c'" by blast
  show "case answer m g (fuse_new (remote_fs c)) of (r, l) \<Rightarrow>
        \<exists>fu. answer m' g' (fuse_new c) = (wire_result wire_reply r, fu)
           \<and> remote_fs (fu_backend fu) = fu_backend l
           \<and> ((\<exists>rep. r = Ok rep) \<longrightarrow> fu_lock fu = Unlocked \<and> healthy (fu_backend fu))"
    using m m' assms(2)
    by (cases r) (simp_all add: answer_def io_match_def block_on_def fuse_new_def errno_wire)
qed

lemma wire_attr_fuser: "to_fuser_attr i (wire_attr a) = wire_fuser_attr (to_fuser_attr i a)"
  by (simp add: to_fuser_attr_def wire_attr_def wire_fuser_attr_def)

lemma fill_directory_wire: "wire_reply (fill_directory full added es) = fill_directory full added es"
  by (simp add: fill_directory_iff)

context delivery
begin

abbreviation remote :: "(bin_error \<Rightarrow> ustring) \<Rightarrow> 's fs_backend \<Rightarrow> 's peer client fs_backend" where
  "remote fmt B \<equiv> client_backend fmt (server_xfer fmt B arrange pieces)"

lemma refines_lookup:
  "wf_backend B \<Longrightarrow> length name < 256 \<Longrightarrow> refines id (be_lookup B d name) (be_lookup (remote fmt B) d name)"
  by (simp add: client_backend_def refines_simulates simulates_lookup)

lemma refines_get_attr:
  "wf_backend B \<Longrightarrow> refines wire_attr (be_get_attr B i) (be_get_attr (remote fmt B) i)"
  by (simp add: client_backend_def refines_simulates simulates_get_attr)

lemma refines_with_attr:
  fixes m :: "('s, u64) io"
  assumes "wf_backend B" and "refines id m m'"
  shows "refines (\<lambda>(i, a). (i, wire_attr a))
     (io_bind m (\<lambda>i. io_bind (be_get_attr B i) (\<lambda>a. io_return (i, a))))
     (io_bind m' (\<lambda>i. io_bind (be_get_attr (remote fmt B) i) (\<lambda>a. io_return (i, a))))"
proof (rule refines_bind [OF assms(2)])
  fix i :: u64
  have "refines (\<lambda>(i, a). (i, wire_attr a)) (io_return (i, a) :: ('s, _) io) (io_return (i, wire_attr a))" for a
    using refines_return [of "\<lambda>(i, a). (i, wire_attr a)" "(i, a)"] by simp
  then show "refines (\<lambda>(i, a). (i, wire_attr a))
      (io_bind (be_get_attr B i) (\<lambda>a. io_return (i, a)))
      (io_bind (be_get_attr (remote fmt B) (id i)) (\<lambda>a. io_return (id i, a)))"
    unfolding id_apply by (rule refines_bind [OF refines_get_attr [OF assms(1)]])
qed

lemma refines_mutations:
  assumes "wf_backend B"
  shows "refines id (be_remove B i) (be_remove (remote fmt B) i)"
    and "length name < 256 \<Longrightarrow> refines id (be_rename B i d name) (be_rename (remote fmt B) i d name)"
    and "length name < 256 \<Longrightarrow>
      refines id (be_create_file B d perms flags name) (be_create_file (remote fmt B) d perms flags name)"
    and "length name < 256 \<Longrightarrow>
      refines id (be_create_dir B d perms name) (be_create_dir (remote fmt B) d perms name)"
    and "length data < 4294967296 \<Longrightarrow>
      refines id (be_write B i offset data) (be_write (remote fmt B) i offset data)"
  using assms
  by (simp_all add: client_backend_def refines_simulates simulates_remove simulates_rename
      simulates_create_file simulates_create_dir simulates_write)

lemma refines_queries:
  assumes "wf_backend B"
  shows "refines id (be_read B i offset len) (be_read (remote fmt B) i offset len)"
    and "refines id (be_read_dir B i) (be_read_dir (remote fmt B) i)"
    and "refines id (be_stats B) (be_stats (remote fmt B))"
  using assms
  by (simp_all add: client_backend_def refines_simulates simulates_read simulates_read_dir
      simulates_stats)

lemma transparent_setattr:
  assumes "wf_backend B" and "fits_request now now' (FuseSetattr i mode uid gid sz at mt)"
  shows "transparent (fuse_handle B full now now' (wire_request now now' (FuseSetattr i mode uid gid sz at mt)))
    (fuse_handle (remote fmt B) full now now' (FuseSetattr i mode uid gid sz at mt))"
proof -
  have time: "resolve_time t (map_option (\<lambda>t. SpecificTime (wire_time t)) x) = map_option wire_time x"
    for t x by (cases x) simp_all
  have "refines id
      (be_set_attr B i sz (map_option wire_time (resolve_time now at))
        (map_option wire_time (resolve_time now' mt)) perms uid gid)
      (be_set_attr (remote fmt B) i sz (resolve_time now at) (resolve_time now' mt) perms uid gid)" for perms
    using assms by (simp add: client_backend_def refines_simulates simulates_set_attr)
  then show ?thesis
    using assms(1)
    by (auto simp: fuse_setattr_def Let_def time wire_attr_fuser
        intro!: transparent_answer refines_bind refines_get_attr)
qed

lemma transparent_handle:
  assumes "wf_backend B" and "fits_request now now' req"
  shows "transparent (fuse_handle B full now now' (wire_request now now' req))
    (fuse_handle (remote fmt B) full now now' req)"
proof (cases req)
  case (FuseLookup parent name)
  then show ?thesis
    using assms
    by (simp add: fuse_lookup_def)
       (rule transparent_answer [OF refines_with_attr [OF assms(1) refines_lookup]], auto simp: wire_attr_fuser)
next
  case (FuseGetattr i)
  then show ?thesis
    by (simp add: fuse_getattr_def)
       (rule transparent_answer [OF refines_get_attr [OF assms(1)]], simp add: wire_attr_fuser)
next
  case (FuseSetattr i mode uid gid sz at mt)
  with assms show ?thesis by (simp only: transparent_setattr)
next
  case (FuseMkdir parent name mode)
  then show ?thesis
    using assms
    by (simp add: fuse_mkdir_def)
       (rule transparent_answer [OF refines_with_attr [OF assms(1) refines_mutations(4) [OF assms(1)]]],
        auto simp: wire_attr_fuser)
next
  case (FuseUnlink parent name)
  then show ?thesis
    using assms
    by (simp add: fuse_unlink_def)
       (rule transparent_answer [OF refines_bind [OF refines_lookup]],
        auto intro: refines_mutations)
next
  case (FuseRmdir parent name)
  then show ?thesis
    using assms
    by (simp add: fuse_rmdir_def)
       (rule transparent_answer [OF refines_bind [OF refines_lookup]],
        auto intro: refines_mutations)
next
  case (FuseRename parent name newparent newname)
  then show ?thesis
    using assms
    by (simp add: fuse_rename_def)
       (rule transparent_answer [OF refines_bind [OF refines_lookup]],
        auto intro: refines_mutations)
next
  case (FuseRead i offset sz)
  then show ?thesis
    by (simp add: fuse_read_def)
       (rule transparent_answer [OF refines_queries(1) [OF assms(1)]], simp)
next
  case (FuseWrite i offset data)
  then show ?thesis
    using assms
    by (simp add: fuse_write_def)
       (rule transparent_answer [OF refines_mutations(5) [OF assms(1)]], auto)
next
  case (FuseFlush i)
  then show ?thesis by (simp add: fuse_flush_def transparent_def fuse_new_def)
next
  case (FuseReaddir i offset)
  then show ?thesis
    by (simp add: fuse_readdir_def)
       (rule transparent_answer [OF refines_queries(2) [OF assms(1)]], simp add: fill_directory_wire)
next
  case (FuseCreate parent name mode flags)
  then show ?thesis
    using assms
    by (simp add: fuse_create_def)
       (rule transparent_answer [OF refines_with_attr [OF assms(1) refines_mutations(3) [OF assms(1)]]],
        auto simp: wire_attr_fuser)
next
  case (FuseStatfs i)
  then show ?thesis
    by (simp add: fuse_statfs_def)
       (rule transparent_answer [OF refines_queries(3) [OF assms(1)]], simp)
qed

end

subsection \<open>Errors of a remote mount\<close>

abbreviation reported :: "io_error \<Rightarrow> bool" where
  "reported e \<equiv> reported_kind (err_kind e)"

lemma yields_call:
  assumes "errors_reported w"
  shows "yields (\<lambda>_. True) reported (call xfer m w)"
    and "yields (\<lambda>_. True) reported (call_other xfer m w)"
proof -
  have "reported e" if "call xfer m w s = (Err e, s')" for s e s'
    using call_reported(1) [OF assms, of xfer m s e] that by simp
  then show "yields (\<lambda>_. True) reported (call xfer m w)" by (intro yieldsI) auto
  have "reported e" if "call_other xfer m w s = (Err e, s')" for s e s'
    using call_reported(2) [OF assms, of xfer m s e] that by simp
  then show "yields (\<lambda>_. True) reported (call_other xfer m w)" by (intro yieldsI) auto
qed

lemma client_reported:
  fixes xfer :: "'t xfer" and fmt :: "bin_error \<Rightarrow> ustring"
  defines "C \<equiv> client_backend fmt xfer"
  shows "yields (\<lambda>_. True) reported (be_lookup C d name)"
    and "yields (\<lambda>_. True) reported (be_get_attr C i)"
    and "yields (\<lambda>_. True) reported (be_set_attr C i sz at mt perms uid gid)"
    and "yields (\<lambda>_. True) reported (be_stats C)"
    and "yields (\<lambda>_. True) reported (be_create_file C d perms' flags name)"
    and "yields (\<lambda>_. True) reported (be_create_dir C d perms' name)"
    and "yields (\<lambda>_. True) reported (be_read C i offset len)"
    and "yields (\<lambda>_. True) reported (be_write C i offset data)"
    and "yields (\<lambda>_. True) reported (be_remove C i)"
    and "yields (\<lambda>_. True) reported (be_rename C i d name)"
  unfolding C_def client_backend_def client_lookup_def client_get_attr_def client_set_attr_def
    client_stats_def client_create_file_def client_create_dir_def client_read_def client_write_def
    client_remove_def client_rename_def
  by (simp_all add: yields_call waiters_reported)

lemma client_reported_read_dir:
  "yields (\<lambda>_. True) reported (be_read_dir (client_backend fmt xfer) i)"
proof -
  have "yields (\<lambda>_. True) reported (case parse_dir_entries data of Inr es \<Rightarrow> io_return es
      | Inl e \<Rightarrow> io_fail (io_error_other (fmt e)))" for data
    by (auto simp: yields_def io_error_other_def reported_kind_def split: sum.split)
  then show ?thesis
    by (simp add: client_backend_def client_read_dir_def)
       (rule yields_bind [OF yields_call(2) [OF waiters_reported(2)]])
qed

lemma answer_errno:
  assumes "yields (\<lambda>_. True) reported m" and "\<And>x n. f x \<noteq> ReplyError n"
    and "answer m f fu = (Ok (ReplyError n), fu')"
  shows "n \<in> {ENOENT, EEXIST, EINVAL, EIO}"
proof -
  from answer_Ok(3) [OF assms(3)] obtain e b where
    "m (fu_backend fu) = (Err e, b)" "n = io_to_errno e"
    using assms(2) by (metis fuse_reply.inject(4))
  with yields_Err [OF assms(1), of "fu_backend fu" e b] show ?thesis
    by (auto simp: reported_kind_def io_to_errno_def)
qed

lemma yields_bind_reported:
  "yields (\<lambda>_. True) reported m \<Longrightarrow> (\<And>x. yields (\<lambda>_. True) reported (k x))
   \<Longrightarrow> yields (\<lambda>_. True) reported (io_bind m k)"
  by (rule yields_bind)

lemma yields_with_attr:
  "yields (\<lambda>_. True) reported m \<Longrightarrow> yields (\<lambda>_. True) reported
    (io_bind m (\<lambda>i. io_bind (be_get_attr (client_backend fmt xfer) i) (\<lambda>a. io_return (i, a))))"
  by (intro yields_bind_reported client_reported yields_return TrueI)

lemma fill_directory_no_error: "fill_directory full added es \<noteq> ReplyError n"
  by (simp add: fill_directory_iff)

lemma fuse_errno:
  assumes "fuse_handle (client_backend fmt xfer) full now now' req fu = (Ok (ReplyError n), fu')"
  shows "n \<in> {ENOENT, EEXIST, EINVAL, EIO}"
proof (cases req)
  case (FuseFlush i)
  with assms show ?thesis by (simp add: fuse_flush_def)
qed (use assms in \<open>auto simp: fuse_handlers Let_def split_beta simp del: insert_iff
      dest!: answer_errno [rotated 2] intro!: yields_with_attr yields_bind_reported client_reported
        client_reported_read_dir fill_directory_no_error\<close>)

subsection \<open>A session of requests\<close>

text \<open>The replies to a sequence of kernel requests, up to the first that is never answered.\<close>

fun fuse_session :: "'b fs_backend \<Rightarrow> (fuser_dirent list \<Rightarrow> fuser_dirent \<Rightarrow> bool) \<Rightarrow> system_time
    \<Rightarrow> system_time \<Rightarrow> fuse_request list \<Rightarrow> 'b fuse \<Rightarrow> fuse_reply list" where
  "fuse_session B full now now' [] fu = []"
| "fuse_session B full now now' (r # rs) fu = (case fuse_handle B full now now' r fu of
      (Ok rep, fu') \<Rightarrow> rep # fuse_session B full now now' rs fu'
    | _ \<Rightarrow> [])"

lemma fuse_handle_unlocked:
  assumes "fuse_handle B full now now' req (fuse_new b) = (Ok rep, fu)"
  shows "fu = fuse_new (fu_backend fu)"
proof -
  have "fu_lock fu = Unlocked"
    using assms by (cases req) (auto simp: fuse_handlers fuse_flush_def fuse_new_def Let_def dest: answer_Ok(2))
  then show ?thesis by (simp add: fuse_new_def)
qed

context delivery
begin

lemma session_transparent:
  fixes c :: "'s peer client"
  assumes "wf_backend B" and "list_all (fits_request now now') reqs" and "healthy c"
  shows "fuse_session (remote fmt B) full now now' reqs (fuse_new c)
    = map wire_reply (fuse_session B full now now' (map (wire_request now now') reqs) (fuse_new (remote_fs c)))"
  using assms(2,3)
proof (induction reqs arbitrary: c)
  case (Cons req reqs)
  obtain r l where l: "fuse_handle B full now now' (wire_request now now' req) (fuse_new (remote_fs c)) = (r, l)"
    by fastforce
  with transparent_handle [OF assms(1), of now now' req full fmt] Cons.prems obtain fu where
    fu: "fuse_handle (remote fmt B) full now now' req (fuse_new c) = (wire_result wire_reply r, fu)"
      "remote_fs (fu_backend fu) = fu_backend l"
      "(\<exists>rep. r = Ok rep) \<longrightarrow> fu_lock fu = Unlocked \<and> healthy (fu_backend fu)"
    unfolding transparent_def by fastforce
  show ?case
  proof (cases r)
    case (Ok rep)
    have "l = fuse_new (fu_backend l)" using l Ok by (intro fuse_handle_unlocked) simp
    moreover have "fu = fuse_new (fu_backend fu)" using fu(3) Ok by (simp add: fuse_new_def)
    moreover have "fuse_session (remote fmt B) full now now' reqs (fuse_new (fu_backend fu))
      = map wire_reply (fuse_session B full now now' (map (wire_request now now') reqs) (fuse_new (fu_backend l)))"
      using Cons.IH [of "fu_backend fu"] Cons.prems fu(2,3) Ok by simp
    ultimately show ?thesis using l fu(1) Ok by simp
  qed (use l fu(1) in simp_all)
qed simp

end

end
