(* ===== verification/Spec2Isabelle.thy ===== *)
theory Spec2Isabelle
  imports Disk_Properties Mount
begin

text \<open>
  A verification development for azpfs, a network filesystem: a FUSE client, a binary protocol
  over a byte stream, and a server that exports a directory.

  The program (all under \<open>src/src/core\<close>). A kernel request reaches a handler of \<open>client/fuse.rs\<close>,
  which runs operations of an \<open>FsBackend\<close> (the trait of \<open>fs/mod.rs\<close>) under a mutex. On the client
  the backend is \<open>ClientHandler\<close> (\<open>fs/handler.rs\<close>): it numbers a message, registers a listener for
  the number, encodes the message (\<open>protocol/messages.rs\<close>, \<open>protocol/codec.rs\<close>) and waits for the
  replies that its receive loop routes to the listener. On the server \<open>handle_client\<close>
  (\<open>server/mod.rs\<close>) decodes messages, spawns a task for each, and every task runs \<open>handle_msg\<close>
  (\<open>server/handlers.rs\<close>) on the backend behind a mutex; there it is \<open>DiskFs\<close> (\<open>fs/disk.rs\<close>), which
  maps inode numbers to paths and calls the operating system. Reads and listings
  (\<open>protocol/dir_entry.rs\<close>) come back in chunks, in any order.

  The theories, in the order they build on each other:

  \<^item> \<open>Prelude\<close>: machine integers, byte strings, big-endian images. \<open>Rust_Std\<close>: \<open>io::Error\<close>, \<open>Result\<close>
    with \<open>?\<close> (\<open>io_bind\<close>), panics and awaits that never end as outcomes, \<open>SystemTime\<close>, UTF-8, paths.
    \<open>Io_Logic\<close>: invariants (\<open>keeps\<close>) and results (\<open>yields\<close>) of effectful operations.
  \<^item> \<open>Binrw\<close>: the primitives behind the wire attributes and \<open>is_eof\<close>; its notion \<open>streaming\<close> says that
    a reader's verdict, other than that input ran out, is final. \<open>Fs_Types\<close>, \<open>Messages\<close>, \<open>Wire\<close>:
    the data of \<open>fs/mod.rs\<close>, \<open>protocol/error.rs\<close> and \<open>protocol/messages.rs\<close> with one reader per
    variant and the writer. \<open>Codec\<close>: the decoder on a stream of pieces and packed listings, both
    instances of the interface \<open>framed\<close>.
  \<^item> \<open>Backend\<close>: the trait as the record \<open>fs_backend\<close>, attributes and errors over the wire. \<open>Chunks\<close>:
    cutting and reassembly. \<open>Handlers\<close>: \<open>handle_msg\<close>. \<open>Server\<close>: all connections, their reply channels
    and writer tasks as the step relation \<open>server_step\<close>, compared with the sequential server \<open>run_seq\<close>.
  \<^item> \<open>Client\<close>: \<open>ClientHandler\<close> against an arbitrary peer. \<open>Remote\<close>: client and server joined, under
    the interface \<open>delivery\<close> of the connection; \<open>simulates\<close> is the refinement of each operation.
  \<^item> \<open>Disk\<close>: \<open>DiskFs\<close> over the parameter \<open>os\<close> of system calls; \<open>Disk_Laws\<close>: what its operations keep,
    under the interface \<open>map_invariant\<close>; \<open>Mem_Os\<close>: a concrete operating system in memory for
    examples; \<open>Disk_Properties\<close>: its properties.
  \<^item> \<open>Fuse\<close>: the FUSE handlers; \<open>Mount\<close>: the handlers over any backend and over a remote one.

  What is shown. The wire format is a bijection on the messages that fit it, and decoding does not
  depend on how bytes arrive (\<open>Codec\<close>); chunks in any order give the data (\<open>Chunks\<close>). The server,
  whatever the interleaving of its tasks, behaves as a sequential run, every reply answers a
  request, and its own steps end, with everything written unless a backend call hangs or a peer
  does not read; a peer that does not read can stop it for all (\<open>Server\<close>, here). The client's
  operations over a server are the server's backend operations (\<open>Remote\<close>, here), and so a mount
  answers as a local one would (\<open>mount_is_transparent\<close>). The disk backend hands out only paths inside the exported
  directory while names are harmless (\<open>served_paths_stay_inside\<close>), and changes its map only where
  it should (\<open>Disk_Properties\<close>). Where the code falls short of its purpose the theorems say so:
  long names, absolute names, times and lengths that panic, renaming onto itself, closed
  connections, listeners that stay, full directory replies, a client that stops reading.

  Bounds and fuel. Loops over bytes recurse on their length, the waiting loops on the queue; no
  definition takes fuel. The loop over a directory stream is a partial function: a stream need not
  end, and then the operation hangs. The reply channel holds 32 messages. Integers are words of the
  source's width; lengths of data in memory are natural numbers, below \<open>2 ^ 64\<close> where the code stores
  them in 64 bits.

  What is not modelled, and why. The two binaries parse arguments and connect sockets. Logging has
  no effect on results. The client has one caller, as \<open>&mut self\<close> enforces, so the joined system of
  \<open>Remote\<close> has one request at a time; \<open>server_xfer_of_steps\<close> derives its server end from
  \<open>server_step\<close>, where many connections and requests run at once. An allocation that fails aborts
  the process and is left out. \<open>NoReply\<close> stands for a handler that returns without calling its reply
  object; what the FUSE library does then is its own. The operating system, the FUSE reply buffer,
  the text of a wire-library error, the debug text of a message and the clock are parameters.
\<close>

section \<open>Examples to run\<close>

text \<open>A server over the disk backend that receives one lookup, handles it and answers.\<close>

definition no_text :: "bin_error \<Rightarrow> ustring" where
  "no_text e = []"

abbreviation serving :: "mem_world disk server \<Rightarrow> bool" where
  "serving \<equiv> server_reach no_text (disk_backend mem_os) disk_srv"

definition asked :: "mem_world disk server" where
  "asked = (server_init disk_srv)\<lparr>sv_received := [(0, LookupReq 9 1 (ascii ''a''))],
     sv_tasks := {#(0, LookupReq 9 1 (ascii ''a''))#}\<rparr>"

definition answered :: "mem_world disk server" where
  "answered = (server_init disk_srv)\<lparr>sv_received := [(0, LookupReq 9 1 (ascii ''a''))], sv_fs := disk_a,
     sv_sent := [(0, LookupRes 9 65)], sv_written := [(0, LookupRes 9 65)]\<rparr>"

lemma handle_lookup_a: "handle_msg no_text (disk_backend mem_os) (LookupReq 9 1 (ascii ''a'')) disk_srv
    = (Ok [LookupRes 9 65], disk_a)"
  using lookup_a by (simp add: disk_backend_def reply_with_def disk_a_def)

lemma serving_asked: "serving asked"
  using server_reach.step [OF server_reach.start server_step.receive [where i = 0
      and m = "LookupReq 9 1 (ascii ''a'')"]]
  by (simp add: asked_def server_init_def)

lemma asked_answered: "(server_internal no_text (disk_backend mem_os))\<^sup>*\<^sup>* asked answered"
proof -
  let ?step = "server_internal no_text (disk_backend mem_os)"
  let ?r = "LookupRes 9 65"
  let ?held = "asked\<lparr>sv_tasks := {#}, sv_fs := disk_a, sv_lock := Replying 0 {#?r#}\<rparr>"
  let ?sent = "?held\<lparr>sv_lock := Replying 0 {#}, sv_sent := [(0, ?r)], sv_queue := [(0, ?r)]\<rparr>"
  let ?free = "?sent\<lparr>sv_lock := Free\<rparr>"
  let ?taken = "?free\<lparr>sv_queue := [], sv_writing := [(0, ?r)]\<rparr>"
  have "?step asked ?held"
    using server_step.handle [of 0 "LookupReq 9 1 (ascii ''a'')" asked no_text "disk_backend mem_os"
        "[?r]" disk_a] handle_lookup_a
    by (simp add: server_internal_def asked_def server_init_def del: handle_msg.simps)
  moreover have "?step ?held ?sent"
    using server_step.send [of ?held 0 "{#?r#}" ?r no_text "disk_backend mem_os"]
    by (simp add: server_internal_def asked_def server_init_def has_room_def CHANNEL_def)
  moreover have "?step ?sent ?free"
    using server_step.unlock [of ?sent 0 no_text "disk_backend mem_os"]
    by (simp add: server_internal_def)
  moreover have "?step ?free ?taken"
    using server_step.take [of ?free "[]" 0 ?r "[]" no_text "disk_backend mem_os"]
    by (simp add: server_internal_def asked_def server_init_def)
  moreover have "?step ?taken answered"
    using server_step.write_out [of 0 ?r ?taken no_text "disk_backend mem_os"]
    by (simp add: server_internal_def asked_def answered_def server_init_def)
  ultimately show ?thesis by (meson rtranclp.rtrancl_into_rtrancl rtranclp.rtrancl_refl)
qed

lemma serving_answered: "serving answered"
  using asked_answered serving_asked by (rule server_internal_reach)

lemma answered_stops: "\<nexists>e. server_internal no_text (disk_backend mem_os) answered e"
  unfolding server_internal_def
  by (auto elim!: server_stepE simp: answered_def server_init_def fun_upd_idem_iff)

text \<open>Two \<open>INIT_REQ\<close>s on two connections after that, the second of an unknown version.\<close>

definition inited :: "mem_world disk server" where
  "inited = answered\<lparr>
     sv_received := [(0, LookupReq 9 1 (ascii ''a'')), (0, InitReq 7 0), (1, InitReq 8 5)],
     sv_sent := [(0, LookupRes 9 65), (0, InitRes 7 True), (1, InitRes 8 False)],
     sv_queue := [(0, InitRes 7 True), (1, InitRes 8 False)]\<rparr>"

lemma serving_inited: "serving inited"
proof -
  let ?c = "answered\<lparr>sv_received := sv_received answered @ [(0, InitReq 7 0)], sv_tasks := {#},
     sv_sent := sv_sent answered @ [(0, InitRes 7 True)], sv_queue := sv_queue answered @ [(0, InitRes 7 True)]\<rparr>"
  have "serving ?c"
    using init_served [OF serving_answered, of 0 7 0]
    by (simp add: answered_def server_init_def has_room_def CHANNEL_def)
  from init_served [OF this, of 1 8 5] show ?thesis
    by (simp add: inited_def answered_def server_init_def has_room_def CHANNEL_def)
qed

section \<open>The message handler\<close>

text \<open>C20: Handling a request that does not panic or hang gives at least one reply, every reply has
  the request's id and is of a type the protocol allows for it.\<close>

theorem handler_answers:
  assumes "is_request m" and "handle_msg fmt B m s = (Ok rs, s')"
  shows "rs \<noteq> [] \<and> list_all (reply_fits m) rs \<and> list_all (\<lambda>r. request_id r = request_id m) rs"
  using assms by (rule handle_msg_answer)

theorem handler_answers_witness:
  "[LookupRes 9 65] \<noteq> [] \<and> list_all (reply_fits (LookupReq 9 1 (ascii ''a''))) [LookupRes 9 65]
   \<and> list_all (\<lambda>r. request_id r = request_id (LookupReq 9 1 (ascii ''a''))) [LookupRes 9 65]"
  by (rule handler_answers [OF _ handle_lookup_a]) simp

text \<open>C21: Over a backend whose texts, times and listings fit the wire, everything the handler sends
  fits the wire too, so the client reads exactly what was sent.\<close>

theorem handler_replies_fit_the_wire:
  assumes "wf_backend B" and "handle_msg fmt B m s = (Ok rs, s')"
  shows "decode_all (concat (map write_message rs)) = (rs, None, [])"
  using decode_all_messages [OF handle_msg_wf [OF assms]] .

theorem handler_replies_fit_the_wire_witness:
  "decode_all (concat (map write_message [LookupRes 9 65])) = ([LookupRes 9 65], None, [])"
  by (rule handler_replies_fit_the_wire [OF disk_backend_wf [OF mem_os_fits] handle_lookup_a])

text \<open>C35: A \<open>SET_ATTR_REQ\<close> with an access or modification time of \<open>2 ^ 63\<close> seconds or more panics
  the handler: nothing is sent and the backend is not called.\<close>

theorem set_attr_time_panics:
  assumes "2 ^ 63 \<le> unat t" and "atime = Some t \<or> mtime = Some t"
  shows "handle_msg fmt B (SetAttrReq rid i sz atime mtime perms uid gid) s = (Panics, s)"
proof -
  have "time_field (Some t) = None"
    using assms(1) by (simp add: from_unix_def epoch_plus_secs_def)
  with assms(2) show ?thesis by (auto split: option.splits)
qed

theorem set_attr_time_panics_witness:
  "handle_msg no_text (disk_backend mem_os)
     (SetAttrReq 3 1 None (Some 0x8000000000000000) None None None None) disk_srv = (Panics, disk_srv)"
  by (rule set_attr_time_panics [of "0x8000000000000000"]) simp_all

section \<open>The server\<close>

text \<open>C2: Concurrent handling is serialisable. Whatever the interleaving of the tasks of all
  connections, once no handler has anything left to do the backend and the replies, each with
  its connection, as a collection, are those of handling the received messages one after another
  in some order.\<close>

theorem server_is_serialisable:
  assumes "server_reach fmt B fs0 c" and "quiescent c"
  shows "\<exists>ms. mset ms = mset (sv_received c) \<and> sv_fs c = snd (run_seq fmt B ms fs0)
    \<and> mset (sv_sent c) = mset (fst (run_seq fmt B ms fs0))"
proof -
  from server_reach_serial [OF assms(1)] obtain ms where "serial fmt B fs0 c ms" ..
  with assms(2) show ?thesis by (auto simp: serial_def quiescent_def)
qed

theorem server_is_serialisable_witness:
  "\<exists>ms. mset ms = mset (sv_received answered)
    \<and> sv_fs answered = snd (run_seq no_text (disk_backend mem_os) ms disk_srv)
    \<and> mset (sv_sent answered) = mset (fst (run_seq no_text (disk_backend mem_os) ms disk_srv))"
  by (rule server_is_serialisable [OF serving_answered])
     (simp add: quiescent_def answered_def server_init_def)

text \<open>C11: At every moment, every reply the server has sent on a connection answers a request
  received on that connection: same id, and a type the protocol allows for that request.\<close>

theorem every_reply_answers_a_request:
  assumes "server_reach fmt B fs0 c" and "(i, r) \<in> set (sv_sent c)"
  shows "\<exists>m. (i, m) \<in> set (sv_received c) \<and> is_request m \<and> request_id r = request_id m \<and> reply_fits m r"
  using assms by (rule server_reply_answers)

theorem every_reply_answers_a_request_witness:
  "\<exists>m. (0, m) \<in> set (sv_received answered) \<and> is_request m \<and> request_id (LookupRes 9 65) = request_id m
     \<and> reply_fits m (LookupRes 9 65)"
  by (rule every_reply_answers_a_request [OF serving_answered]) (simp add: answered_def)

text \<open>C9: The server's own steps end, in any order, and every run of them that cannot go on has come
  to one of three ends: all handlers have run and everything sent on a connection has been
  written to its peer, in the order it was sent, but for a tail lost with a peer that is gone; or
  a backend call hangs and the mutex is never free again; or a writer waits for a peer that does
  not read.\<close>

theorem server_comes_to_rest:
  assumes "server_reach fmt B fs0 c" and "(server_internal fmt B)\<^sup>*\<^sup>* c d"
    and "\<nexists>e. server_internal fmt B d e"
  shows "wfP (\<lambda>c' c. server_internal fmt B c c')
    \<and> ((finished d \<and> (\<forall>i. on i (sv_sent d) = on i (sv_written d) @ on i (sv_lost d)
          \<and> (on i (sv_lost d) = [] \<or> sv_peer c i = Gone)))
       \<or> sv_lock d = Stuck \<or> (\<exists>i r. (i, r) \<in> set (sv_writing d) \<and> sv_peer c i = Stalled))"
  using server_end [OF assms] server_internal_wf by blast

theorem server_comes_to_rest_witness:
  "finished answered \<and> on 0 (sv_sent answered) = on 0 (sv_written answered) @ on 0 (sv_lost answered)"
proof -
  have "sv_lock answered \<noteq> Stuck" "sv_writing answered = []"
    by (simp_all add: answered_def server_init_def)
  with server_comes_to_rest [OF serving_asked asked_answered answered_stops] show ?thesis by simp
qed

text \<open>C10: One client stops the server for all. From the start, when the backend answers some request
  of connection \<open>i\<close>, that connection alone brings the server to a state from which, as long as its
  peer does not read, no step of any connection changes the backend or frees the mutex: every
  other request that needs the backend, on whatever connection and whenever it arrives, waits.\<close>

theorem one_client_stops_all:
  assumes "\<not> lock_free m" and "handle_msg fmt B m fs0 = (Ok rs, fs')" and "rs \<noteq> []"
  shows "\<exists>c. server_reach fmt B fs0 c \<and> fst ` set (sv_received c) = {i}
    \<and> {c'. (stalled_step fmt B i)\<^sup>*\<^sup>* c c'} \<subseteq> {c'. sv_fs c' = fs' \<and> sv_lock c' = sv_lock c
        \<and> sv_lock c' \<noteq> Free
        \<and> needs_lock (mset (sv_received c')) = add_mset (i, m) (needs_lock (sv_tasks c'))}"
proof -
  from client_blocks_server [OF assms, of i] obtain c where c: "server_reach fmt B fs0 c"
    "fst ` set (sv_received c) = {i}" "sv_fs c = fs'" "blocked c i"
    "needs_lock (mset (sv_received c)) = {#(i, m)#} + needs_lock (sv_tasks c)" by auto
  have "sv_fs c' = fs' \<and> sv_lock c' = sv_lock c \<and> sv_lock c' \<noteq> Free
      \<and> needs_lock (mset (sv_received c')) = add_mset (i, m) (needs_lock (sv_tasks c'))"
    if "(stalled_step fmt B i)\<^sup>*\<^sup>* c c'" for c'
    using blocked_stays [OF that c(4,5)] c(3) by (auto simp: blocked_def)
  with c(1,2) show ?thesis by blast
qed

theorem one_client_stops_all_witness:
  "\<exists>c. serving c \<and> fst ` set (sv_received c) = {0}
    \<and> {c'. (stalled_step no_text (disk_backend mem_os) 0)\<^sup>*\<^sup>* c c'} \<subseteq> {c'. sv_fs c' = disk_a
        \<and> sv_lock c' = sv_lock c \<and> sv_lock c' \<noteq> Free
        \<and> needs_lock (mset (sv_received c'))
          = add_mset (0, LookupReq 9 1 (ascii ''a'')) (needs_lock (sv_tasks c'))}"
  by (rule one_client_stops_all [OF _ handle_lookup_a]) simp_all

text \<open>C32: The server keeps no session. Whenever \<open>INIT_REQ\<close>s arrive, once, repeatedly, late or with
  an unknown version, on whatever connection, each is answered by its version alone, and all
  other requests are served, in some order, as if there were no \<open>INIT_REQ\<close>s at all.\<close>

theorem init_is_no_session:
  assumes "server_reach fmt B fs0 c" and "quiescent c"
  shows "\<exists>ms. mset ms = mset (filter (\<lambda>x. \<not> is_init x) (sv_received c))
    \<and> sv_fs c = snd (run_seq fmt B ms fs0)
    \<and> mset (filter (\<lambda>x. \<not> is_init_res x) (sv_sent c)) = mset (fst (run_seq fmt B ms fs0))
    \<and> mset (filter is_init_res (sv_sent c)) = mset (map version_check (filter is_init (sv_received c)))"
proof -
  from server_reach_serial [OF assms(1)] obtain ms where ser: "serial fmt B fs0 c ms" ..
  with assms(2) have run: "settled fmt B ms fs0" "mset ms = mset (sv_received c)"
    "sv_fs c = snd (run_seq fmt B ms fs0)" "mset (sv_sent c) = mset (fst (run_seq fmt B ms fs0))"
    by (auto simp: serial_def quiescent_def)
  have split: "mset (filter P xs) = filter_mset P (mset xs)" for P and xs :: "(conn \<times> message) list"
    by (rule mset_filter)
  have "mset (filter P (sv_sent c)) = mset (filter P (fst (run_seq fmt B ms fs0)))"
    "mset (filter P ms) = mset (filter P (sv_received c))" for P
    unfolding split run(2,4) by (rule refl)+
  with run_seq_init [OF run(1)] run(3) show ?thesis
    by (intro exI [where x = "filter (\<lambda>x. \<not> is_init x) ms"]) (simp only: mset_map simp_thms)
qed

theorem init_is_no_session_witness:
  "(\<exists>ms. mset ms = {#(0, LookupReq 9 1 (ascii ''a''))#}
      \<and> sv_fs inited = snd (run_seq no_text (disk_backend mem_os) ms disk_srv))
   \<and> filter is_init (sv_received inited) = [(0, InitReq 7 0), (1, InitReq 8 5)]
   \<and> mset (filter is_init_res (sv_sent inited)) = {#(0, InitRes 7 True), (1, InitRes 8 False)#}"
proof -
  have "quiescent inited" by (simp add: quiescent_def inited_def answered_def server_init_def)
  from init_is_no_session [OF serving_inited this] show ?thesis by (auto simp: inited_def)
qed

section \<open>The disk behind the server\<close>

lemma confined_run_seq:
  assumes "list_all (\<lambda>x. list_all safe_name (message_names (snd x))) ms" and "confined root d"
  shows "confined root (snd (run_seq fmt (disk_backend os) ms d))"
  using assms
proof (induction ms arbitrary: d)
  case (Cons x ms)
  obtain i m where x: "x = (i, m)" by fastforce
  obtain r d' where h: "handle_msg fmt (disk_backend os) m d = (r, d')" by fastforce
  have "confined root d'"
    using Cons.prems x by (intro keepsD [OF confined_handle h]) simp_all
  then have "confined root (snd (run_seq fmt (disk_backend os) ms d'))"
    using Cons.prems(1) by (intro Cons.IH) simp_all
  moreover obtain rs d'' where "run_seq fmt (disk_backend os) ms d' = (rs, d'')" by fastforce
  ultimately show ?case using h x \<open>confined root d'\<close> by (cases r) simp_all
qed simp

text \<open>C7: As long as clients send only relative names without a climbing component, no interleaving
  of their requests, no error and no panic makes the disk backend serve a path outside the
  exported directory (symbolic links aside, which the operating system resolves).\<close>

theorem served_paths_stay_inside:
  assumes "server_reach fmt (disk_backend os) (disk_new root w) c"
    and "\<forall>x \<in> set (sv_received c). list_all safe_name (message_names (snd x))"
    and "inode_map (sv_fs c) i = Some p"
  shows "inside root p"
proof -
  from server_reach_serial [OF assms(1)] obtain ms where
    ser: "serial fmt (disk_backend os) (disk_new root w) c ms" ..
  then have "mset ms + sv_tasks c = mset (sv_received c)" by (simp add: serial_def)
  then have "set ms \<subseteq> set (sv_received c)" by (metis mset_subset_eq_add_left set_mset_mono set_mset_mset)
  with assms(2) have "list_all (\<lambda>x. list_all safe_name (message_names (snd x))) ms"
    by (auto simp: list_all_iff)
  then have "confined root (sv_fs c)"
    using ser confined_run_seq [of ms root "disk_new root w" fmt os] by (simp add: serial_def)
  with assms(3) show ?thesis by (simp add: confined_map_def)
qed

theorem served_paths_stay_inside_witness: "inside srv (ascii ''/srv/a'')"
proof (rule served_paths_stay_inside)
  show "server_reach no_text (disk_backend mem_os) (disk_new srv mem_srv) answered"
    using serving_answered by (simp add: disk_srv_def)
  show "\<forall>x \<in> set (sv_received answered). list_all safe_name (message_names (snd x))"
    by (simp add: answered_def safe_name_def is_absolute_def ascii_def slash_def dot_def)
  show "inode_map (sv_fs answered) 65 = Some (ascii ''/srv/a'')"
    by (simp add: answered_def disk_a_def)
qed

section \<open>Client and server together\<close>

text \<open>
  The connection is any that delivers: \<open>arrange\<close> is the order in which the server's replies to one
  request go out, \<open>pieces\<close> how their bytes arrive.
\<close>

lemma delivery_intro:
  "(\<And>rs. mset (arrange rs) = mset rs) \<Longrightarrow> (\<And>bs. concat (pieces bs) = bs) \<Longrightarrow> delivery arrange pieces"
  by (rule delivery.intro)

lemma simulatesD:
  assumes "simulates f local remote" and "healthy c" and "local (remote_fs c) = (r, s')"
  shows "\<exists>c'. remote c = (wire_result f r, c') \<and> remote_fs c' = s' \<and> (r \<noteq> Hangs \<longrightarrow> healthy c')
    \<and> cl_next_id c' = cl_next_id c + 1
    \<and> dom (cl_listeners c') = insert (cl_next_id c) (dom (cl_listeners c))"
  using assms(1) [unfolded simulates_def, rule_format, OF assms(2)] assms(3) by simp

text \<open>C19: The handshake with a server of this program succeeds, whatever its backend gives as long as
  it fits the wire, and leaves the connection ready for calls and the server's backend untouched.\<close>

theorem client_connects:
  assumes "\<And>rs. mset (arrange rs) = mset rs" and "\<And>bs. concat (pieces bs) = bs" and "wf_backend B"
  shows "\<exists>c. client_new dbg (server_xfer fmt B arrange pieces) (peer_fresh s) = (Ok (), c)
    \<and> healthy c \<and> remote_fs c = s"
proof -
  have d: "delivery arrange pieces" using assms(1,2) by (rule delivery_intro)
  let ?c = "client_fresh (peer_fresh s)"
  have "handle_msg fmt B (set_request_id (cl_next_id ?c) (InitReq 0 0)) (remote_fs ?c)
      = (Ok [InitRes (cl_next_id ?c) True], s)" by simp
  from delivery.call_served [OF d assms(3) healthy_fresh _ _ _ this, of "init_reply dbg"]
  obtain c' where "call (server_xfer fmt B arrange pieces) (InitReq 0 0) (init_reply dbg) ?c
      = (init_reply dbg (arrange [InitRes (cl_next_id ?c) True]) True, c')"
    "remote_fs c' = s" "healthy c'" by auto
  then show ?thesis
    by (simp add: client_new_def client_init_def delivery.arrange_single [OF d] init_reply_def)
qed

theorem client_connects_witness:
  "\<exists>c. client_new (\<lambda>_. []) (server_xfer no_text (disk_backend mem_os) rev (map (\<lambda>b. [b])))
      (peer_fresh disk_srv) = (Ok (), c) \<and> healthy c \<and> remote_fs c = disk_srv"
  by (rule client_connects [OF bytewise.arrange_mset bytewise.pieces_concat
        disk_backend_wf [OF mem_os_fits]])

text \<open>C5: Creating, looking up, moving and removing by the client does what the server's backend
  does: from a healthy connection the call returns its result, or its error by code and text,
  and leaves the backend in the same state and the connection healthy; if the backend panics or
  hangs the call never returns.\<close>

theorem remote_namespace:
  assumes "\<And>rs. mset (arrange rs) = mset rs" and "\<And>bs. concat (pieces bs) = bs"
    and "wf_backend B" and "length name < 256"
  shows "simulates id (be_lookup B d name) (client_lookup (server_xfer fmt B arrange pieces) d name)
    \<and> simulates id (be_create_file B d perms flags name)
        (client_create_file (server_xfer fmt B arrange pieces) d perms flags name)
    \<and> simulates id (be_create_dir B d perms name)
        (client_create_dir (server_xfer fmt B arrange pieces) d perms name)
    \<and> simulates id (be_rename B i d name) (client_rename (server_xfer fmt B arrange pieces) i d name)
    \<and> simulates id (be_remove B i) (client_remove (server_xfer fmt B arrange pieces) i)"
  using delivery_intro [OF assms(1,2)] assms(3,4)
  by (simp add: delivery.simulates_lookup delivery.simulates_create_file delivery.simulates_create_dir
      delivery.simulates_rename delivery.simulates_remove)

theorem remote_namespace_witness:
  "\<exists>c'. client_lookup (server_xfer no_text (disk_backend mem_os) rev (map (\<lambda>b. [b]))) 1 (ascii ''a'')
     (client_fresh (peer_fresh disk_srv)) = (Ok 65, c') \<and> remote_fs c' = disk_a"
proof -
  have "simulates id (be_lookup (disk_backend mem_os) 1 (ascii ''a''))
      (client_lookup (server_xfer no_text (disk_backend mem_os) rev (map (\<lambda>b. [b]))) 1 (ascii ''a''))"
    using remote_namespace [OF bytewise.arrange_mset bytewise.pieces_concat
        disk_backend_wf [OF mem_os_fits], of "ascii ''a''"] by (simp add: ascii_def)
  then have "refines id (be_lookup (disk_backend mem_os) 1 (ascii ''a''))
      (client_lookup (server_xfer no_text (disk_backend mem_os) rev (map (\<lambda>b. [b]))) 1 (ascii ''a''))"
    by (rule refines_simulates)
  from refinesD [OF this healthy_fresh, of disk_srv "Ok 65" disk_a] show ?thesis
    using lookup_a by (auto simp: disk_backend_def disk_a_def)
qed

text \<open>C4: Reading, writing and listing by the client give exactly the bytes and entries the server's
  backend gives, however the reply is cut into chunks, ordered and delivered.\<close>

theorem remote_data:
  assumes "\<And>rs. mset (arrange rs) = mset rs" and "\<And>bs. concat (pieces bs) = bs"
    and "wf_backend B" and "length data < 4294967296"
  shows "simulates id (be_read B i offset len) (client_read (server_xfer fmt B arrange pieces) i offset len)
    \<and> simulates id (be_write B i offset data) (client_write (server_xfer fmt B arrange pieces) i offset data)
    \<and> simulates id (be_read_dir B i) (client_read_dir fmt (server_xfer fmt B arrange pieces) i)"
  using delivery_intro [OF assms(1,2)] assms(3,4)
  by (simp add: delivery.simulates_read delivery.simulates_write delivery.simulates_read_dir)

theorem remote_data_witness:
  "\<exists>c'. client_read_dir no_text (server_xfer no_text (disk_backend mem_os) rev (map (\<lambda>b. [b]))) 1
     (client_fresh (peer_fresh disk_srv)) = (Ok
      [\<lparr>de_inode = 1, de_file_type = Directory, de_filename = [dot]\<rparr>,
       \<lparr>de_inode = 1, de_file_type = Directory, de_filename = [dot, dot]\<rparr>,
       \<lparr>de_inode = 65, de_file_type = RegularFile, de_filename = ascii ''a''\<rparr>], c')"
proof -
  have "simulates id (be_read_dir (disk_backend mem_os) 1)
      (client_read_dir no_text (server_xfer no_text (disk_backend mem_os) rev (map (\<lambda>b. [b]))) 1)"
    using remote_data [OF bytewise.arrange_mset bytewise.pieces_concat
        disk_backend_wf [OF mem_os_fits], of "[]"] by simp
  from refinesD [OF refines_simulates [OF this] healthy_fresh, of disk_srv] show ?thesis
    using read_dir_srv by (fastforce simp: disk_backend_def)
qed

text \<open>C6: Attributes and statistics by the client are those of the server's backend, times in whole
  seconds from the epoch on, and setting attributes sets them to the times the wire carries.\<close>

theorem remote_attributes:
  assumes "\<And>rs. mset (arrange rs) = mset rs" and "\<And>bs. concat (pieces bs) = bs" and "wf_backend B"
    and "case atime of None \<Rightarrow> True | Some x \<Rightarrow> valid_time x"
    and "case mtime of None \<Rightarrow> True | Some x \<Rightarrow> valid_time x"
  shows "simulates wire_attr (be_get_attr B i) (client_get_attr (server_xfer fmt B arrange pieces) i)
    \<and> simulates id (be_stats B) (client_stats (server_xfer fmt B arrange pieces))
    \<and> simulates id (be_set_attr B i sz (map_option wire_time atime) (map_option wire_time mtime) perms uid gid)
        (client_set_attr (server_xfer fmt B arrange pieces) i sz atime mtime perms uid gid)"
  using delivery_intro [OF assms(1,2)] assms(3-5)
  by (simp add: delivery.simulates_get_attr delivery.simulates_stats delivery.simulates_set_attr)

theorem remote_attributes_witness:
  "\<exists>c'. client_stats (server_xfer no_text (disk_backend mem_os) rev (map (\<lambda>b. [b])))
     (client_fresh (peer_fresh disk_srv)) = (Err stats_unsupported, c')"
proof -
  have "simulates id (be_stats (disk_backend mem_os))
      (client_stats (server_xfer no_text (disk_backend mem_os) rev (map (\<lambda>b. [b]))))"
    using remote_attributes [OF bytewise.arrange_mset bytewise.pieces_concat
        disk_backend_wf [OF mem_os_fits], of "Some 1500000000" None]
    by (simp add: valid_time_def nanos_per_sec_def)
  from refinesD [OF refines_simulates [OF this] healthy_fresh, of disk_srv] show ?thesis
    by (fastforce simp: disk_backend_def disk_stats_def wire_error_def stats_unsupported_def io_error_new_def)
qed

section \<open>The mount\<close>

text \<open>C1: A mounted remote filesystem answers like a local one. Over any backend whose results fit
  the wire, any sequence of kernel requests with short names, data below 4 GiB and representable
  times gets from the FUSE layer over the client and the server the replies it would get from the
  FUSE layer directly over the backend, with times in whole seconds and \<open>EIO\<close> for \<open>EACCES\<close>,
  whatever the order and the pieces in which replies travel.\<close>

theorem mount_is_transparent:
  assumes "\<And>rs. mset (arrange rs) = mset rs" and "\<And>bs. concat (pieces bs) = bs"
    and "wf_backend B" and "list_all (fits_request now now') reqs" and "healthy c"
  shows "fuse_session (client_backend fmt (server_xfer fmt B arrange pieces)) full now now' reqs (fuse_new c)
    = map wire_reply (fuse_session B full now now' (map (wire_request now now') reqs) (fuse_new (remote_fs c)))"
  using delivery.session_transparent [OF delivery_intro [OF assms(1,2)] assms(3-5)] .

theorem mount_is_transparent_witness:
  "fuse_session (client_backend no_text (server_xfer no_text (disk_backend mem_os) rev (map (\<lambda>b. [b]))))
      (\<lambda>_ _. False) 0 0 [FuseLookup 1 (ascii ''a''), FuseRead 65 0 4, FuseUnlink 1 (ascii ''a'')]
      (fuse_new (client_fresh (peer_fresh disk_srv)))
    = map wire_reply (fuse_session (disk_backend mem_os) (\<lambda>_ _. False) 0 0
        [FuseLookup 1 (ascii ''a''), FuseRead 65 0 4, FuseUnlink 1 (ascii ''a'')] (fuse_new disk_srv))"
  using mount_is_transparent [OF bytewise.arrange_mset bytewise.pieces_concat
      disk_backend_wf [OF mem_os_fits] _ healthy_fresh, of 0 0
      "[FuseLookup 1 (ascii ''a''), FuseRead 65 0 4, FuseUnlink 1 (ascii ''a'')]"]
  by (simp add: ascii_def)

text \<open>C29: The only error numbers a mount over the client ever gives are \<open>ENOENT\<close>, \<open>EEXIST\<close>, \<open>EINVAL\<close>
  and \<open>EIO\<close>, whatever the server sends; a refused permission reaches the caller as \<open>EIO\<close>.\<close>

theorem remote_error_numbers:
  assumes "fuse_handle (client_backend fmt xfer) full now now' req fu = (Ok (ReplyError n), fu')"
  shows "n \<in> {ENOENT, EEXIST, EINVAL, EIO}"
  using assms by (rule fuse_errno)

theorem remote_error_numbers_witness:
  "fst (fuse_handle (client_backend no_text (\<lambda>_ t. (Inl (ascii ''broken pipe''), t))) (\<lambda>_ _. False) 0 0
      (FuseStatfs 1) (fuse_new (client_fresh ()))) = Ok (ReplyError EIO)
   \<and> EIO \<in> {ENOENT, EEXIST, EINVAL, EIO}"
proof -
  let ?broken = "\<lambda>_ t. (Inl (ascii ''broken pipe''), t)"
  have "\<exists>fu'. fuse_handle (client_backend no_text ?broken) (\<lambda>_ _. False) 0 0 (FuseStatfs 1)
      (fuse_new (client_fresh ())) = (Ok (ReplyError EIO), fu')"
    by (simp add: fuse_statfs_def answer_def block_on_def fuse_new_def io_match_def client_backend_def
        client_stats_def call_def send_msg_def Let_def io_to_errno_def)
  then obtain fu' where "fuse_handle (client_backend no_text ?broken) (\<lambda>_ _. False) 0 0 (FuseStatfs 1)
      (fuse_new (client_fresh ())) = (Ok (ReplyError EIO), fu')" ..
  with remote_error_numbers [OF this] show ?thesis by (metis fst_conv)
qed

text \<open>C31: A handler panics only when a backend operation did or the mutex was poisoned already, and
  either way leaves the mutex poisoned: from then on every kernel request but a flush panics,
  for the rest of the mount, and nothing changes any more.\<close>

theorem poisoned_mount_stays_poisoned:
  assumes "fuse_handle B full now now' req fu = (Panics, fu')" and "\<forall>i. req' \<noteq> FuseFlush i"
  shows "fu_lock fu' = Poisoned \<and> fuse_handle B full' now1 now1' req' fu' = (Panics, fu')"
proof -
  have "fu_lock fu' = Poisoned"
    using assms(1) by (cases req) (auto simp: fuse_handlers fuse_flush_def Let_def dest: answer_Panics)
  with assms(2) show ?thesis by (cases req') (simp_all add: fuse_handlers answer_poisoned Let_def)
qed

text \<open>A server that answers with an access time of \<open>2 ^ 63\<close> seconds does it to a client.\<close>

definition far_future :: "unit xfer" where
  "far_future _ t = (Inr ([write_message
     (FileAttrRes 0 RegularFile 0 0 0x8000000000000000 0 0 0 0 0 0 0 0)], False), t)"

lemma far_future_panics: "fst (client_get_attr far_future i (client_fresh ())) = Panics"
proof -
  let ?m = "FileAttrRes 0 RegularFile 0 0 0x8000000000000000 0 0 0 0 0 0 0 0"
  have "decode_stream [] [write_message ?m] = ([?m], None, [])"
    by (rule decode_stream_messages) simp_all
  then show ?thesis
    by (simp add: client_get_attr_def call_def io_bind_def send_msg_def far_future_def client_fresh_def
        Let_def pump_def register_listener_def await_on_def reply_loop.simps next_message_def
        from_unix_def epoch_plus_secs_def)
qed

theorem poisoned_mount_stays_poisoned_witness:
  "\<exists>fu'. fuse_handle (client_backend no_text far_future) (\<lambda>_ _. False) 0 0 (FuseGetattr 1)
      (fuse_new (client_fresh ())) = (Panics, fu') \<and> fu_lock fu' = Poisoned
    \<and> fuse_handle (client_backend no_text far_future) (\<lambda>_ _. False) 0 0 (FuseStatfs 1) fu' = (Panics, fu')"
proof -
  obtain c where "client_get_attr far_future 1 (client_fresh ()) = (Panics, c)"
    using far_future_panics by (metis prod.collapse)
  then have "\<exists>fu'. fuse_handle (client_backend no_text far_future) (\<lambda>_ _. False) 0 0 (FuseGetattr 1)
      (fuse_new (client_fresh ())) = (Panics, fu')"
    by (simp add: fuse_getattr_def client_backend_def answer_def io_match_def block_on_def fuse_new_def)
  then obtain fu' where "fuse_handle (client_backend no_text far_future) (\<lambda>_ _. False) 0 0 (FuseGetattr 1)
      (fuse_new (client_fresh ())) = (Panics, fu')" ..
  with poisoned_mount_stays_poisoned [OF this, of "FuseStatfs 1"] show ?thesis by simp
qed

text \<open>C30: A directory request from an offset on is answered with the entries from that index, each
  marked with the offset to go on from, if they all fit the reply buffer; if one does not, the
  handler returns without answering, although the entries before it were added.\<close>

theorem readdir_reply:
  assumes "be_read_dir B ino b = (Ok entries, b')"
  shows "fuse_readdir B full ino offset (fuse_new b) = (Ok
    (let es = map fuser_dirent_of (drop (unat offset) (enumerate 0 entries))
     in if \<exists>k < length es. full (take k es) (es ! k) then NoReply else ReplyDirectory es), fuse_new b')"
proof -
  let ?es = "map fuser_dirent_of (drop (unat offset) (enumerate 0 entries))"
  have "fuse_readdir B full ino offset (fuse_new b) = (Ok (fill_directory full [] ?es), fuse_new b')"
    using assms by (simp add: fuse_readdir_def answer_def block_on_def fuse_new_def io_match_def)
  then show ?thesis unfolding fill_directory_iff Let_def append_Nil .
qed

theorem readdir_reply_witness:
  "fst (fuse_readdir (disk_backend mem_os) (\<lambda>added _. 2 \<le> length added) 1 0 (fuse_new disk_srv)) = Ok NoReply
   \<and> fst (fuse_readdir (disk_backend mem_os) (\<lambda>added _. 2 \<le> length added) 1 1 (fuse_new disk_srv)) =
     Ok (ReplyDirectory [\<lparr>fd_ino = 1, fd_offset = 2, fd_kind = DirectoryNode, fd_name = [dot, dot]\<rparr>,
       \<lparr>fd_ino = 65, fd_offset = 3, fd_kind = RegularFileNode, fd_name = ascii ''a''\<rparr>])"
proof -
  have rd: "be_read_dir (disk_backend mem_os) 1 disk_srv = (Ok
    [\<lparr>de_inode = 1, de_file_type = Directory, de_filename = [dot]\<rparr>,
     \<lparr>de_inode = 1, de_file_type = Directory, de_filename = [dot, dot]\<rparr>,
     \<lparr>de_inode = 65, de_file_type = RegularFile, de_filename = ascii ''a''\<rparr>],
    disk_srv\<lparr>dk_world := mem_srv\<lparr>mw_pos := 1\<rparr>\<rparr>)"
    using read_dir_srv by (simp add: disk_backend_def)
  from readdir_reply [OF rd, of _ 0] readdir_reply [OF rd, of _ 1] show ?thesis
    by (auto simp: Let_def fuser_dirent_of_def numeral_eq_Suc less_Suc_eq)
qed

end
